theory Spec2Isabelle
  imports Main "HOL-Library.Word" "HOL-Library.Sublist"
begin

unbundle bit_operations_syntax

section \<open>Python values used by app.py\<close>

text \<open>Exceptions of the source are values of this type.\<close>

datatype error =
    OverflowError
  | TypeError
  | AttributeError
  | KeyError
  | IndexError
  | ValueError
  | OutOfContract
  | CollaboratorError string

subsection \<open>Strings\<close>

text \<open>\<^verbatim>\<open>sep.join(xs)\<close>\<close>

fun join :: "string \<Rightarrow> string list \<Rightarrow> string" where
  "join sep [] = []"
| "join sep [x] = x"
| "join sep (x # y # ys) = x @ sep @ join sep (y # ys)"

text \<open>The two characters of the Python literal \<^verbatim>\<open>"\\n"\<close>: a backslash and the letter n.\<close>

definition BACKSLASH_N :: string where
  "BACKSLASH_N = [CHR 0x5C, CHR ''n'']"

text \<open>The two characters of the Python literal \<^verbatim>\<open>"\r\n"\<close>: carriage return, line feed.\<close>

definition CRLF :: string where
  "CRLF = [CHR 0x0D, CHR 0x0A]"

text \<open>Decimal digits of a natural number, as \<^verbatim>\<open>str(n)\<close> prints them.\<close>

definition digit_char :: "nat \<Rightarrow> char" where
  "digit_char d = char_of (48 + d)"

fun show_nat :: "nat \<Rightarrow> string" where
  "show_nat n = (if n < 10 then [digit_char n] else show_nat (n div 10) @ [digit_char (n mod 10)])"

declare show_nat.simps [simp del]

text \<open>\<^verbatim>\<open>'%0wd' % n\<close> for a non-negative \<open>n\<close>: left-padded with zeros to width \<open>w\<close>.\<close>

definition zero_pad :: "nat \<Rightarrow> int \<Rightarrow> string" where
  "zero_pad w n = (let s = show_nat (nat n) in replicate (w - length s) CHR ''0'' @ s)"

subsection \<open>datetime and timedelta\<close>

datatype tzinfo = UTC

record datetime =
  year :: int
  month :: int
  day :: int
  hour :: int
  minute :: int
  second :: int
  microsecond :: int
  tzinfo :: "tzinfo option"

record timedelta =
  td_days :: int
  td_seconds :: int
  td_microseconds :: int

definition MAXORDINAL :: int where
  "MAXORDINAL = 3652059"

definition DAYS_IN_MONTH :: "int list" where
  "DAYS_IN_MONTH = [-1, 31, 28, 31, 30, 31, 30, 31, 31, 30, 31, 30, 31]"

definition DAYS_BEFORE_MONTH :: "int list" where
  "DAYS_BEFORE_MONTH = [-1, 0, 31, 59, 90, 120, 151, 181, 212, 243, 273, 304, 334]"

definition is_leap :: "int \<Rightarrow> bool" where
  "is_leap y = (y mod 4 = 0 \<and> (y mod 100 \<noteq> 0 \<or> y mod 400 = 0))"

definition days_before_year :: "int \<Rightarrow> int" where
  "days_before_year y = (let y1 = y - 1 in y1 * 365 + y1 div 4 - y1 div 100 + y1 div 400)"

definition days_in_month :: "int \<Rightarrow> int \<Rightarrow> int" where
  "days_in_month y m = (if m = 2 \<and> is_leap y then 29 else DAYS_IN_MONTH ! nat m)"

definition days_before_month :: "int \<Rightarrow> int \<Rightarrow> int" where
  "days_before_month y m = DAYS_BEFORE_MONTH ! nat m + (if m > 2 \<and> is_leap y then 1 else 0)"

definition ymd2ord :: "int \<Rightarrow> int \<Rightarrow> int \<Rightarrow> int" where
  "ymd2ord y m d = days_before_year y + days_before_month y m + d"

definition DI400Y :: int where "DI400Y = 146097"
definition DI100Y :: int where "DI100Y = 36524"
definition DI4Y :: int where "DI4Y = 1461"

text \<open>\<^verbatim>\<open>_ord2ymd(n)\<close>: ordinal to (year, month, day), 1-Jan-0001 being day 1.\<close>

definition ord2ymd :: "int \<Rightarrow> int \<times> int \<times> int" where
  "ord2ymd n0 =
    (let n = n0 - 1;
         n400 = n div DI400Y; n = n mod DI400Y;
         y = n400 * 400 + 1;
         n100 = n div DI100Y; n = n mod DI100Y;
         n4 = n div DI4Y; n = n mod DI4Y;
         n1 = n div 365; n = n mod 365;
         y = y + n100 * 100 + n4 * 4 + n1
     in if n1 = 4 \<or> n100 = 4 then (y - 1, 12, 31)
        else
          let leapyear = (n1 = 3 \<and> (n4 \<noteq> 24 \<or> n100 = 3));
              m = (n + 50) div 32;
              preceding = DAYS_BEFORE_MONTH ! nat m + (if m > 2 \<and> leapyear then 1 else 0);
              (m, preceding) =
                (if preceding > n
                 then (m - 1, preceding - (DAYS_IN_MONTH ! nat (m - 1) + (if m - 1 = 2 \<and> leapyear then 1 else 0)))
                 else (m, preceding))
          in (y, m, n - preceding + 1))"

text \<open>A well-formed \<^verbatim>\<open>datetime\<close> object: what the constructor accepts.\<close>

definition valid_datetime :: "datetime \<Rightarrow> bool" where
  "valid_datetime dt =
    (1 \<le> year dt \<and> year dt \<le> 9999 \<and> 1 \<le> month dt \<and> month dt \<le> 12 \<and>
     1 \<le> day dt \<and> day dt \<le> days_in_month (year dt) (month dt) \<and>
     0 \<le> hour dt \<and> hour dt < 24 \<and> 0 \<le> minute dt \<and> minute dt < 60 \<and>
     0 \<le> second dt \<and> second dt < 60 \<and> 0 \<le> microsecond dt \<and> microsecond dt < 1000000)"

definition toordinal :: "datetime \<Rightarrow> int" where
  "toordinal dt = ymd2ord (year dt) (month dt) (day dt)"

text \<open>
  The \<^verbatim>\<open>timedelta\<close> constructor on integer arguments: microseconds carry into seconds,
  seconds into days, and a day count beyond 999999999 in magnitude raises OverflowError.
\<close>

definition timedelta_new :: "int \<Rightarrow> int \<Rightarrow> int \<Rightarrow> error + timedelta" where
  "timedelta_new d s us =
    (let s1 = s + us div 1000000; us1 = us mod 1000000;
         d1 = d + s1 div 86400; s2 = s1 mod 86400
     in if \<bar>d1\<bar> > 999999999 then Inl OverflowError
        else Inr \<lparr>td_days = d1, td_seconds = s2, td_microseconds = us1\<rparr>)"

text \<open>\<^verbatim>\<open>timedelta(minutes=n)\<close>\<close>

definition timedelta_minutes :: "int \<Rightarrow> error + timedelta" where
  "timedelta_minutes n = timedelta_new 0 (n * 60) 0"

definition timedelta_neg :: "timedelta \<Rightarrow> error + timedelta" where
  "timedelta_neg t = timedelta_new (- td_days t) (- td_seconds t) (- td_microseconds t)"

definition timedelta_add :: "timedelta \<Rightarrow> timedelta \<Rightarrow> error + timedelta" where
  "timedelta_add a b =
     timedelta_new (td_days a + td_days b) (td_seconds a + td_seconds b)
       (td_microseconds a + td_microseconds b)"

text \<open>\<^verbatim>\<open>datetime.__add__\<close>: the date as an ordinal and the time of day make a timedelta,
  the argument is added, and the sum is read back as a date and a time of day.\<close>

definition datetime_add :: "datetime \<Rightarrow> timedelta \<Rightarrow> error + datetime" where
  "datetime_add dt other =
    (case timedelta_new (toordinal dt) (hour dt * 3600 + minute dt * 60 + second dt) (microsecond dt) of
       Inl e \<Rightarrow> Inl e
     | Inr delta0 \<Rightarrow>
        (case timedelta_add delta0 other of
           Inl e \<Rightarrow> Inl e
         | Inr delta \<Rightarrow>
            (let h = td_seconds delta div 3600; rem = td_seconds delta mod 3600;
                 mi = rem div 60; s = rem mod 60
             in if 0 < td_days delta \<and> td_days delta \<le> MAXORDINAL
                then (case ord2ymd (td_days delta) of
                        (y, m, d) \<Rightarrow>
                          Inr \<lparr>year = y, month = m, day = d, hour = h, minute = mi, second = s,
                               microsecond = td_microseconds delta, tzinfo = tzinfo dt\<rparr>)
                else Inl OverflowError)))"

text \<open>\<^verbatim>\<open>datetime.__sub__\<close> with a timedelta: \<^verbatim>\<open>self + -other\<close>.\<close>

definition datetime_sub :: "datetime \<Rightarrow> timedelta \<Rightarrow> error + datetime" where
  "datetime_sub dt other =
    (case timedelta_neg other of Inl e \<Rightarrow> Inl e | Inr n \<Rightarrow> datetime_add dt n)"

text \<open>
  The position of a datetime on the time line, in microseconds, computed from the ordinal
  of its date and its time of day, the two quantities \<^verbatim>\<open>datetime.__add__\<close> and
  \<^verbatim>\<open>datetime.__sub__\<close> work with; and the length of a timedelta in microseconds.
\<close>

definition total_microseconds :: "datetime \<Rightarrow> int" where
  "total_microseconds dt =
     (toordinal dt * 86400 + (hour dt * 3600 + minute dt * 60 + second dt)) * 1000000 + microsecond dt"

definition timedelta_total :: "timedelta \<Rightarrow> int" where
  "timedelta_total t = (td_days t * 86400 + td_seconds t) * 1000000 + td_microseconds t"

text \<open>The positions a datetime can hold: from 0001-01-01T00:00:00 up to the last microsecond
  of 9999-12-31.\<close>

definition in_datetime_range :: "int \<Rightarrow> bool" where
  "in_datetime_range us = (86400000000 \<le> us \<and> us < (MAXORDINAL + 1) * 86400000000)"

text \<open>
  \<^verbatim>\<open>dt.strftime(fmt)\<close> for the directives app.py uses, as the C library under it
  prints them: \<^verbatim>\<open>%Y\<close> is the year in decimal without padding (999 for the year 999);
  the other directives are two digits, padded with a zero. Any other character, and an
  unknown directive, is copied.
\<close>

definition directive :: "char \<Rightarrow> datetime \<Rightarrow> string" where
  "directive c dt =
    (if c = CHR ''Y'' then show_nat (nat (year dt))
     else if c = CHR ''m'' then zero_pad 2 (month dt)
     else if c = CHR ''d'' then zero_pad 2 (day dt)
     else if c = CHR ''H'' then zero_pad 2 (hour dt)
     else if c = CHR ''M'' then zero_pad 2 (minute dt)
     else if c = CHR ''S'' then zero_pad 2 (second dt)
     else if c = CHR ''%'' then ''%''
     else [CHR ''%'', c])"

fun strftime :: "string \<Rightarrow> datetime \<Rightarrow> string" where
  "strftime [] dt = []"
| "strftime [c] dt = [c]"
| "strftime (c # d # fs) dt =
     (if c = CHR ''%'' then directive d dt @ strftime fs dt else c # strftime (d # fs) dt)"

subsection \<open>uuid\<close>

text \<open>
  \<^verbatim>\<open>uuid.uuid4()\<close> takes 16 random bytes as a 128-bit integer and stamps the variant and
  the version on it; \<^verbatim>\<open>str\<close> prints 32 lower-case hexadecimal digits in groups of
  8-4-4-4-12. The random bytes are an input of the model.
\<close>

definition uuid4 :: "128 word \<Rightarrow> 128 word" where
  "uuid4 r =
    (let i = and r (not (push_bit 48 0xc000));
         i = or i (push_bit 48 0x8000);
         i = and i (not (push_bit 64 0xf000));
         i = or i (push_bit 76 4)
     in i)"

definition hex_digit :: "nat \<Rightarrow> char" where
  "hex_digit d = ''0123456789abcdef'' ! d"

definition hex32 :: "128 word \<Rightarrow> string" where
  "hex32 w = map (\<lambda>i. hex_digit (unat (and (drop_bit (4 * (31 - i)) w) 0xF))) [0..<32]"

definition uuid_str :: "128 word \<Rightarrow> string" where
  "uuid_str w =
    (let h = hex32 w
     in take 8 h @ ''-'' @ take 4 (drop 8 h) @ ''-'' @ take 4 (drop 12 h) @ ''-'' @
        take 4 (drop 16 h) @ ''-'' @ drop 20 h)"

section \<open>ICS generator\<close>

definition TIMEZONE :: string where
  "TIMEZONE = ''Asia/Kolkata''"

text \<open>\<^verbatim>\<open>to_utc(dt_local, tz_offset_minutes=330)\<close>\<close>

definition to_utc :: "datetime \<Rightarrow> int \<Rightarrow> error + datetime" where
  "to_utc dt_local tz_offset_minutes =
    (case timedelta_minutes tz_offset_minutes of
       Inl e \<Rightarrow> Inl e
     | Inr offset \<Rightarrow>
        (case datetime_sub dt_local offset of
           Inl e \<Rightarrow> Inl e
         | Inr r \<Rightarrow> Inr (r\<lparr>tzinfo := Some UTC\<rparr>)))"

text \<open>The default value of the parameter \<^verbatim>\<open>tz_offset_minutes\<close>.\<close>

definition DEFAULT_TZ_OFFSET_MINUTES :: int where
  "DEFAULT_TZ_OFFSET_MINUTES = 330"

text \<open>
  What \<^verbatim>\<open>build_ics\<close> reads from outside its arguments: the clock
  (\<^verbatim>\<open>datetime.utcnow()\<close>) and the random bytes of \<^verbatim>\<open>uuid.uuid4()\<close>.
\<close>

record ics_env =
  utcnow :: datetime
  urandom :: "128 word"

text \<open>\<^verbatim>\<open>x or ""\<close> on an optional string: \<^verbatim>\<open>None\<close> and the empty string give the empty string.\<close>

definition or_empty :: "string option \<Rightarrow> string" where
  "or_empty x = (case x of None \<Rightarrow> [] | Some s \<Rightarrow> s)"

text \<open>\<^verbatim>\<open>uid = uid or str(uuid.uuid4())\<close>\<close>

definition resolve_uid :: "ics_env \<Rightarrow> string option \<Rightarrow> string" where
  "resolve_uid env uid =
    (case uid of
       None \<Rightarrow> uuid_str (uuid4 (urandom env))
     | Some u \<Rightarrow> if u = [] then uuid_str (uuid4 (urandom env)) else u)"

text \<open>The last description line: the timezone label and the local start time.\<close>

definition local_timezone_line :: "datetime \<Rightarrow> string" where
  "local_timezone_line dt_start_local =
     ''Local Timezone: '' @ TIMEZONE @ '' ('' @ strftime ''%Y-%m-%d %H:%M'' dt_start_local @ '')''"

text \<open>The list \<^verbatim>\<open>desc_lines\<close> of \<^verbatim>\<open>build_ics\<close>.\<close>

definition desc_lines :: "string option \<Rightarrow> string option \<Rightarrow> datetime \<Rightarrow> string list" where
  "desc_lines description meet_link dt_start_local =
    [or_empty description] @
    (case meet_link of
       None \<Rightarrow> []
     | Some l \<Rightarrow> if l = [] then [] else [''Google Meet: '' @ l]) @
    [local_timezone_line dt_start_local]"

definition attendee_lines :: "string list \<Rightarrow> string list" where
  "attendee_lines attendees =
     map (\<lambda>a. ''ATTENDEE;ROLE=REQ-PARTICIPANT;RSVP=TRUE:mailto:'' @ a) attendees"

text \<open>The list \<^verbatim>\<open>ics\<close> of \<^verbatim>\<open>build_ics\<close>: the records of the document, before they are joined.\<close>

definition ics_records ::
  "ics_env \<Rightarrow> string \<Rightarrow> string option \<Rightarrow> string option \<Rightarrow> string \<Rightarrow> string list \<Rightarrow>
   datetime \<Rightarrow> datetime \<Rightarrow> string option \<Rightarrow> string option \<Rightarrow> error + string list" where
  "ics_records env summary description location organizer_email attendees
     dt_start_local dt_end_local uid meet_link =
    (let uid1 = resolve_uid env uid;
         dtstamp_utc = strftime ''%Y%m%dT%H%M%SZ'' ((utcnow env)\<lparr>tzinfo := Some UTC\<rparr>)
     in case to_utc dt_start_local DEFAULT_TZ_OFFSET_MINUTES of
          Inl e \<Rightarrow> Inl e
        | Inr start_utc \<Rightarrow>
           (case to_utc dt_end_local DEFAULT_TZ_OFFSET_MINUTES of
              Inl e \<Rightarrow> Inl e
            | Inr end_utc \<Rightarrow>
               (let dtstart_utc = strftime ''%Y%m%dT%H%M%SZ'' start_utc;
                    dtend_utc = strftime ''%Y%m%dT%H%M%SZ'' end_utc;
                    desc = join BACKSLASH_N (desc_lines description meet_link dt_start_local)
                in Inr ([''BEGIN:VCALENDAR'',
                         ''VERSION:2.0'',
                         ''METHOD:REQUEST'',
                         ''BEGIN:VEVENT'',
                         ''UID:'' @ uid1,
                         ''DTSTAMP:'' @ dtstamp_utc,
                         ''DTSTART:'' @ dtstart_utc,
                         ''DTEND:'' @ dtend_utc,
                         ''SUMMARY:'' @ summary,
                         ''DESCRIPTION:'' @ desc,
                         ''LOCATION:'' @ or_empty location,
                         ''ORGANIZER:mailto:'' @ organizer_email] @
                        attendee_lines attendees @
                        [''END:VEVENT'',
                         ''END:VCALENDAR'']))))"

text \<open>\<^verbatim>\<open>build_ics\<close>: the records joined with carriage return and line feed.\<close>

definition build_ics ::
  "ics_env \<Rightarrow> string \<Rightarrow> string option \<Rightarrow> string option \<Rightarrow> string \<Rightarrow> string list \<Rightarrow>
   datetime \<Rightarrow> datetime \<Rightarrow> string option \<Rightarrow> string option \<Rightarrow> error + string" where
  "build_ics env summary description location organizer_email attendees
     dt_start_local dt_end_local uid meet_link =
    (case ics_records env summary description location organizer_email attendees
            dt_start_local dt_end_local uid meet_link of
       Inl e \<Rightarrow> Inl e
     | Inr ics \<Rightarrow> Inr (join CRLF ics))"

section \<open>Values exchanged with the collaborators\<close>

text \<open>
  A decoded JSON value, as the API client returns it: \<^verbatim>\<open>None\<close>, a bool, a number, a
  string, a list or a dict. A dict is kept as its items in order; a key is looked up with
  \<open>map_of\<close>. Of a number only whether it is zero matters here.
\<close>

datatype json =
    JNull
  | JBool bool
  | JNum int
  | JStr string
  | JArr "json list"
  | JObj "(string \<times> json) list"

text \<open>\<^verbatim>\<open>x.get(key, default)\<close>: only a dict has the method.\<close>

definition py_get :: "json \<Rightarrow> string \<Rightarrow> json \<Rightarrow> error + json" where
  "py_get x k dflt =
    (case x of
       JObj kvs \<Rightarrow> Inr (case map_of kvs k of None \<Rightarrow> dflt | Some v \<Rightarrow> v)
     | _ \<Rightarrow> Inl AttributeError)"

text \<open>The items \<^verbatim>\<open>for ep in x\<close> visits: the elements of a list, the characters of a
  string, the keys of a dict; anything else is not iterable.\<close>

definition py_iter :: "json \<Rightarrow> error + json list" where
  "py_iter x =
    (case x of
       JArr xs \<Rightarrow> Inr xs
     | JStr cs \<Rightarrow> Inr (map (\<lambda>c. JStr [c]) cs)
     | JObj kvs \<Rightarrow> Inr (map (\<lambda>kv. JStr (fst kv)) kvs)
     | _ \<Rightarrow> Inl TypeError)"

text \<open>Truth value of a Python object.\<close>

definition truthy :: "json \<Rightarrow> bool" where
  "truthy x =
    (case x of
       JNull \<Rightarrow> False
     | JBool b \<Rightarrow> b
     | JNum n \<Rightarrow> n \<noteq> 0
     | JStr cs \<Rightarrow> cs \<noteq> []
     | JArr xs \<Rightarrow> xs \<noteq> []
     | JObj kvs \<Rightarrow> kvs \<noteq> [])"

text \<open>\<^verbatim>\<open>x[0]\<close>\<close>

definition py_index0 :: "json \<Rightarrow> error + json" where
  "py_index0 x =
    (case x of
       JArr xs \<Rightarrow> (case xs of [] \<Rightarrow> Inl IndexError | y # _ \<Rightarrow> Inr y)
     | JStr cs \<Rightarrow> (case cs of [] \<Rightarrow> Inl IndexError | c # _ \<Rightarrow> Inr (JStr [c]))
     | JObj kvs \<Rightarrow> Inl KeyError
     | _ \<Rightarrow> Inl TypeError)"

section \<open>Calendar event creator\<close>

text \<open>
  The loop over the entry points. \<open>Inr None\<close>: the loop ended without a break;
  \<open>Inr (Some u)\<close>: \<^verbatim>\<open>meet_link = u\<close> was assigned and the loop left;
  \<open>Inl e\<close>: an exception before any assignment.
\<close>

fun find_video :: "json list \<Rightarrow> error + json option" where
  "find_video [] = Inr None"
| "find_video (ep # eps) =
    (case py_get ep ''entryPointType'' JNull of
       Inl e \<Rightarrow> Inl e
     | Inr t \<Rightarrow>
        if t = JStr ''video''
        then (case py_get ep ''uri'' (JStr []) of Inl e \<Rightarrow> Inl e | Inr u \<Rightarrow> Inr (Some u))
        else find_video eps)"

text \<open>
  The body of the \<^verbatim>\<open>try\<close> block of \<^verbatim>\<open>schedule_meeting\<close>. \<open>Inr l\<close>: the block ended
  with \<^verbatim>\<open>meet_link = l\<close>; \<open>Inl (e, l)\<close>: exception \<open>e\<close> was raised while \<^verbatim>\<open>meet_link\<close>
  held \<open>l\<close>.
\<close>

definition extract_body :: "(string \<times> json) list \<Rightarrow> (error \<times> json) + json" where
  "extract_body created =
    (let meet_link = JStr [] in
     case py_get (JObj created) ''conferenceData'' (JObj []) of
       Inl e \<Rightarrow> Inl (e, meet_link)
     | Inr cd \<Rightarrow>
     (case py_get cd ''entryPoints'' (JArr []) of
       Inl e \<Rightarrow> Inl (e, meet_link)
     | Inr entry_points \<Rightarrow>
     (case py_iter entry_points of
       Inl e \<Rightarrow> Inl (e, meet_link)
     | Inr eps \<Rightarrow>
     (case find_video eps of
       Inl e \<Rightarrow> Inl (e, meet_link)
     | Inr found \<Rightarrow>
       (let meet_link = (case found of None \<Rightarrow> meet_link | Some u \<Rightarrow> u) in
        if \<not> truthy meet_link \<and> truthy entry_points
        then (case py_index0 entry_points of
                Inl e \<Rightarrow> Inl (e, meet_link)
              | Inr ep0 \<Rightarrow>
                 (case py_get ep0 ''uri'' (JStr []) of
                    Inl e \<Rightarrow> Inl (e, meet_link)
                  | Inr u \<Rightarrow> Inr u))
        else Inr meet_link)))))"

text \<open>\<^verbatim>\<open>try: ... except Exception: pass\<close>: the value of \<^verbatim>\<open>meet_link\<close> afterwards.\<close>

definition extract_meet_link :: "(string \<times> json) list \<Rightarrow> json" where
  "extract_meet_link created =
    (case extract_body created of Inl (e, l) \<Rightarrow> l | Inr l \<Rightarrow> l)"

text \<open>
  The selection as the specification words it, on entry points that are dicts: the uri of
  the first entry point of type "video"; else the uri of the first entry point; else the
  empty string. A dict without the key \<^verbatim>\<open>uri\<close> has the empty uri.
\<close>

definition is_video :: "(string \<times> json) list \<Rightarrow> bool" where
  "is_video ep = (map_of ep ''entryPointType'' = Some (JStr ''video''))"

definition entry_uri :: "(string \<times> json) list \<Rightarrow> json" where
  "entry_uri ep = (case map_of ep ''uri'' of None \<Rightarrow> JStr [] | Some u \<Rightarrow> u)"

definition first_entry_uri :: "(string \<times> json) list list \<Rightarrow> json" where
  "first_entry_uri entries = (case entries of [] \<Rightarrow> JStr [] | e0 # _ \<Rightarrow> entry_uri e0)"

definition select_entry_point_spec :: "(string \<times> json) list list \<Rightarrow> json" where
  "select_entry_point_spec entries =
    (case filter is_video entries of
       v # _ \<Rightarrow> entry_uri v
     | [] \<Rightarrow> first_entry_uri entries)"

text \<open>A calendar answer whose conference data has the telephone entry first and a video
  entry with an empty uri second.\<close>

definition ex_created :: "(string \<times> json) list" where
  "ex_created =
    [(''id'', JStr ''evt1''),
     (''conferenceData'',
        JObj [(''entryPoints'',
          JArr [JObj [(''entryPointType'', JStr ''phone''), (''uri'', JStr ''tel:+1-555-0100'')],
                JObj [(''entryPointType'', JStr ''video''), (''uri'', JStr [])]])])]"

text \<open>\<^verbatim>\<open>dt.isoformat()\<close>: the library formats the fields itself, the year in four
  digits.\<close>

definition isoformat :: "datetime \<Rightarrow> string" where
  "isoformat dt =
     zero_pad 4 (year dt) @ ''-'' @ zero_pad 2 (month dt) @ ''-'' @ zero_pad 2 (day dt) @ ''T'' @
     zero_pad 2 (hour dt) @ '':'' @ zero_pad 2 (minute dt) @ '':'' @ zero_pad 2 (second dt) @
     (if microsecond dt \<noteq> 0 then ''.'' @ zero_pad 6 (microsecond dt) else []) @
     (case tzinfo dt of None \<Rightarrow> [] | Some UTC \<Rightarrow> ''+00:00'')"

text \<open>The dict \<^verbatim>\<open>event\<close> sent to the calendar, with the recurrence entry added last
  when \<^verbatim>\<open>recurrence\<close> is true (neither \<^verbatim>\<open>None\<close> nor empty).\<close>

definition event_body ::
  "128 word \<Rightarrow> string list \<Rightarrow> string \<Rightarrow> string option \<Rightarrow> string option \<Rightarrow> string option \<Rightarrow>
   datetime \<Rightarrow> datetime \<Rightarrow> (string \<times> json) list" where
  "event_body rnd attendees summary description location recurrence start_dt_local end_dt_local =
    [(''summary'', JStr summary),
     (''description'', JStr (or_empty description)),
     (''location'', JStr (or_empty location)),
     (''start'', JObj [(''dateTime'', JStr (isoformat start_dt_local)), (''timeZone'', JStr TIMEZONE)]),
     (''end'', JObj [(''dateTime'', JStr (isoformat end_dt_local)), (''timeZone'', JStr TIMEZONE)]),
     (''attendees'', JArr (map (\<lambda>e. JObj [(''email'', JStr e)]) attendees)),
     (''conferenceData'',
        JObj [(''createRequest'',
          JObj [(''requestId'', JStr (uuid_str (uuid4 rnd))),
                (''conferenceSolutionKey'', JObj [(''type'', JStr ''hangoutsMeet'')])])]),
     (''reminders'',
        JObj [(''useDefault'', JBool False),
              (''overrides'',
                 JArr [JObj [(''method'', JStr ''email''), (''minutes'', JNum 30)],
                       JObj [(''method'', JStr ''popup''), (''minutes'', JNum 10)]])])] @
    (case recurrence of
       None \<Rightarrow> []
     | Some r \<Rightarrow> if r = [] then [] else [(''recurrence'', JArr [JStr r])])"

text \<open>
  What the program reads from outside: the credential flow of \<^verbatim>\<open>get_google_service\<close>
  (an error or none, by API name), the library parser \<^verbatim>\<open>datetime.strptime\<close> with the
  format \<^verbatim>\<open>"%Y-%m-%d %H:%M"\<close>, the calendar's answer to \<^verbatim>\<open>events().insert\<close>, the
  Gmail profile, whether the k-th call of \<^verbatim>\<open>messages().send\<close> fails, the clock and
  the random bytes of the three \<^verbatim>\<open>uuid4()\<close> calls.
\<close>

record world =
  service_error :: "string \<Rightarrow> error option"
  strptime :: "string \<Rightarrow> error + datetime"
  calendar_insert :: "(string \<times> json) list \<Rightarrow> error + (string \<times> json) list"
  gmail_profile :: "error + (string \<times> json) list"
  send_error :: "nat \<Rightarrow> error option"
  clock :: datetime
  request_random :: "128 word"
  id_random :: "128 word"
  uid_random :: "128 word"

text \<open>\<^verbatim>\<open>schedule_meeting\<close>. The default of \<^verbatim>\<open>created.get("id", str(uuid.uuid4()))\<close> is
  evaluated before the lookup, as Python evaluates arguments.\<close>

definition schedule_meeting ::
  "world \<Rightarrow> string \<Rightarrow> string \<Rightarrow> int \<Rightarrow> string list \<Rightarrow> string \<Rightarrow> string option \<Rightarrow>
   string option \<Rightarrow> string option \<Rightarrow> error + (json \<times> json \<times> datetime \<times> datetime)" where
  "schedule_meeting w date time_str duration_min attendees summary description location recurrence =
    (case service_error w ''calendar'' of
       Some e \<Rightarrow> Inl e
     | None \<Rightarrow>
     (case strptime w (date @ '' '' @ time_str) of
       Inl e \<Rightarrow> Inl e
     | Inr start_dt_local \<Rightarrow>
     (case timedelta_minutes duration_min of
       Inl e \<Rightarrow> Inl e
     | Inr d \<Rightarrow>
     (case datetime_add start_dt_local d of
       Inl e \<Rightarrow> Inl e
     | Inr end_dt_local \<Rightarrow>
     (case calendar_insert w
             (event_body (request_random w) attendees summary description location recurrence
                start_dt_local end_dt_local) of
       Inl e \<Rightarrow> Inl e
     | Inr created \<Rightarrow>
        (let meet_link = extract_meet_link created;
             dflt = JStr (uuid_str (uuid4 (id_random w)))
         in case py_get (JObj created) ''id'' dflt of
              Inl e \<Rightarrow> Inl e
            | Inr event_id \<Rightarrow> Inr (meet_link, event_id, start_dt_local, end_dt_local)))))))"

section \<open>Gmail sender\<close>

text \<open>The interpolated fields of the HTML template, in place of its text.\<close>

record html_body =
  html_topic :: string
  html_date :: datetime
  html_time :: datetime
  html_duration :: int
  html_meet_link :: json

text \<open>The message handed to \<^verbatim>\<open>messages().send\<close>: recipient, subject, HTML part and
  the calendar attachment.\<close>

record message =
  msg_to :: string
  msg_subject :: string
  msg_html :: html_body
  msg_ics :: string

text \<open>What the user sees, and what has left through the mail collaborator.\<close>

datatype ui_message =
    NoAttendeesUploaded
  | MeetingScheduled json
  | CustomEmailSentTo string

record state =
  ui :: "ui_message list"
  attempted :: "message list"
  sent :: "message list"

text \<open>
  \<^verbatim>\<open>send_custom_email_with_ics\<close>: on an exception the state reached is returned with it.
  The k-th call of \<^verbatim>\<open>send\<close> (counting from 0) fails when the world says so.
\<close>

definition send_custom_email_with_ics ::
  "world \<Rightarrow> string \<Rightarrow> string \<Rightarrow> html_body \<Rightarrow> string \<Rightarrow> state \<Rightarrow> (error \<times> state) + state" where
  "send_custom_email_with_ics w to_email subject html ics_text st =
    (case service_error w ''gmail'' of
       Some e \<Rightarrow> Inl (e, st)
     | None \<Rightarrow>
        (let msg = \<lparr>msg_to = to_email, msg_subject = subject, msg_html = html, msg_ics = ics_text\<rparr>;
             st1 = st\<lparr>attempted := attempted st @ [msg]\<rparr>
         in case send_error w (length (attempted st)) of
              Some e \<Rightarrow> Inl (e, st1)
            | None \<Rightarrow> Inr (st1\<lparr>sent := sent st1 @ [msg]\<rparr>)))"

text \<open>The loop \<^verbatim>\<open>for email in attendees\<close>: send, then report.\<close>

fun email_loop ::
  "world \<Rightarrow> string list \<Rightarrow> string \<Rightarrow> html_body \<Rightarrow> string \<Rightarrow> state \<Rightarrow> (error \<times> state) + state" where
  "email_loop w [] subject html ics_text st = Inr st"
| "email_loop w (email # rest) subject html ics_text st =
    (case send_custom_email_with_ics w email subject html ics_text st of
       Inl x \<Rightarrow> Inl x
     | Inr st1 \<Rightarrow>
        email_loop w rest subject html ics_text (st1\<lparr>ui := ui st1 @ [CustomEmailSentTo email]\<rparr>))"

text \<open>
  For stating what the loop does: the messages it builds, one per attendee in order, and
  the exception, if any, that the call for the attendee at position \<open>k\<close> raises when the
  loop starts in state \<open>st\<close> (the credential flow failing, or the \<open>k\<close>-th further send).
\<close>

definition invite_messages :: "string list \<Rightarrow> string \<Rightarrow> html_body \<Rightarrow> string \<Rightarrow> message list" where
  "invite_messages atts subject html ics_text =
     map (\<lambda>a. \<lparr>msg_to = a, msg_subject = subject, msg_html = html, msg_ics = ics_text\<rparr>) atts"

definition send_failure :: "world \<Rightarrow> state \<Rightarrow> nat \<Rightarrow> error option" where
  "send_failure w st k =
    (case service_error w ''gmail'' of
       Some e \<Rightarrow> Some e
     | None \<Rightarrow> send_error w (length (attempted st) + k))"

text \<open>\<^verbatim>\<open>get_sender_email\<close>\<close>

definition get_sender_email :: "world \<Rightarrow> error + json" where
  "get_sender_email w =
    (case service_error w ''gmail'' of
       Some e \<Rightarrow> Inl e
     | None \<Rightarrow>
        (case gmail_profile w of
           Inl e \<Rightarrow> Inl e
         | Inr profile \<Rightarrow> py_get (JObj profile) ''emailAddress'' (JStr ''me'')))"

section \<open>The form handler\<close>

text \<open>The chain of comparisons that sets \<^verbatim>\<open>recur_rule\<close>.\<close>

definition recur_rule_of :: "string \<Rightarrow> string option" where
  "recur_rule_of recurrence =
    (if recurrence = ''Daily'' then Some ''RRULE:FREQ=DAILY;COUNT=5''
     else if recurrence = ''Weekly'' then Some ''RRULE:FREQ=WEEKLY;COUNT=5''
     else if recurrence = ''Monthly'' then Some ''RRULE:FREQ=MONTHLY;COUNT=5''
     else None)"

text \<open>
  How Python binds the arguments of a call to the parameters of a \<^verbatim>\<open>def\<close>: positional
  arguments fill the parameters from the left, keyword arguments by name, defaults fill
  what is left, and a parameter without value, a surplus argument, an unknown keyword or
  a parameter given twice raises TypeError.
\<close>

fun fill_defaults :: "(string \<times> 'a option) list \<Rightarrow> (string \<times> 'a) list \<Rightarrow> error + (string \<times> 'a) list" where
  "fill_defaults [] kws = Inr []"
| "fill_defaults ((p, dflt) # ps) kws =
    (case (case map_of kws p of Some v \<Rightarrow> Some v | None \<Rightarrow> dflt) of
       None \<Rightarrow> Inl TypeError
     | Some v \<Rightarrow>
        (case fill_defaults ps kws of Inl e \<Rightarrow> Inl e | Inr bs \<Rightarrow> Inr ((p, v) # bs)))"

definition bind_arguments ::
  "(string \<times> 'a option) list \<Rightarrow> 'a list \<Rightarrow> (string \<times> 'a) list \<Rightarrow> error + (string \<times> 'a) list" where
  "bind_arguments params positional keywords =
    (let n = length positional; names = map fst params
     in if n > length params then Inl TypeError
        else if \<not> distinct (map fst keywords) then Inl TypeError
        else if \<exists>k \<in> set (map fst keywords). k \<notin> set names \<or> k \<in> set (take n names)
        then Inl TypeError
        else (case fill_defaults (drop n params) keywords of
                Inl e \<Rightarrow> Inl e
              | Inr bs \<Rightarrow> Inr (zip (take n names) positional @ bs)))"

text \<open>A value passed at a call site of \<^verbatim>\<open>build_ics\<close>.\<close>

datatype pyval =
    PNone
  | PStr string
  | PStrList "string list"
  | PDatetime datetime
  | PJson json

definition pyval_of_json :: "json \<Rightarrow> pyval" where
  "pyval_of_json j = (case j of JNull \<Rightarrow> PNone | JStr s \<Rightarrow> PStr s | _ \<Rightarrow> PJson j)"

text \<open>The parameter list of \<^verbatim>\<open>build_ics\<close>, with the defaults of the last two.\<close>

definition build_ics_params :: "(string \<times> pyval option) list" where
  "build_ics_params =
    [(''summary'', None), (''description'', None), (''location'', None),
     (''organizer_email'', None), (''attendees'', None), (''dt_start_local'', None),
     (''dt_end_local'', None), (''uid'', Some PNone), (''meet_link'', Some PNone)]"

definition opt_str :: "pyval \<Rightarrow> string option option" where
  "opt_str v = (case v of PNone \<Rightarrow> Some None | PStr s \<Rightarrow> Some (Some s) | _ \<Rightarrow> None)"

text \<open>
  A call of \<^verbatim>\<open>build_ics\<close> with the given arguments. When the binding succeeds the body
  runs on arguments of the types of the serializer's contract; arguments of other types
  are outside this model (\<open>OutOfContract\<close>).
\<close>

definition call_build_ics :: "ics_env \<Rightarrow> pyval list \<Rightarrow> (string \<times> pyval) list \<Rightarrow> error + string" where
  "call_build_ics env positional keywords =
    (case bind_arguments build_ics_params positional keywords of
       Inl e \<Rightarrow> Inl e
     | Inr bound \<Rightarrow>
        (case map snd bound of
           [PStr summary, description, location, PStr organizer_email, PStrList attendees,
            PDatetime dt_start_local, PDatetime dt_end_local, uid, meet_link] \<Rightarrow>
             (case (opt_str description, opt_str location, opt_str uid, opt_str meet_link) of
                (Some d, Some l, Some u, Some m) \<Rightarrow>
                  build_ics env summary d l organizer_email attendees dt_start_local dt_end_local u m
              | _ \<Rightarrow> Inl OutOfContract)
         | _ \<Rightarrow> Inl OutOfContract))"

text \<open>The values of the form at submission. The date and the time widgets give a date
  and a time of day; each is kept in a \<open>datetime\<close> of which only those fields are read.\<close>

record form =
  attendees :: "string list"
  meeting_date :: datetime
  meeting_time :: datetime
  duration :: int
  topic :: string
  recurrence :: string
  send_custom :: bool

text \<open>The block under \<^verbatim>\<open>if submitted:\<close>.\<close>

definition on_submit :: "world \<Rightarrow> form \<Rightarrow> state \<Rightarrow> (error \<times> state) + state" where
  "on_submit w f st =
    (if attendees f = [] then Inr (st\<lparr>ui := ui st @ [NoAttendeesUploaded]\<rparr>)
     else
       let recur_rule = recur_rule_of (recurrence f)
       in case schedule_meeting w
                 (strftime ''%Y-%m-%d'' (meeting_date f))
                 (strftime ''%H:%M'' (meeting_time f))
                 (duration f) (attendees f) (topic f) None None recur_rule of
            Inl e \<Rightarrow> Inl (e, st)
          | Inr (meet_link, event_id, start_dt, end_dt) \<Rightarrow>
             (let st1 = st\<lparr>ui := ui st @ [MeetingScheduled meet_link]\<rparr>
              in if send_custom f
                 then (case get_sender_email w of
                         Inl e \<Rightarrow> Inl (e, st1)
                       | Inr organizer_email \<Rightarrow>
                          (case call_build_ics \<lparr>utcnow = clock w, urandom = uid_random w\<rparr>
                                  [PStr (topic f), pyval_of_json organizer_email,
                                   PStrList (attendees f), PDatetime start_dt, PDatetime end_dt]
                                  [(''uid'', pyval_of_json event_id),
                                   (''meet_link'', pyval_of_json meet_link)] of
                             Inl e \<Rightarrow> Inl (e, st1)
                           | Inr ics_text \<Rightarrow>
                              email_loop w (attendees f) (''Meeting Invite: '' @ topic f)
                                \<lparr>html_topic = topic f, html_date = meeting_date f,
                                 html_time = meeting_time f, html_duration = duration f,
                                 html_meet_link = meet_link\<rparr>
                                ics_text st1))
                 else Inr st1))"

section \<open>The example of the specification\<close>

text \<open>Start 2024-01-10T09:00 and end 2024-01-10T09:30, local time; a clock and random
  bytes for the environment.\<close>

definition ex_start :: datetime where
  "ex_start = \<lparr>year = 2024, month = 1, day = 10, hour = 9, minute = 0, second = 0,
                microsecond = 0, tzinfo = None\<rparr>"

definition ex_end :: datetime where
  "ex_end = \<lparr>year = 2024, month = 1, day = 10, hour = 9, minute = 30, second = 0,
              microsecond = 0, tzinfo = None\<rparr>"

definition ex_env :: ics_env where
  "ex_env = \<lparr>utcnow = \<lparr>year = 2024, month = 1, day = 9, hour = 18, minute = 15, second = 42,
                          microsecond = 123456, tzinfo = None\<rparr>,
             urandom = 0\<rparr>"

text \<open>A calendar answer with one video entry point, a world in which every collaborator
  succeeds, and a submitted form with two attendees.\<close>

definition ex_created_ok :: "(string \<times> json) list" where
  "ex_created_ok =
    [(''id'', JStr ''evt1''),
     (''conferenceData'',
        JObj [(''entryPoints'',
          JArr [JObj [(''entryPointType'', JStr ''video''),
                      (''uri'', JStr ''https://meet.example/a-b-c'')]])])]"

definition ex_world :: world where
  "ex_world =
    \<lparr>service_error = (\<lambda>api. None),
     strptime = (\<lambda>text. Inr ex_start),
     calendar_insert = (\<lambda>body. Inr ex_created_ok),
     gmail_profile = Inr [(''emailAddress'', JStr ''a@x.com'')],
     send_error = (\<lambda>k. None),
     clock = utcnow ex_env,
     request_random = 0,
     id_random = 0,
     uid_random = 0\<rparr>"

definition ex_form :: form where
  "ex_form =
    \<lparr>attendees = [''b@x.com'', ''c@x.com''],
     meeting_date = ex_start,
     meeting_time = ex_start,
     duration = 30,
     topic = ''Team Sync'',
     recurrence = ''None'',
     send_custom = True\<rparr>"

definition ex_html :: html_body where
  "ex_html =
    \<lparr>html_topic = ''Team Sync'', html_date = ex_start, html_time = ex_start, html_duration = 30,
     html_meet_link = JStr ''https://meet.example/a-b-c''\<rparr>"

definition ex_state :: state where
  "ex_state = \<lparr>ui = [], attempted = [], sent = []\<rparr>"

text \<open>A world like the example's, except that its calendar accepts an event only when the
  recurrence entry of the event is the expected one (\<open>None\<close>: no such entry).\<close>

definition ex_world_expecting :: "json option \<Rightarrow> world" where
  "ex_world_expecting r =
     ex_world\<lparr>calendar_insert :=
       (\<lambda>body. if map_of body ''recurrence'' = r then Inr ex_created_ok
               else Inl (CollaboratorError ''unexpected recurrence''))\<rparr>"

section \<open>The proleptic Gregorian calendar of the library\<close>

lemma dby_decomp:
  assumes "0 \<le> b" "b \<le> 3" "0 \<le> c" "c \<le> 24" "0 \<le> e" "e \<le> 3"
  shows "days_before_year (400 * a + 100 * b + 4 * c + e + 1) = 146097 * a + 36524 * b + 1461 * c + 365 * e"
proof -
  let ?y = "400 * a + 100 * b + 4 * c + e"
  have 1: "?y div 4 = 100 * a + 25 * b + c"
    by (rule int_div_pos_eq [where r = e]) (use assms in auto)
  have 2: "?y div 100 = 4 * a + b"
    by (rule int_div_pos_eq [where r = "4 * c + e"]) (use assms in auto)
  have 3: "?y div 400 = a"
    by (rule int_div_pos_eq [where r = "100 * b + 4 * c + e"]) (use assms in auto)
  show ?thesis by (simp add: days_before_year_def 1 2 3)
qed

lemma leap_decomp:
  assumes "0 \<le> b" "b \<le> 3" "0 \<le> c" "c \<le> 24" "0 \<le> e" "e \<le> 3"
  shows "is_leap (400 * a + 100 * b + 4 * c + e + 1) = (e = 3 \<and> (c \<noteq> 24 \<or> b = 3))"
proof -
  let ?y = "400 * a + 100 * b + 4 * c + e + 1"
  have 1: "?y mod 4 = (e + 1) mod 4"
  proof -
    have "?y = (e + 1) + (100 * a + 25 * b + c) * 4" by simp
    then show ?thesis by (metis mod_mult_self1)
  qed
  have 2: "?y mod 100 = (4 * c + e + 1) mod 100"
  proof -
    have "?y = (4 * c + e + 1) + (4 * a + b) * 100" by simp
    then show ?thesis by (metis mod_mult_self1)
  qed
  have 3: "?y mod 400 = (100 * b + 4 * c + e + 1) mod 400"
  proof -
    have "?y = (100 * b + 4 * c + e + 1) + a * 400" by simp
    then show ?thesis by (metis mod_mult_self1)
  qed
  have e: "e = 0 \<or> e = 1 \<or> e = 2 \<or> e = 3" using assms by auto
  have a1: "((e + 1) mod 4 = 0) = (e = 3)" using e by auto
  have a2: "((4 * c + e + 1) mod 100 = 0) = (c = 24 \<and> e = 3)"
  proof
    assume h: "(4 * c + e + 1) mod 100 = 0"
    have "4 * c + e + 1 \<le> 100" "0 < 4 * c + e + 1" using assms by auto
    with h have "4 * c + e + 1 = 100"
      by (metis mod_pos_pos_trivial less_le order.strict_iff_order less_irrefl)
    then show "c = 24 \<and> e = 3" using assms by arith
  next
    assume "c = 24 \<and> e = 3" then show "(4 * c + e + 1) mod 100 = 0" by simp
  qed
  have a3: "((100 * b + 4 * c + e + 1) mod 400 = 0) = (b = 3 \<and> c = 24 \<and> e = 3)"
  proof
    assume h: "(100 * b + 4 * c + e + 1) mod 400 = 0"
    have "100 * b + 4 * c + e + 1 \<le> 400" "0 < 100 * b + 4 * c + e + 1" using assms by auto
    with h have "100 * b + 4 * c + e + 1 = 400"
      by (metis mod_pos_pos_trivial less_le order.strict_iff_order less_irrefl)
    then show "b = 3 \<and> c = 24 \<and> e = 3" using assms by arith
  next
    assume "b = 3 \<and> c = 24 \<and> e = 3" then show "(100 * b + 4 * c + e + 1) mod 400 = 0" by simp
  qed
  show ?thesis unfolding is_leap_def 1 2 3 a1 a2 a3 by auto
qed

lemma month_part:
  fixes r :: int and lp :: bool
  assumes "0 \<le> r" "r < 365"
  defines "m \<equiv> (r + 50) div 32"
  defines "p \<equiv> DAYS_BEFORE_MONTH ! nat m + (if m > 2 \<and> lp then 1 else 0)"
  defines "M \<equiv> if p > r then m - 1 else m"
  defines "P \<equiv> if p > r then p - (DAYS_IN_MONTH ! nat (m - 1) + (if m - 1 = 2 \<and> lp then 1 else 0)) else p"
  shows "1 \<le> M \<and> M \<le> 12 \<and> P = DAYS_BEFORE_MONTH ! nat M + (if M > 2 \<and> lp then 1 else 0) \<and>
         P \<le> r \<and> r < P + (if M = 2 \<and> lp then 29 else DAYS_IN_MONTH ! nat M)"
proof -
  have b: "32 * m \<le> r + 50" "r + 50 < 32 * m + 32"
    unfolding m_def by arith+
  then have "m = 1 \<or> m = 2 \<or> m = 3 \<or> m = 4 \<or> m = 5 \<or> m = 6 \<or> m = 7 \<or> m = 8 \<or> m = 9 \<or> m = 10 \<or> m = 11 \<or> m = 12"
    using assms(1,2) by arith
  then show ?thesis
    using b assms(1,2) unfolding M_def P_def p_def DAYS_BEFORE_MONTH_def DAYS_IN_MONTH_def
    by (elim disjE) (cases lp; simp; arith)+
qed

lemma ord2ymd_props:
  assumes "1 \<le> n"
  shows "case ord2ymd n of (y, m, d) \<Rightarrow>
           ymd2ord y m d = n \<and> 1 \<le> y \<and> 1 \<le> m \<and> m \<le> 12 \<and> 1 \<le> d \<and> d \<le> days_in_month y m"
proof -
  define N where "N = n - 1"
  define a where "a = N div 146097"
  define r1 where "r1 = N mod 146097"
  define b where "b = r1 div 36524"
  define r2 where "r2 = r1 mod 36524"
  define c where "c = r2 div 1461"
  define r3 where "r3 = r2 mod 1461"
  define e where "e = r3 div 365"
  define r4 where "r4 = r3 mod 365"
  have N: "0 \<le> N" using assms by (simp add: N_def)
  have a0: "0 \<le> a" using N by (simp add: a_def pos_imp_zdiv_nonneg_iff)
  have r1b: "0 \<le> r1" "r1 < 146097" by (simp_all add: r1_def)
  have r2b: "0 \<le> r2" "r2 < 36524" by (simp_all add: r2_def)
  have r3b: "0 \<le> r3" "r3 < 1461" by (simp_all add: r3_def)
  have r4b: "0 \<le> r4" "r4 < 365" by (simp_all add: r4_def)
  have eqN: "N = 146097 * a + r1" by (simp add: a_def r1_def)
  have eq1: "r1 = 36524 * b + r2" by (simp add: b_def r2_def)
  have eq2: "r2 = 1461 * c + r3" by (simp add: c_def r3_def)
  have eq3: "r3 = 365 * e + r4" by (simp add: e_def r4_def)
  have bb: "0 \<le> b" "b \<le> 4" using r1b r2b eq1 by arith+
  have cb: "0 \<le> c" "c \<le> 24" using r2b r3b eq2 by arith+
  have eb: "0 \<le> e" "e \<le> 4" using r3b r4b eq3 by arith+
  have unf: "ord2ymd n =
    (if e = 4 \<or> b = 4 then (a * 400 + 1 + b * 100 + c * 4 + e - 1, 12, 31)
     else
       let leapyear = (e = 3 \<and> (c \<noteq> 24 \<or> b = 3));
           m = (r4 + 50) div 32;
           preceding = DAYS_BEFORE_MONTH ! nat m + (if m > 2 \<and> leapyear then 1 else 0);
           (m, preceding) =
             (if preceding > r4
              then (m - 1, preceding - (DAYS_IN_MONTH ! nat (m - 1) + (if m - 1 = 2 \<and> leapyear then 1 else 0)))
              else (m, preceding))
       in (a * 400 + 1 + b * 100 + c * 4 + e, m, r4 - preceding + 1))"
    unfolding ord2ymd_def DI400Y_def DI100Y_def DI4Y_def Let_def
      N_def [symmetric] a_def [symmetric] r1_def [symmetric] b_def [symmetric] r2_def [symmetric]
      c_def [symmetric] r3_def [symmetric] e_def [symmetric] r4_def [symmetric]
    by (rule refl)
  show ?thesis
  proof (cases "b = 4")
    case True
    then have "r1 = 146096" "r2 = 0" using r1b r2b eq1 by arith+
    then have z: "c = 0" "r3 = 0" "e = 0" "r4 = 0" by (simp_all add: c_def r3_def e_def r4_def)
    have n: "n = 146097 * a + 146097" using eqN \<open>r1 = 146096\<close> by (simp add: N_def)
    have d: "days_before_year (400 * a + 400) = 146097 * a + 145731"
      using dby_decomp [of 3 24 3 a] by (simp add: ac_simps)
    have l: "is_leap (400 * a + 400)" using leap_decomp [of 3 24 3 a] by (simp add: ac_simps)
    have v: "ord2ymd n = (400 * a + 400, 12, 31)" using True z by (simp add: unf)
    show ?thesis unfolding v using d l a0
      by (simp add: n ymd2ord_def days_before_month_def days_in_month_def
            DAYS_BEFORE_MONTH_def DAYS_IN_MONTH_def)
  next
    case b4: False
    then have b3: "b \<le> 3" using bb by simp
    show ?thesis
    proof (cases "e = 4")
      case True
      then have "r3 = 1460" "r4 = 0" using r3b r4b eq3 by arith+
      then have c23: "c \<le> 23" using r2b eq2 cb by arith
      have n: "n = 146097 * a + 36524 * b + 1461 * c + 1461"
        using eqN eq1 eq2 \<open>r3 = 1460\<close> by (simp add: N_def)
      have d: "days_before_year (400 * a + 100 * b + 4 * c + 4) = 146097 * a + 36524 * b + 1461 * c + 1095"
        using dby_decomp [of b c 3 a] bb b3 cb by (simp add: ac_simps)
      have l: "is_leap (400 * a + 100 * b + 4 * c + 4)"
        using leap_decomp [of b c 3 a] bb b3 cb c23 by (simp add: ac_simps)
      have v: "ord2ymd n = (400 * a + 100 * b + 4 * c + 4, 12, 31)" using True by (simp add: unf)
      show ?thesis unfolding v using d l a0 bb cb
        by (simp add: n ymd2ord_def days_before_month_def days_in_month_def
              DAYS_BEFORE_MONTH_def DAYS_IN_MONTH_def)
    next
      case e4: False
      then have e3: "e \<le> 3" using eb by simp
      define lp where "lp = (e = 3 \<and> (c \<noteq> 24 \<or> b = 3))"
      define Y where "Y = 400 * a + 100 * b + 4 * c + e + 1"
      have n: "n = 146097 * a + 36524 * b + 1461 * c + 365 * e + r4 + 1"
        using eqN eq1 eq2 eq3 by (simp add: N_def)
      have d: "days_before_year Y = 146097 * a + 36524 * b + 1461 * c + 365 * e"
        unfolding Y_def using dby_decomp [of b c e a] bb b3 cb eb e3 by simp
      have l: "is_leap Y = lp"
        unfolding Y_def lp_def using leap_decomp [of b c e a] bb b3 cb eb e3 by simp
      have Y1: "1 \<le> Y" unfolding Y_def using a0 bb cb eb by simp
      have Yeq: "a * 400 + 1 + b * 100 + c * 4 + e = Y" by (simp add: Y_def)
      define m0 where "m0 = (r4 + 50) div 32"
      define p0 where "p0 = DAYS_BEFORE_MONTH ! nat m0 + (if m0 > 2 \<and> lp then 1 else 0)"
      define M where "M = (if p0 > r4 then m0 - 1 else m0)"
      define P where "P = (if p0 > r4 then p0 - (DAYS_IN_MONTH ! nat (m0 - 1) + (if m0 - 1 = 2 \<and> lp then 1 else 0)) else p0)"
      have mp: "1 \<le> M" "M \<le> 12" "P = DAYS_BEFORE_MONTH ! nat M + (if M > 2 \<and> lp then 1 else 0)"
        "P \<le> r4" "r4 < P + (if M = 2 \<and> lp then 29 else DAYS_IN_MONTH ! nat M)"
        using month_part [OF r4b, of lp] unfolding M_def P_def p0_def m0_def by blast+
      have v: "ord2ymd n = (Y, M, r4 - P + 1)"
        using e4 b4 unfolding M_def P_def p0_def m0_def by (simp add: unf Yeq lp_def Let_def)
      have o: "ymd2ord Y M (r4 - P + 1) = n"
        unfolding ymd2ord_def days_before_month_def l d n mp(3) by simp
      have dm: "r4 - P + 1 \<le> days_in_month Y M"
        unfolding days_in_month_def l using mp(5) by simp
      show ?thesis unfolding v using o dm mp(1,2,4) Y1 by simp
    qed
  qed
qed

lemma dbm_nonneg: "1 \<le> m \<Longrightarrow> m \<le> 12 \<Longrightarrow> 0 \<le> days_before_month y m"
proof -
  assume "1 \<le> m" "m \<le> 12"
  then have "m = 1 \<or> m = 2 \<or> m = 3 \<or> m = 4 \<or> m = 5 \<or> m = 6 \<or> m = 7 \<or> m = 8 \<or> m = 9 \<or> m = 10 \<or> m = 11 \<or> m = 12"
    by arith
  then show ?thesis
    unfolding days_before_month_def DAYS_BEFORE_MONTH_def by (elim disjE) simp_all
qed

lemma dim_le_31: "1 \<le> m \<Longrightarrow> m \<le> 12 \<Longrightarrow> days_in_month y m \<le> 31"
proof -
  assume "1 \<le> m" "m \<le> 12"
  then have "m = 1 \<or> m = 2 \<or> m = 3 \<or> m = 4 \<or> m = 5 \<or> m = 6 \<or> m = 7 \<or> m = 8 \<or> m = 9 \<or> m = 10 \<or> m = 11 \<or> m = 12"
    by arith
  then show ?thesis
    unfolding days_in_month_def DAYS_IN_MONTH_def by (elim disjE) simp_all
qed

lemma dby_lower: "10000 \<le> y \<Longrightarrow> 3652059 \<le> days_before_year y"
proof -
  assume y: "10000 \<le> y"
  define q4 where "q4 = (y - 1) div 4"
  define q100 where "q100 = (y - 1) div 100"
  define q400 where "q400 = (y - 1) div 400"
  have 1: "y - 1 - 3 \<le> 4 * q4" unfolding q4_def using pos_mod_bound [of 4 "y - 1"] mult_div_mod_eq [of 4 "y - 1"] by linarith
  have 2: "100 * q100 \<le> y - 1" unfolding q100_def
    using pos_mod_sign [of 100 "y - 1"] mult_div_mod_eq [of 100 "y - 1"] by linarith
  have 3: "y - 1 - 399 \<le> 400 * q400" unfolding q400_def
    using pos_mod_bound [of 400 "y - 1"] mult_div_mod_eq [of 400 "y - 1"] by linarith
  have d: "days_before_year y = 365 * (y - 1) + q4 - q100 + q400"
    by (simp add: days_before_year_def Let_def q4_def q100_def q400_def)
  have a: "100 * (y - 1) - 300 \<le> 400 * q4" using 1 by simp
  have b: "- 4 * (y - 1) \<le> - 400 * q100" using 2 by simp
  have c: "146097 * (y - 1) - 699 \<le> 400 * days_before_year y"
    unfolding d using a b 3 by simp
  have "1460823204 \<le> 146097 * (y - 1) - 699" using y by simp
  then have "1460823204 \<le> 400 * days_before_year y" using c by simp
  then show ?thesis by simp
qed

lemma year_upper:
  assumes "ymd2ord y m d \<le> 3652059" "1 \<le> m" "m \<le> 12" "1 \<le> d"
  shows "y \<le> 9999"
proof (rule ccontr)
  assume "\<not> y \<le> 9999"
  then have "3652059 \<le> days_before_year y" using dby_lower by simp
  moreover have "0 \<le> days_before_month y m" using assms dbm_nonneg by simp
  ultimately show False using assms(1,4) unfolding ymd2ord_def by arith
qed

lemma length_show_nat_1: "n < 10 \<Longrightarrow> length (show_nat n) = 1"
  by (simp add: show_nat.simps)

lemma length_show_nat_2: "10 \<le> n \<Longrightarrow> n < 100 \<Longrightarrow> length (show_nat n) = 2"
  by (subst show_nat.simps) (simp add: length_show_nat_1)

lemma length_show_nat_3: "100 \<le> n \<Longrightarrow> n < 1000 \<Longrightarrow> length (show_nat n) = 3"
  by (subst show_nat.simps) (simp add: length_show_nat_2)

lemma length_show_nat_4: "1000 \<le> n \<Longrightarrow> n < 10000 \<Longrightarrow> length (show_nat n) = 4"
  by (subst show_nat.simps) (simp add: length_show_nat_3)

lemma length_zero_pad_2: "0 \<le> k \<Longrightarrow> k < 100 \<Longrightarrow> length (zero_pad 2 k) = 2"
proof -
  assume k: "0 \<le> k" "k < 100"
  have "nat k < 10 \<or> (10 \<le> nat k \<and> nat k < 100)" using k by arith
  then show ?thesis
    by (auto simp: zero_pad_def Let_def length_show_nat_1 length_show_nat_2)
qed

lemma length_zero_pad_4: "0 \<le> k \<Longrightarrow> k < 10000 \<Longrightarrow> length (zero_pad 4 k) = 4"
proof -
  assume k: "0 \<le> k" "k < 10000"
  have "nat k < 10 \<or> (10 \<le> nat k \<and> nat k < 100) \<or> (100 \<le> nat k \<and> nat k < 1000) \<or> (1000 \<le> nat k \<and> nat k < 10000)"
    using k by arith
  then show ?thesis
    by (auto simp: zero_pad_def Let_def length_show_nat_1 length_show_nat_2 length_show_nat_3 length_show_nat_4)
qed

lemma strftime_basic:
  "strftime ''%Y%m%dT%H%M%SZ'' dt =
     show_nat (nat (year dt)) @ zero_pad 2 (month dt) @ zero_pad 2 (day dt) @ ''T'' @
     zero_pad 2 (hour dt) @ zero_pad 2 (minute dt) @ zero_pad 2 (second dt) @ ''Z''"
  by (simp add: directive_def)

lemma strftime_local:
  "strftime ''%Y-%m-%d %H:%M'' dt =
     show_nat (nat (year dt)) @ ''-'' @ zero_pad 2 (month dt) @ ''-'' @ zero_pad 2 (day dt) @ '' '' @
     zero_pad 2 (hour dt) @ '':'' @ zero_pad 2 (minute dt)"
  by (simp add: directive_def)

lemma length_strftime_year:
  assumes "valid_datetime dt"
  shows "length (strftime ''%Y%m%dT%H%M%SZ'' dt) = 12 + length (show_nat (nat (year dt)))"
proof -
  have d: "day dt \<le> 31" using assms dim_le_31 [of "month dt" "year dt"] unfolding valid_datetime_def by simp
  show ?thesis unfolding strftime_basic
    using assms d unfolding valid_datetime_def
    by (simp add: length_zero_pad_2)
qed

lemma length_strftime_basic:
  assumes "valid_datetime dt" and "1000 \<le> year dt"
  shows "length (strftime ''%Y%m%dT%H%M%SZ'' dt) = 16"
proof -
  have "1000 \<le> nat (year dt)" "nat (year dt) < 10000"
    using assms unfolding valid_datetime_def by linarith+
  then show ?thesis
    using length_strftime_year [OF assms(1)] by (simp add: length_show_nat_4)
qed

lemma length_show_nat_le_3: "n < 1000 \<Longrightarrow> length (show_nat n) \<le> 3"
proof -
  assume "n < 1000"
  then have "n < 10 \<or> (10 \<le> n \<and> n < 100) \<or> (100 \<le> n \<and> n < 1000)" by arith
  then show ?thesis
    by (auto simp: length_show_nat_1 length_show_nat_2 length_show_nat_3)
qed

lemma length_strftime_short:
  assumes "valid_datetime dt" and "year dt < 1000"
  shows "length (strftime ''%Y%m%dT%H%M%SZ'' dt) < 16"
proof -
  have "nat (year dt) < 1000" using assms by simp
  then show ?thesis
    using length_strftime_year [OF assms(1)] length_show_nat_le_3 [of "nat (year dt)"] by simp
qed

section \<open>The invite serializer\<close>

lemma ex_start_utc:
  "to_utc ex_start DEFAULT_TZ_OFFSET_MINUTES =
     Inr \<lparr>year = 2024, month = 1, day = 10, hour = 3, minute = 30, second = 0,
          microsecond = 0, tzinfo = Some UTC\<rparr>"
  by code_simp

lemma ex_end_utc:
  "to_utc ex_end DEFAULT_TZ_OFFSET_MINUTES =
     Inr \<lparr>year = 2024, month = 1, day = 10, hour = 4, minute = 0, second = 0,
          microsecond = 0, tzinfo = Some UTC\<rparr>"
  by code_simp

lemma ics_records_Inr:
  "ics_records env summary description location organizer_email atts s e uid ml = Inr ics \<longleftrightarrow>
   (\<exists>su eu. to_utc s DEFAULT_TZ_OFFSET_MINUTES = Inr su \<and> to_utc e DEFAULT_TZ_OFFSET_MINUTES = Inr eu \<and>
      ics = [''BEGIN:VCALENDAR'', ''VERSION:2.0'', ''METHOD:REQUEST'', ''BEGIN:VEVENT'',
             ''UID:'' @ resolve_uid env uid,
             ''DTSTAMP:'' @ strftime ''%Y%m%dT%H%M%SZ'' ((utcnow env)\<lparr>tzinfo := Some UTC\<rparr>),
             ''DTSTART:'' @ strftime ''%Y%m%dT%H%M%SZ'' su,
             ''DTEND:'' @ strftime ''%Y%m%dT%H%M%SZ'' eu,
             ''SUMMARY:'' @ summary,
             ''DESCRIPTION:'' @ join BACKSLASH_N (desc_lines description ml s),
             ''LOCATION:'' @ or_empty location,
             ''ORGANIZER:mailto:'' @ organizer_email] @
            attendee_lines atts @ [''END:VEVENT'', ''END:VCALENDAR''])"
  unfolding ics_records_def Let_def by (auto split: sum.splits)

lemma length_hex32: "length (hex32 w) = 32"
  by (simp add: hex32_def)

lemma length_uuid_str: "length (uuid_str w) = 36"
  by (simp add: uuid_str_def Let_def length_hex32)

lemma hex_digit_inj: "a < 16 \<Longrightarrow> b < 16 \<Longrightarrow> hex_digit a = hex_digit b \<Longrightarrow> a = b"
proof -
  assume a: "a < 16" and b: "b < 16" and e: "hex_digit a = hex_digit b"
  have d: "distinct ''0123456789abcdef''" by simp
  have l: "length ''0123456789abcdef'' = 16" by simp
  show ?thesis using e a b d l unfolding hex_digit_def
    by (metis nth_eq_iff_index_eq)
qed

lemma nibble_lt: "unat (and (x :: 128 word) 0xF) < 16"
proof -
  have "and x 0xF \<le> 0xF" by (rule word_and_le1)
  then show ?thesis by (simp add: word_le_nat_alt)
qed

lemma hex32_nibbles:
  assumes "hex32 w = hex32 v" and "i < 32"
  shows "and (drop_bit (4 * (31 - i)) w) 0xF = and (drop_bit (4 * (31 - i)) v) (0xF :: 128 word)"
proof -
  have "hex32 w ! i = hex32 v ! i" using assms by simp
  then have "hex_digit (unat (and (drop_bit (4 * (31 - i)) w) 0xF)) =
             hex_digit (unat (and (drop_bit (4 * (31 - i)) v) 0xF))"
    using assms(2) by (simp add: hex32_def)
  then have "unat (and (drop_bit (4 * (31 - i)) w) 0xF) = unat (and (drop_bit (4 * (31 - i)) v) 0xF)"
    using hex_digit_inj nibble_lt by blast
  then show ?thesis using word_unat_eq_iff by blast
qed

lemma bit_F: "bit (0xF :: 128 word) j \<longleftrightarrow> j < 4"
proof -
  have e: "(0xF :: 128 word) = mask 4" by (simp add: mask_eq_exp_minus_1)
  show ?thesis unfolding e by (auto simp: bit_mask_iff)
qed

lemma hex32_inj:
  assumes "hex32 w = hex32 v"
  shows "w = v"
proof (rule bit_word_eqI)
  fix n assume n: "n < LENGTH(128)"
  define i where "i = 31 - n div 4"
  define j where "j = n mod 4"
  have i: "i < 32" "4 * (31 - i) = 4 * (n div 4)" using n by (simp_all add: i_def)
  have k: "4 * (n div 4) + j = n" by (simp add: j_def)
  have jl: "j < 4" by (simp add: j_def)
  from hex32_nibbles [OF assms i(1)] have
    "bit (and (drop_bit (4 * (n div 4)) w) 0xF) j = bit (and (drop_bit (4 * (n div 4)) v) (0xF :: 128 word)) j"
    unfolding i(2) by simp
  moreover have "bit (0xF :: 128 word) j" using jl by (simp only: bit_F)
  ultimately show "bit w n = bit v n"
    using k by (simp add: bit_and_iff bit_drop_bit_eq add.commute del: bit_numeral_simps)
qed


lemma uuid_str_inj:
  assumes "uuid_str w = uuid_str v"
  shows "w = v"
proof -
  define a where "a = hex32 w"
  define b where "b = hex32 v"
  have la: "length a = 32" and lb: "length b = 32" by (simp_all add: a_def b_def length_hex32)
  have e: "take 8 a @ ''-'' @ take 4 (drop 8 a) @ ''-'' @ take 4 (drop 12 a) @ ''-'' @
           take 4 (drop 16 a) @ ''-'' @ drop 20 a =
           take 8 b @ ''-'' @ take 4 (drop 8 b) @ ''-'' @ take 4 (drop 12 b) @ ''-'' @
           take 4 (drop 16 b) @ ''-'' @ drop 20 b"
    using assms by (simp add: uuid_str_def Let_def a_def b_def)
  have 1: "take 8 a = take 8 b" and r1: "take 4 (drop 8 a) @ ''-'' @ take 4 (drop 12 a) @ ''-'' @
           take 4 (drop 16 a) @ ''-'' @ drop 20 a = take 4 (drop 8 b) @ ''-'' @ take 4 (drop 12 b) @ ''-'' @
           take 4 (drop 16 b) @ ''-'' @ drop 20 b"
    using e la lb by (simp_all add: append_eq_append_conv)
  have 2: "take 4 (drop 8 a) = take 4 (drop 8 b)" and r2: "take 4 (drop 12 a) @ ''-'' @
           take 4 (drop 16 a) @ ''-'' @ drop 20 a = take 4 (drop 12 b) @ ''-'' @
           take 4 (drop 16 b) @ ''-'' @ drop 20 b"
    using r1 la lb by (simp_all add: append_eq_append_conv)
  have 3: "take 4 (drop 12 a) = take 4 (drop 12 b)" and r3: "take 4 (drop 16 a) @ ''-'' @ drop 20 a =
           take 4 (drop 16 b) @ ''-'' @ drop 20 b"
    using r2 la lb by (simp_all add: append_eq_append_conv)
  have 4: "take 4 (drop 16 a) = take 4 (drop 16 b)" and 5: "drop 20 a = drop 20 b"
    using r3 la lb by (simp_all add: append_eq_append_conv)
  have rec: "take 8 x @ take 4 (drop 8 x) @ take 4 (drop 12 x) @ take 4 (drop 16 x) @ drop 20 x = x"
    for x :: string
  proof -
    have s1: "take 4 (drop 16 x) @ drop 20 x = drop 16 x"
      using append_take_drop_id [of 4 "drop 16 x"] by simp
    have s2: "take 4 (drop 12 x) @ drop 16 x = drop 12 x"
      using append_take_drop_id [of 4 "drop 12 x"] by simp
    have s3: "take 4 (drop 8 x) @ drop 12 x = drop 8 x"
      using append_take_drop_id [of 4 "drop 8 x"] by simp
    show ?thesis unfolding s1 s2 s3 by simp
  qed
  have "a = take 8 a @ take 4 (drop 8 a) @ take 4 (drop 12 a) @ take 4 (drop 16 a) @ drop 20 a"
    using rec [of a] by simp
  also have "\<dots> = take 8 b @ take 4 (drop 8 b) @ take 4 (drop 12 b) @ take 4 (drop 16 b) @ drop 20 b"
    unfolding 1 2 3 4 5 ..
  also have "\<dots> = b" by (rule rec)
  finally have "hex32 w = hex32 v" by (simp add: a_def b_def)
  then show ?thesis by (rule hex32_inj)
qed

lemma uuid4_form:
  "uuid4 r = or (and r (not (or (push_bit 48 0xc000) (push_bit 64 0xf000))))
                (or (push_bit 48 0x8000) (push_bit 76 4))"
proof -
  define A :: "128 word" where "A = push_bit 48 0xc000"
  define B :: "128 word" where "B = push_bit 48 0x8000"
  define C :: "128 word" where "C = push_bit 64 0xf000"
  define D :: "128 word" where "D = push_bit 76 4"
  have bc: "and B (not C) = B" unfolding B_def C_def by simp
  have "uuid4 r = or (and (or (and r (not A)) B) (not C)) D"
    by (simp add: uuid4_def Let_def A_def B_def C_def D_def)
  also have "\<dots> = or (or (and (and r (not A)) (not C)) (and B (not C))) D"
    by (simp only: bit.conj_disj_distrib2)
  also have "\<dots> = or (or (and r (and (not A) (not C))) B) D"
    unfolding bc by (simp only: and.assoc)
  also have "\<dots> = or (and r (not (or A C))) (or B D)"
    by (simp only: bit.de_Morgan_disj or.assoc)
  finally show ?thesis unfolding A_def B_def C_def D_def .
qed

lemma uuid4_random_bits:
  "and (uuid4 r) (not (or (push_bit 48 0xc000) (push_bit 64 0xf000))) =
   and r (not (or (push_bit 48 0xc000) (push_bit 64 0xf000)))"
proof -
  define K :: "128 word" where "K = not (or (push_bit 48 0xc000) (push_bit 64 0xf000))"
  define V :: "128 word" where "V = or (push_bit 48 0x8000) (push_bit 76 4)"
  have vk: "and V K = 0" unfolding V_def K_def by simp
  have "and (uuid4 r) K = and (or (and r K) V) K"
    unfolding uuid4_form K_def V_def ..
  also have "\<dots> = or (and (and r K) K) (and V K)"
    by (simp only: bit.conj_disj_distrib2)
  also have "\<dots> = and r K" unfolding vk by (simp add: and.assoc)
  finally show ?thesis unfolding K_def .
qed

lemma uuid_str_random_bits:
  "uuid_str (uuid4 r1) = uuid_str (uuid4 r2) \<longleftrightarrow>
   and r1 (not (or (push_bit 48 0xc000) (push_bit 64 0xf000))) =
   and r2 (not (or (push_bit 48 0xc000) (push_bit 64 0xf000)))"
proof
  assume "uuid_str (uuid4 r1) = uuid_str (uuid4 r2)"
  then have "uuid4 r1 = uuid4 r2" by (rule uuid_str_inj)
  then show "and r1 (not (or (push_bit 48 0xc000) (push_bit 64 0xf000))) =
             and r2 (not (or (push_bit 48 0xc000) (push_bit 64 0xf000)))"
    using uuid4_random_bits [of r1] uuid4_random_bits [of r2] by simp
next
  assume "and r1 (not (or (push_bit 48 0xc000) (push_bit 64 0xf000))) =
          and r2 (not (or (push_bit 48 0xc000) (push_bit 64 0xf000)))"
  then have "uuid4 r1 = uuid4 r2" unfolding uuid4_form by simp
  then show "uuid_str (uuid4 r1) = uuid_str (uuid4 r2)" by simp
qed

lemma build_ics_Inr:
  "ics_records env summary d loc org atts s e uid ml = Inr ics \<Longrightarrow>
   build_ics env summary d loc org atts s e uid ml = Inr (join CRLF ics)"
  by (simp add: build_ics_def)

lemma join_Cons: "ys \<noteq> [] \<Longrightarrow> join sep (x # ys) = x @ sep @ join sep ys"
  by (cases ys) simp_all

lemma build_ics_text:
  assumes "ics_records env summary d loc org atts s e uid ml = Inr ics"
  shows "\<exists>su eu. to_utc s DEFAULT_TZ_OFFSET_MINUTES = Inr su \<and> to_utc e DEFAULT_TZ_OFFSET_MINUTES = Inr eu \<and>
     join CRLF ics =
       ''BEGIN:VCALENDAR'' @ CRLF @ ''VERSION:2.0'' @ CRLF @ ''METHOD:REQUEST'' @ CRLF @
       ''BEGIN:VEVENT'' @ CRLF @
       ''UID:'' @ resolve_uid env uid @ CRLF @
       ''DTSTAMP:'' @ strftime ''%Y%m%dT%H%M%SZ'' ((utcnow env)\<lparr>tzinfo := Some UTC\<rparr>) @ CRLF @
       ''DTSTART:'' @ strftime ''%Y%m%dT%H%M%SZ'' su @ CRLF @
       ''DTEND:'' @ strftime ''%Y%m%dT%H%M%SZ'' eu @ CRLF @
       ''SUMMARY:'' @ summary @ CRLF @
       ''DESCRIPTION:'' @ join BACKSLASH_N (desc_lines d ml s) @ CRLF @
       ''LOCATION:'' @ or_empty loc @ CRLF @
       ''ORGANIZER:mailto:'' @ org @ CRLF @
       join CRLF (attendee_lines atts @ [''END:VEVENT'', ''END:VCALENDAR''])"
proof -
  from assms obtain su eu where
    su: "to_utc s DEFAULT_TZ_OFFSET_MINUTES = Inr su" and eu: "to_utc e DEFAULT_TZ_OFFSET_MINUTES = Inr eu" and
    a: "ics = [''BEGIN:VCALENDAR'', ''VERSION:2.0'', ''METHOD:REQUEST'', ''BEGIN:VEVENT'',
             ''UID:'' @ resolve_uid env uid,
             ''DTSTAMP:'' @ strftime ''%Y%m%dT%H%M%SZ'' ((utcnow env)\<lparr>tzinfo := Some UTC\<rparr>),
             ''DTSTART:'' @ strftime ''%Y%m%dT%H%M%SZ'' su,
             ''DTEND:'' @ strftime ''%Y%m%dT%H%M%SZ'' eu,
             ''SUMMARY:'' @ summary,
             ''DESCRIPTION:'' @ join BACKSLASH_N (desc_lines d ml s),
             ''LOCATION:'' @ or_empty loc,
             ''ORGANIZER:mailto:'' @ org] @
            attendee_lines atts @ [''END:VEVENT'', ''END:VCALENDAR'']"
    unfolding ics_records_Inr by blast
  have ne: "attendee_lines atts @ [''END:VEVENT'', ''END:VCALENDAR''] \<noteq> []" by simp
  show ?thesis
    using su eu unfolding a
    by (simp add: join_Cons [OF ne] del: strftime.simps)
qed

lemma build_ics_text_prefix:
  assumes "ics_records env summary d loc org atts s e uid ml = Inr ics"
  shows "prefix (''BEGIN:VCALENDAR'' @ CRLF @ ''VERSION:2.0'' @ CRLF @ ''METHOD:REQUEST'' @ CRLF @
       ''BEGIN:VEVENT'' @ CRLF @ ''UID:'' @ resolve_uid env uid @ CRLF @ ''DTSTAMP:'') (join CRLF ics)"
proof -
  from build_ics_text [OF assms] obtain su eu where
    t: "join CRLF ics =
       ''BEGIN:VCALENDAR'' @ CRLF @ ''VERSION:2.0'' @ CRLF @ ''METHOD:REQUEST'' @ CRLF @
       ''BEGIN:VEVENT'' @ CRLF @
       ''UID:'' @ resolve_uid env uid @ CRLF @
       ''DTSTAMP:'' @ strftime ''%Y%m%dT%H%M%SZ'' ((utcnow env)\<lparr>tzinfo := Some UTC\<rparr>) @ CRLF @
       ''DTSTART:'' @ strftime ''%Y%m%dT%H%M%SZ'' su @ CRLF @
       ''DTEND:'' @ strftime ''%Y%m%dT%H%M%SZ'' eu @ CRLF @
       ''SUMMARY:'' @ summary @ CRLF @
       ''DESCRIPTION:'' @ join BACKSLASH_N (desc_lines d ml s) @ CRLF @
       ''LOCATION:'' @ or_empty loc @ CRLF @
       ''ORGANIZER:mailto:'' @ org @ CRLF @
       join CRLF (attendee_lines atts @ [''END:VEVENT'', ''END:VCALENDAR''])" by blast
  show ?thesis unfolding t by (simp del: strftime.simps)
qed

lemma build_ics_text_suffix:
  assumes "ics_records env summary d loc org atts s e uid ml = Inr ics"
  shows "suffix (CRLF @ ''DESCRIPTION:'' @ join BACKSLASH_N (desc_lines d ml s) @ CRLF @
       ''LOCATION:'' @ or_empty loc @ CRLF @
       ''ORGANIZER:mailto:'' @ org @ CRLF @
       join CRLF (attendee_lines atts @ [''END:VEVENT'', ''END:VCALENDAR''])) (join CRLF ics)"
proof -
  from build_ics_text [OF assms] obtain su eu where
    t: "join CRLF ics =
       ''BEGIN:VCALENDAR'' @ CRLF @ ''VERSION:2.0'' @ CRLF @ ''METHOD:REQUEST'' @ CRLF @
       ''BEGIN:VEVENT'' @ CRLF @
       ''UID:'' @ resolve_uid env uid @ CRLF @
       ''DTSTAMP:'' @ strftime ''%Y%m%dT%H%M%SZ'' ((utcnow env)\<lparr>tzinfo := Some UTC\<rparr>) @ CRLF @
       ''DTSTART:'' @ strftime ''%Y%m%dT%H%M%SZ'' su @ CRLF @
       ''DTEND:'' @ strftime ''%Y%m%dT%H%M%SZ'' eu @ CRLF @
       ''SUMMARY:'' @ summary @ CRLF @
       ''DESCRIPTION:'' @ join BACKSLASH_N (desc_lines d ml s) @ CRLF @
       ''LOCATION:'' @ or_empty loc @ CRLF @
       ''ORGANIZER:mailto:'' @ org @ CRLF @
       join CRLF (attendee_lines atts @ [''END:VEVENT'', ''END:VCALENDAR''])" by blast
  show ?thesis unfolding t suffix_def
    by (rule exI [of _ "''BEGIN:VCALENDAR'' @ CRLF @ ''VERSION:2.0'' @ CRLF @ ''METHOD:REQUEST'' @ CRLF @
       ''BEGIN:VEVENT'' @ CRLF @
       ''UID:'' @ resolve_uid env uid @ CRLF @
       ''DTSTAMP:'' @ strftime ''%Y%m%dT%H%M%SZ'' ((utcnow env)\<lparr>tzinfo := Some UTC\<rparr>) @ CRLF @
       ''DTSTART:'' @ strftime ''%Y%m%dT%H%M%SZ'' su @ CRLF @
       ''DTEND:'' @ strftime ''%Y%m%dT%H%M%SZ'' eu @ CRLF @
       ''SUMMARY:'' @ summary"]) simp
qed

lemma build_ics_location_suffix:
  assumes "ics_records env summary d loc org atts s e uid ml = Inr ics"
  shows "suffix (CRLF @ ''LOCATION:'' @ or_empty loc @ CRLF @
       ''ORGANIZER:mailto:'' @ org @ CRLF @
       join CRLF (attendee_lines atts @ [''END:VEVENT'', ''END:VCALENDAR''])) (join CRLF ics)"
proof -
  have "suffix (CRLF @ ''LOCATION:'' @ or_empty loc @ CRLF @
       ''ORGANIZER:mailto:'' @ org @ CRLF @
       join CRLF (attendee_lines atts @ [''END:VEVENT'', ''END:VCALENDAR'']))
     (CRLF @ ''DESCRIPTION:'' @ join BACKSLASH_N (desc_lines d ml s) @ CRLF @
       ''LOCATION:'' @ or_empty loc @ CRLF @
       ''ORGANIZER:mailto:'' @ org @ CRLF @
       join CRLF (attendee_lines atts @ [''END:VEVENT'', ''END:VCALENDAR'']))"
    unfolding suffix_def
    by (rule exI [of _ "CRLF @ ''DESCRIPTION:'' @ join BACKSLASH_N (desc_lines d ml s)"]) simp
  then show ?thesis using build_ics_text_suffix [OF assms] by (rule suffix_order.trans)
qed

text \<open>
  C10. The serializer treats an empty uid as an absent one: for \<open>None\<close> and for the empty
  string the UID record, and the UID line of the text returned, carry the freshly
  generated identifier, and for every non-empty uid they carry exactly that uid. The
  generated identifier has 36 characters, so it is never empty, and two of them are equal
  only when the random bytes agree on every bit that the version and the variant do not
  overwrite.
\<close>

theorem uid_resolution:
  assumes "ics_records env summary description location organizer_email atts s e uid ml = Inr ics"
  shows "build_ics env summary description location organizer_email atts s e uid ml = Inr (join CRLF ics) \<and>
         (uid = None \<or> uid = Some [] \<longrightarrow>
            ics ! 4 = ''UID:'' @ uuid_str (uuid4 (urandom env)) \<and>
            prefix (''BEGIN:VCALENDAR'' @ CRLF @ ''VERSION:2.0'' @ CRLF @ ''METHOD:REQUEST'' @ CRLF @
                    ''BEGIN:VEVENT'' @ CRLF @ ''UID:'' @ uuid_str (uuid4 (urandom env)) @ CRLF @
                    ''DTSTAMP:'') (join CRLF ics)) \<and>
         (\<forall>u. uid = Some u \<and> u \<noteq> [] \<longrightarrow>
            ics ! 4 = ''UID:'' @ u \<and>
            prefix (''BEGIN:VCALENDAR'' @ CRLF @ ''VERSION:2.0'' @ CRLF @ ''METHOD:REQUEST'' @ CRLF @
                    ''BEGIN:VEVENT'' @ CRLF @ ''UID:'' @ u @ CRLF @ ''DTSTAMP:'') (join CRLF ics)) \<and>
         length (uuid_str (uuid4 (urandom env))) = 36 \<and>
         (\<forall>r1 r2. uuid_str (uuid4 r1) = uuid_str (uuid4 r2) \<longleftrightarrow>
            and r1 (not (or (push_bit 48 0xc000) (push_bit 64 0xf000))) =
            and r2 (not (or (push_bit 48 0xc000) (push_bit 64 0xf000))))"
proof -
  note p = build_ics_text_prefix [OF assms]
  have i4: "ics ! 4 = ''UID:'' @ resolve_uid env uid"
    using assms unfolding ics_records_Inr by auto
  have f: "uid = None \<or> uid = Some [] \<Longrightarrow> resolve_uid env uid = uuid_str (uuid4 (urandom env))"
    by (auto simp: resolve_uid_def)
  have g: "uid = Some u \<and> u \<noteq> [] \<Longrightarrow> resolve_uid env uid = u" for u
    by (auto simp: resolve_uid_def)
  have A: "uid = None \<or> uid = Some [] \<longrightarrow>
            ics ! 4 = ''UID:'' @ uuid_str (uuid4 (urandom env)) \<and>
            prefix (''BEGIN:VCALENDAR'' @ CRLF @ ''VERSION:2.0'' @ CRLF @ ''METHOD:REQUEST'' @ CRLF @
                    ''BEGIN:VEVENT'' @ CRLF @ ''UID:'' @ uuid_str (uuid4 (urandom env)) @ CRLF @
                    ''DTSTAMP:'') (join CRLF ics)"
    using p i4 f by metis
  have B: "\<forall>u. uid = Some u \<and> u \<noteq> [] \<longrightarrow>
            ics ! 4 = ''UID:'' @ u \<and>
            prefix (''BEGIN:VCALENDAR'' @ CRLF @ ''VERSION:2.0'' @ CRLF @ ''METHOD:REQUEST'' @ CRLF @
                    ''BEGIN:VEVENT'' @ CRLF @ ''UID:'' @ u @ CRLF @ ''DTSTAMP:'') (join CRLF ics)"
    using p i4 g by metis
  have C: "\<forall>r1 r2. uuid_str (uuid4 r1) = uuid_str (uuid4 r2) \<longleftrightarrow>
            and r1 (not (or (push_bit 48 0xc000) (push_bit 64 0xf000))) =
            and r2 (not (or (push_bit 48 0xc000) (push_bit 64 0xf000)))"
    using uuid_str_random_bits by blast
  from A B C build_ics_Inr [OF assms] length_uuid_str show ?thesis by blast
qed

lemma ex_uuid: "uuid_str (uuid4 (urandom ex_env)) = ''00000000-0000-4000-8000-000000000000''"
  by code_simp

theorem uid_resolution_witness:
  "(case build_ics ex_env ''Team Sync'' None None ''a@x.com'' [] ex_start ex_end (Some []) None of
      Inl err \<Rightarrow> False
    | Inr out \<Rightarrow>
        prefix (''BEGIN:VCALENDAR'' @ CRLF @ ''VERSION:2.0'' @ CRLF @ ''METHOD:REQUEST'' @ CRLF @
                ''BEGIN:VEVENT'' @ CRLF @ ''UID:00000000-0000-4000-8000-000000000000'' @ CRLF @
                ''DTSTAMP:'') out) \<and>
   (case build_ics ex_env ''Team Sync'' None None ''a@x.com'' [] ex_start ex_end (Some ''evt1'') None of
      Inl err \<Rightarrow> False
    | Inr out \<Rightarrow>
        prefix (''BEGIN:VCALENDAR'' @ CRLF @ ''VERSION:2.0'' @ CRLF @ ''METHOD:REQUEST'' @ CRLF @
                ''BEGIN:VEVENT'' @ CRLF @ ''UID:evt1'' @ CRLF @ ''DTSTAMP:'') out) \<and>
   (case ics_records ex_env ''Team Sync'' None None ''a@x.com'' [] ex_start ex_end (Some []) None of
      Inl err \<Rightarrow> False
    | Inr ics \<Rightarrow> ics ! 4 = ''UID:00000000-0000-4000-8000-000000000000'') \<and>
   (case ics_records ex_env ''Team Sync'' None None ''a@x.com'' [] ex_start ex_end (Some ''evt1'') None of
      Inl err \<Rightarrow> False
    | Inr ics \<Rightarrow> ics ! 4 = ''UID:evt1'')"
proof -
  obtain ics where h: "ics_records ex_env ''Team Sync'' None None ''a@x.com'' [] ex_start ex_end (Some []) None = Inr ics"
    by (simp add: ics_records_Inr ex_start_utc ex_end_utc)
  obtain ics' where h': "ics_records ex_env ''Team Sync'' None None ''a@x.com'' [] ex_start ex_end (Some ''evt1'') None = Inr ics'"
    by (simp add: ics_records_Inr ex_start_utc ex_end_utc)
  note t = uid_resolution [OF h] and t' = uid_resolution [OF h']
  have b: "build_ics ex_env ''Team Sync'' None None ''a@x.com'' [] ex_start ex_end (Some []) None = Inr (join CRLF ics)"
    using t by blast
  have b': "build_ics ex_env ''Team Sync'' None None ''a@x.com'' [] ex_start ex_end (Some ''evt1'') None = Inr (join CRLF ics')"
    using t' by blast
  have 1: "ics ! 4 = ''UID:'' @ uuid_str (uuid4 (urandom ex_env))"
    "prefix (''BEGIN:VCALENDAR'' @ CRLF @ ''VERSION:2.0'' @ CRLF @ ''METHOD:REQUEST'' @ CRLF @
             ''BEGIN:VEVENT'' @ CRLF @ ''UID:'' @ uuid_str (uuid4 (urandom ex_env)) @ CRLF @
             ''DTSTAMP:'') (join CRLF ics)"
    using t by blast+
  have ne: "''evt1'' \<noteq> []" by simp
  have 2: "ics' ! 4 = ''UID:'' @ ''evt1''"
    "prefix (''BEGIN:VCALENDAR'' @ CRLF @ ''VERSION:2.0'' @ CRLF @ ''METHOD:REQUEST'' @ CRLF @
             ''BEGIN:VEVENT'' @ CRLF @ ''UID:'' @ ''evt1'' @ CRLF @ ''DTSTAMP:'') (join CRLF ics')"
    using t' ne by blast+
  show ?thesis unfolding h h' b b' using 1 2 by (simp add: ex_uuid)
qed

lemma join_snoc: "join sep (xs @ [x]) = (if xs = [] then x else join sep xs @ sep @ x)"
  by (induction sep xs rule: join.induct) auto



lemma ex_tz_line: "local_timezone_line ex_start = ''Local Timezone: Asia/Kolkata (2024-01-10 09:00)''"
  by code_simp



text \<open>
  C9. An empty or absent location gives the record "LOCATION:" with nothing after the
  colon, and in the text returned the line LOCATION: is followed at once by the line end.
  An empty or absent description gives an empty first description segment: the
  DESCRIPTION record, and the DESCRIPTION line of the text returned, continue with the
  separator right after the colon. No text such as "None" or "null" stands for the
  missing value.
\<close>

theorem empty_fields:
  assumes "ics_records env summary d loc org atts s e uid ml = Inr ics"
  shows "build_ics env summary d loc org atts s e uid ml = Inr (join CRLF ics) \<and>
         (loc = None \<or> loc = Some [] \<longrightarrow>
            ics ! 10 = ''LOCATION:'' \<and>
            suffix (CRLF @ ''LOCATION:'' @ CRLF @ ''ORGANIZER:mailto:'' @ org @ CRLF @
                    join CRLF (attendee_lines atts @ [''END:VEVENT'', ''END:VCALENDAR'']))
              (join CRLF ics)) \<and>
         (d = None \<or> d = Some [] \<longrightarrow>
            hd (desc_lines d ml s) = [] \<and>
            ics ! 9 = ''DESCRIPTION:'' @ BACKSLASH_N @ join BACKSLASH_N (tl (desc_lines d ml s)) \<and>
            suffix (CRLF @ ''DESCRIPTION:'' @ BACKSLASH_N @ join BACKSLASH_N (tl (desc_lines d ml s)) @ CRLF @
                    ''LOCATION:'' @ or_empty loc @ CRLF @ ''ORGANIZER:mailto:'' @ org @ CRLF @
                    join CRLF (attendee_lines atts @ [''END:VEVENT'', ''END:VCALENDAR'']))
              (join CRLF ics))"
proof -
  have i: "ics ! 10 = ''LOCATION:'' @ or_empty loc"
    "ics ! 9 = ''DESCRIPTION:'' @ join BACKSLASH_N (desc_lines d ml s)"
    using assms unfolding ics_records_Inr by auto
  have le: "loc = None \<or> loc = Some [] \<Longrightarrow> or_empty loc = []"
    by (auto simp: or_empty_def)
  have de: "d = None \<or> d = Some [] \<Longrightarrow>
      hd (desc_lines d ml s) = [] \<and>
      join BACKSLASH_N (desc_lines d ml s) = BACKSLASH_N @ join BACKSLASH_N (tl (desc_lines d ml s))"
    by (auto simp: desc_lines_def or_empty_def split: option.splits)
  have A: "loc = None \<or> loc = Some [] \<longrightarrow>
            ics ! 10 = ''LOCATION:'' \<and>
            suffix (CRLF @ ''LOCATION:'' @ CRLF @ ''ORGANIZER:mailto:'' @ org @ CRLF @
                    join CRLF (attendee_lines atts @ [''END:VEVENT'', ''END:VCALENDAR'']))
              (join CRLF ics)"
    using i(1) le build_ics_location_suffix [OF assms] by auto
  have B: "d = None \<or> d = Some [] \<longrightarrow>
            hd (desc_lines d ml s) = [] \<and>
            ics ! 9 = ''DESCRIPTION:'' @ BACKSLASH_N @ join BACKSLASH_N (tl (desc_lines d ml s)) \<and>
            suffix (CRLF @ ''DESCRIPTION:'' @ BACKSLASH_N @ join BACKSLASH_N (tl (desc_lines d ml s)) @ CRLF @
                    ''LOCATION:'' @ or_empty loc @ CRLF @ ''ORGANIZER:mailto:'' @ org @ CRLF @
                    join CRLF (attendee_lines atts @ [''END:VEVENT'', ''END:VCALENDAR'']))
              (join CRLF ics)"
  proof
    assume c: "d = None \<or> d = Some []"
    note x = de [OF c]
    have "suffix (CRLF @ ''DESCRIPTION:'' @ (BACKSLASH_N @ join BACKSLASH_N (tl (desc_lines d ml s))) @ CRLF @
                    ''LOCATION:'' @ or_empty loc @ CRLF @ ''ORGANIZER:mailto:'' @ org @ CRLF @
                    join CRLF (attendee_lines atts @ [''END:VEVENT'', ''END:VCALENDAR'']))
              (join CRLF ics)"
      using build_ics_text_suffix [OF assms] x by simp
    then show "hd (desc_lines d ml s) = [] \<and>
            ics ! 9 = ''DESCRIPTION:'' @ BACKSLASH_N @ join BACKSLASH_N (tl (desc_lines d ml s)) \<and>
            suffix (CRLF @ ''DESCRIPTION:'' @ BACKSLASH_N @ join BACKSLASH_N (tl (desc_lines d ml s)) @ CRLF @
                    ''LOCATION:'' @ or_empty loc @ CRLF @ ''ORGANIZER:mailto:'' @ org @ CRLF @
                    join CRLF (attendee_lines atts @ [''END:VEVENT'', ''END:VCALENDAR'']))
              (join CRLF ics)"
      using x i(2) by simp
  qed
  from A B build_ics_Inr [OF assms] show ?thesis by blast
qed

theorem empty_fields_witness:
  "(case build_ics ex_env ''Team Sync'' None (Some []) ''a@x.com'' [] ex_start ex_end (Some ''evt1'') None of
      Inl err \<Rightarrow> False
    | Inr out \<Rightarrow>
        suffix (CRLF @ ''DESCRIPTION:'' @ [CHR 0x5C, CHR ''n''] @
                ''Local Timezone: Asia/Kolkata (2024-01-10 09:00)'' @ CRLF @
                ''LOCATION:'' @ CRLF @ ''ORGANIZER:mailto:a@x.com'' @ CRLF @
                ''END:VEVENT'' @ CRLF @ ''END:VCALENDAR'') out) \<and>
   (case ics_records ex_env ''Team Sync'' None (Some []) ''a@x.com'' [] ex_start ex_end (Some ''evt1'') None of
      Inl err \<Rightarrow> False
    | Inr ics \<Rightarrow>
        ics ! 10 = ''LOCATION:'' \<and>
        ics ! 9 = ''DESCRIPTION:'' @ [CHR 0x5C, CHR ''n''] @ ''Local Timezone: Asia/Kolkata (2024-01-10 09:00)'')"
proof -
  obtain ics where h: "ics_records ex_env ''Team Sync'' None (Some []) ''a@x.com'' [] ex_start ex_end (Some ''evt1'') None = Inr ics"
    by (simp add: ics_records_Inr ex_start_utc ex_end_utc)
  note t = empty_fields [OF h]
  have b: "build_ics ex_env ''Team Sync'' None (Some []) ''a@x.com'' [] ex_start ex_end (Some ''evt1'') None = Inr (join CRLF ics)"
    using t by blast
  have 1: "ics ! 10 = ''LOCATION:''" using t by blast
  have 2: "ics ! 9 = ''DESCRIPTION:'' @ BACKSLASH_N @ join BACKSLASH_N (tl (desc_lines None None ex_start))"
    using t by blast
  have 3: "suffix (CRLF @ ''DESCRIPTION:'' @ BACKSLASH_N @ join BACKSLASH_N (tl (desc_lines None None ex_start)) @ CRLF @
                    ''LOCATION:'' @ or_empty (Some []) @ CRLF @ ''ORGANIZER:mailto:'' @ ''a@x.com'' @ CRLF @
                    join CRLF (attendee_lines [] @ [''END:VEVENT'', ''END:VCALENDAR'']))
              (join CRLF ics)"
    using t by blast
  have d: "join BACKSLASH_N (tl (desc_lines None None ex_start)) = ''Local Timezone: Asia/Kolkata (2024-01-10 09:00)''"
    by (simp add: desc_lines_def ex_tz_line)
  have s3: "suffix (CRLF @ ''DESCRIPTION:'' @ [CHR 0x5C, CHR ''n''] @
                ''Local Timezone: Asia/Kolkata (2024-01-10 09:00)'' @ CRLF @
                ''LOCATION:'' @ CRLF @ ''ORGANIZER:mailto:a@x.com'' @ CRLF @
                ''END:VEVENT'' @ CRLF @ ''END:VCALENDAR'') (join CRLF ics)"
    using 3 unfolding d by (simp add: or_empty_def BACKSLASH_N_def attendee_lines_def)
  have s2: "ics ! 9 = ''DESCRIPTION:'' @ [CHR 0x5C, CHR ''n''] @ ''Local Timezone: Asia/Kolkata (2024-01-10 09:00)''"
    using 2 unfolding d by (simp add: BACKSLASH_N_def)
  show ?thesis unfolding h b using 1 s2 s3 by simp
qed

text \<open>
  C4. With no attendees the document has no ATTENDEE record and keeps its frame: fourteen
  records, the first BEGIN:VCALENDAR, the last END:VCALENDAR, one BEGIN:VEVENT and, after
  it, one END:VEVENT, and the text returned is these records joined with carriage return
  and line feed.
\<close>

theorem empty_attendees:
  assumes "ics_records env summary d loc org [] s e uid ml = Inr ics"
  shows "length ics = 14 \<and>
         filter (prefix ''ATTENDEE'') ics = [] \<and>
         hd ics = ''BEGIN:VCALENDAR'' \<and> last ics = ''END:VCALENDAR'' \<and>
         ics ! 3 = ''BEGIN:VEVENT'' \<and> ics ! 12 = ''END:VEVENT'' \<and>
         filter (\<lambda>x. x = ''BEGIN:VEVENT'') ics = [''BEGIN:VEVENT''] \<and>
         filter (\<lambda>x. x = ''END:VEVENT'') ics = [''END:VEVENT''] \<and>
         build_ics env summary d loc org [] s e uid ml = Inr (join CRLF ics) \<and>
         prefix (''BEGIN:VCALENDAR'' @ CRLF) (join CRLF ics) \<and>
         suffix (CRLF @ ''END:VEVENT'' @ CRLF @ ''END:VCALENDAR'') (join CRLF ics) \<and>
         CRLF = [CHR 0x0D, CHR 0x0A]"
proof -
  from assms obtain su eu where
    ics: "ics = [''BEGIN:VCALENDAR'', ''VERSION:2.0'', ''METHOD:REQUEST'', ''BEGIN:VEVENT'',
             ''UID:'' @ resolve_uid env uid,
             ''DTSTAMP:'' @ strftime ''%Y%m%dT%H%M%SZ'' ((utcnow env)\<lparr>tzinfo := Some UTC\<rparr>),
             ''DTSTART:'' @ strftime ''%Y%m%dT%H%M%SZ'' su,
             ''DTEND:'' @ strftime ''%Y%m%dT%H%M%SZ'' eu,
             ''SUMMARY:'' @ summary,
             ''DESCRIPTION:'' @ join BACKSLASH_N (desc_lines d ml s),
             ''LOCATION:'' @ or_empty loc,
             ''ORGANIZER:mailto:'' @ org] @ [''END:VEVENT'', ''END:VCALENDAR'']"
    unfolding ics_records_Inr by (auto simp: attendee_lines_def)
  have 1: "length ics = 14" by (simp add: ics)
  have 2: "filter (prefix ''ATTENDEE'') ics = []" by (simp add: ics)
  have 3: "hd ics = ''BEGIN:VCALENDAR''" "last ics = ''END:VCALENDAR''"
    "ics ! 3 = ''BEGIN:VEVENT''" "ics ! 12 = ''END:VEVENT''" by (simp_all add: ics)
  have 4: "filter (\<lambda>x. x = ''BEGIN:VEVENT'') ics = [''BEGIN:VEVENT'']" by (simp add: ics)
  have 5: "filter (\<lambda>x. x = ''END:VEVENT'') ics = [''END:VEVENT'']" by (simp add: ics)
  have 6: "prefix (''BEGIN:VCALENDAR'' @ CRLF) (join CRLF ics)" by (simp add: ics)
  have 7: "suffix (CRLF @ ''END:VEVENT'' @ CRLF @ ''END:VCALENDAR'') (join CRLF ics)"
    unfolding ics suffix_def by simp
  show ?thesis using 1 2 3 4 5 6 7 build_ics_Inr [OF assms] by (simp add: CRLF_def)
qed


theorem empty_attendees_witness:
  "(case ics_records ex_env ''Team Sync'' None None ''a@x.com'' [] ex_start ex_end (Some ''evt1'') None of
      Inl err \<Rightarrow> False
    | Inr ics \<Rightarrow>
        build_ics ex_env ''Team Sync'' None None ''a@x.com'' [] ex_start ex_end (Some ''evt1'') None =
          Inr (join CRLF ics) \<and>
        length ics = 14 \<and> filter (prefix ''ATTENDEE'') ics = [] \<and>
        prefix (''BEGIN:VCALENDAR'' @ CRLF) (join CRLF ics) \<and>
        suffix (CRLF @ ''END:VEVENT'' @ CRLF @ ''END:VCALENDAR'') (join CRLF ics))"
proof -
  obtain ics where h: "ics_records ex_env ''Team Sync'' None None ''a@x.com'' [] ex_start ex_end (Some ''evt1'') None = Inr ics"
    by (simp add: ics_records_Inr ex_start_utc ex_end_utc)
  show ?thesis using empty_attendees [OF h] by (simp add: h)
qed

lemma no_dtstamp_attendee: "filter (prefix ''DTSTAMP:'') (attendee_lines atts) = []"
  by (induction atts) (simp_all add: attendee_lines_def)

text \<open>
  C5, amended. Two runs of the serializer on the same arguments with a given non-empty uid,
  whatever the clock and the random bytes of each run, succeed together and give the same
  records except the sixth, which is the only one that begins with DTSTAMP: and carries
  the clock of its run.
\<close>

theorem deterministic_except_dtstamp:
  assumes "u \<noteq> []"
    and "ics_records env1 summary d loc org atts s e (Some u) ml = Inr a"
  shows "\<exists>b. ics_records env2 summary d loc org atts s e (Some u) ml = Inr b \<and>
           build_ics env1 summary d loc org atts s e (Some u) ml = Inr (join CRLF a) \<and>
           build_ics env2 summary d loc org atts s e (Some u) ml = Inr (join CRLF b) \<and>
           a ! 5 = ''DTSTAMP:'' @ strftime ''%Y%m%dT%H%M%SZ'' ((utcnow env1)\<lparr>tzinfo := Some UTC\<rparr>) \<and>
           b = a[5 := ''DTSTAMP:'' @ strftime ''%Y%m%dT%H%M%SZ'' ((utcnow env2)\<lparr>tzinfo := Some UTC\<rparr>)] \<and>
           length b = length a \<and>
           (\<forall>i < length a. i \<noteq> 5 \<longrightarrow> b ! i = a ! i) \<and>
           filter (prefix ''DTSTAMP:'') a = [a ! 5]"
proof -
  from assms(2) obtain su eu where
    su: "to_utc s DEFAULT_TZ_OFFSET_MINUTES = Inr su" and eu: "to_utc e DEFAULT_TZ_OFFSET_MINUTES = Inr eu" and
    a: "a = [''BEGIN:VCALENDAR'', ''VERSION:2.0'', ''METHOD:REQUEST'', ''BEGIN:VEVENT'',
             ''UID:'' @ resolve_uid env1 (Some u),
             ''DTSTAMP:'' @ strftime ''%Y%m%dT%H%M%SZ'' ((utcnow env1)\<lparr>tzinfo := Some UTC\<rparr>),
             ''DTSTART:'' @ strftime ''%Y%m%dT%H%M%SZ'' su,
             ''DTEND:'' @ strftime ''%Y%m%dT%H%M%SZ'' eu,
             ''SUMMARY:'' @ summary,
             ''DESCRIPTION:'' @ join BACKSLASH_N (desc_lines d ml s),
             ''LOCATION:'' @ or_empty loc,
             ''ORGANIZER:mailto:'' @ org] @
            attendee_lines atts @ [''END:VEVENT'', ''END:VCALENDAR'']"
    unfolding ics_records_Inr by blast
  define b where "b = a[5 := ''DTSTAMP:'' @ strftime ''%Y%m%dT%H%M%SZ'' ((utcnow env2)\<lparr>tzinfo := Some UTC\<rparr>)]"
  have u: "resolve_uid env1 (Some u) = u" "resolve_uid env2 (Some u) = u"
    using assms(1) by (simp_all add: resolve_uid_def)
  have r2: "ics_records env2 summary d loc org atts s e (Some u) ml = Inr b"
    unfolding ics_records_Inr b_def a using su eu by (simp add: u)
  have f: "filter (prefix ''DTSTAMP:'') a = [a ! 5]"
    unfolding a by (simp add: no_dtstamp_attendee)
  have n: "\<forall>i < length a. i \<noteq> 5 \<longrightarrow> b ! i = a ! i" by (simp add: b_def)
  show ?thesis
    using r2 f n build_ics_Inr [OF assms(2)] build_ics_Inr [OF r2]
    by (intro exI [of _ b]) (simp add: b_def a)
qed


lemma ex_uuid1: "uuid_str (uuid4 1) = ''00000000-0000-4000-8000-000000000001''"
  by code_simp

theorem deterministic_except_dtstamp_witness:
  "(case (ics_records ex_env ''Team Sync'' None None ''a@x.com'' [''b@x.com''] ex_start ex_end
            (Some ''evt1'') None,
          ics_records (ex_env\<lparr>utcnow := ex_end, urandom := 1\<rparr>) ''Team Sync'' None None ''a@x.com''
            [''b@x.com''] ex_start ex_end (Some ''evt1'') None) of
      (Inr a, Inr b) \<Rightarrow>
         a ! 5 = ''DTSTAMP:20240109T181542Z'' \<and> b = a[5 := ''DTSTAMP:20240110T093000Z'']
    | _ \<Rightarrow> False)"
proof -
  let ?env2 = "ex_env\<lparr>utcnow := ex_end, urandom := 1\<rparr>"
  obtain a where h: "ics_records ex_env ''Team Sync'' None None ''a@x.com'' [''b@x.com''] ex_start ex_end
            (Some ''evt1'') None = Inr a"
    by (simp add: ics_records_Inr ex_start_utc ex_end_utc)
  have ne: "''evt1'' \<noteq> []" by simp
  from deterministic_except_dtstamp [OF ne h, of ?env2]
  obtain b where b: "ics_records ?env2 ''Team Sync'' None None ''a@x.com'' [''b@x.com''] ex_start ex_end
            (Some ''evt1'') None = Inr b"
    and a5: "a ! 5 = ''DTSTAMP:'' @ strftime ''%Y%m%dT%H%M%SZ'' ((utcnow ex_env)\<lparr>tzinfo := Some UTC\<rparr>)"
    and ba: "b = a[5 := ''DTSTAMP:'' @ strftime ''%Y%m%dT%H%M%SZ'' ((utcnow ?env2)\<lparr>tzinfo := Some UTC\<rparr>)]"
    by blast
  have s1: "strftime ''%Y%m%dT%H%M%SZ'' ((utcnow ex_env)\<lparr>tzinfo := Some UTC\<rparr>) = ''20240109T181542Z''"
    by code_simp
  have s2: "strftime ''%Y%m%dT%H%M%SZ'' ((utcnow ?env2)\<lparr>tzinfo := Some UTC\<rparr>) = ''20240110T093000Z''"
    by code_simp
  show ?thesis using a5 ba unfolding s1 s2 by (simp add: h b)
qed

text \<open>
  C5 as stated fails for the explicit uid that is the empty string: two runs on identical
  arguments differ in the UID record, which is not the DTSTAMP record.
\<close>

theorem deterministic_counterexample:
  "\<not> isl (ics_records ex_env ''Team Sync'' None None ''a@x.com'' [] ex_start ex_end (Some []) None) \<and>
   \<not> isl (ics_records (ex_env\<lparr>urandom := 1\<rparr>) ''Team Sync'' None None ''a@x.com'' [] ex_start ex_end (Some []) None) \<and>
   projr (ics_records ex_env ''Team Sync'' None None ''a@x.com'' [] ex_start ex_end (Some []) None) ! 4 =
     ''UID:00000000-0000-4000-8000-000000000000'' \<and>
   projr (ics_records (ex_env\<lparr>urandom := 1\<rparr>) ''Team Sync'' None None ''a@x.com'' [] ex_start ex_end (Some []) None) ! 4 =
     ''UID:00000000-0000-4000-8000-000000000001''"
proof -
  have 1: "resolve_uid ex_env (Some []) = ''00000000-0000-4000-8000-000000000000''"
    by (simp add: resolve_uid_def ex_uuid)
  have 2: "resolve_uid (ex_env\<lparr>urandom := 1\<rparr>) (Some []) = ''00000000-0000-4000-8000-000000000001''"
    by (simp add: resolve_uid_def ex_uuid1)
  show ?thesis
    by (simp add: ics_records_def Let_def ex_start_utc ex_end_utc 1 2)
qed

section \<open>Conversion to UTC\<close>

lemma timedelta_new_props:
  assumes "timedelta_new d s us = Inr t"
  shows "timedelta_total t = (d * 86400 + s) * 1000000 + us"
    and "0 \<le> td_seconds t" and "td_seconds t < 86400"
    and "0 \<le> td_microseconds t" and "td_microseconds t < 1000000"
    and "\<bar>td_days t\<bar> \<le> 999999999"
proof -
  define qu where "qu = us div 1000000"
  define ru where "ru = us mod 1000000"
  define s1 where "s1 = s + qu"
  define qs where "qs = s1 div 86400"
  define rs where "rs = s1 mod 86400"
  have t: "t = \<lparr>td_days = d + qs, td_seconds = rs, td_microseconds = ru\<rparr>" and ov: "\<bar>d + qs\<bar> \<le> 999999999"
    using assms unfolding timedelta_new_def Let_def qu_def ru_def s1_def qs_def rs_def
    by (auto split: if_splits)
  have e1: "us = qu * 1000000 + ru" by (simp add: qu_def ru_def)
  have e2: "s1 = qs * 86400 + rs" by (simp add: qs_def rs_def)
  have "timedelta_total t = ((d + qs) * 86400 + rs) * 1000000 + ru"
    by (simp add: t timedelta_total_def)
  also have "\<dots> = (d * 86400 + (qs * 86400 + rs)) * 1000000 + ru" by (simp add: algebra_simps)
  also have "\<dots> = (d * 86400 + (s + qu)) * 1000000 + ru" unfolding e2 [symmetric] s1_def ..
  also have "\<dots> = (d * 86400 + s) * 1000000 + (qu * 1000000 + ru)" by (simp add: algebra_simps)
  finally show "timedelta_total t = (d * 86400 + s) * 1000000 + us" unfolding e1 [symmetric] .
  show "0 \<le> td_seconds t" "td_seconds t < 86400" by (simp_all add: t rs_def)
  show "0 \<le> td_microseconds t" "td_microseconds t < 1000000" by (simp_all add: t ru_def)
  show "\<bar>td_days t\<bar> \<le> 999999999" using ov by (simp add: t)
qed


lemma time_of_day_split:
  fixes secs :: int
  assumes "0 \<le> secs" "secs < 86400"
  shows "secs div 3600 * 3600 + (secs mod 3600 div 60 * 60 + secs mod 3600 mod 60) = secs"
    and "0 \<le> secs div 3600" and "secs div 3600 < 24"
    and "0 \<le> secs mod 3600 div 60" and "secs mod 3600 div 60 < 60"
    and "0 \<le> secs mod 3600 mod 60" and "secs mod 3600 mod 60 < 60"
proof -
  define h where "h = secs div 3600"
  define r where "r = secs mod 3600"
  define m where "m = r div 60"
  define x where "x = r mod 60"
  have e1: "secs = h * 3600 + r" by (simp add: h_def r_def)
  have e2: "r = m * 60 + x" by (simp add: m_def x_def)
  have rb: "0 \<le> r" "r < 3600" by (simp_all add: r_def)
  have xb: "0 \<le> x" "x < 60" by (simp_all add: x_def)
  have hb: "0 \<le> h" "h < 24" using e1 rb assms by linarith+
  have mb: "0 \<le> m" "m < 60" using e2 rb xb by linarith+
  show "secs div 3600 * 3600 + (secs mod 3600 div 60 * 60 + secs mod 3600 mod 60) = secs"
    using e1 e2 unfolding h_def [symmetric] r_def [symmetric] m_def [symmetric] x_def [symmetric] by simp
  show "0 \<le> secs div 3600" "secs div 3600 < 24" using hb by (simp_all add: h_def)
  show "0 \<le> secs mod 3600 div 60" "secs mod 3600 div 60 < 60" using mb by (simp_all add: m_def r_def)
  show "0 \<le> secs mod 3600 mod 60" "secs mod 3600 mod 60 < 60" using xb by (simp_all add: x_def r_def)
qed

lemma datetime_add_props:
  assumes r: "datetime_add dt td = Inr r"
  shows "total_microseconds r = total_microseconds dt + timedelta_total td"
    and "valid_datetime r" and "tzinfo r = tzinfo dt"
    and "1 \<le> toordinal r" and "toordinal r \<le> MAXORDINAL"
proof -
  from r obtain delta0 where d0: "timedelta_new (toordinal dt) (hour dt * 3600 + minute dt * 60 + second dt) (microsecond dt) = Inr delta0"
    unfolding datetime_add_def by (auto split: sum.splits)
  from r d0 obtain delta where d: "timedelta_add delta0 td = Inr delta"
    unfolding datetime_add_def by (auto split: sum.splits)
  from r d0 d have rng: "0 < td_days delta" "td_days delta \<le> MAXORDINAL"
    unfolding datetime_add_def Let_def by (auto split: if_splits)
  obtain y m dd where o: "ord2ymd (td_days delta) = (y, m, dd)" by (cases "ord2ymd (td_days delta)") auto
  have req: "r = \<lparr>year = y, month = m, day = dd, hour = td_seconds delta div 3600,
                minute = td_seconds delta mod 3600 div 60, second = td_seconds delta mod 3600 mod 60,
                microsecond = td_microseconds delta, tzinfo = tzinfo dt\<rparr>"
    using r d0 d rng o unfolding datetime_add_def Let_def by simp
  have p0: "timedelta_total delta0 = total_microseconds dt"
    using timedelta_new_props(1) [OF d0] by (simp add: total_microseconds_def)
  note pd = timedelta_new_props [OF d [unfolded timedelta_add_def]]
  have pt: "timedelta_total delta = total_microseconds dt + timedelta_total td"
    using pd(1) p0 by (simp add: timedelta_total_def algebra_simps)
  have op: "ymd2ord y m dd = td_days delta" "1 \<le> y" "1 \<le> m" "m \<le> 12" "1 \<le> dd" "dd \<le> days_in_month y m"
    using ord2ymd_props [of "td_days delta"] rng(1) o by auto
  have yu: "y \<le> 9999"
    using year_upper [of y m dd] op rng(2) by (simp add: MAXORDINAL_def)
  note ts = time_of_day_split [OF pd(2) pd(3)]
  show "valid_datetime r"
    unfolding valid_datetime_def req using op yu ts(2-7) pd(4,5) by simp
  show "tzinfo r = tzinfo dt" by (simp add: req)
  have tor: "toordinal r = td_days delta" by (simp add: req toordinal_def op(1))
  show "1 \<le> toordinal r" "toordinal r \<le> MAXORDINAL" using rng tor by simp_all
  have "total_microseconds r = timedelta_total delta"
    unfolding total_microseconds_def timedelta_total_def tor using ts(1) by (simp add: req)
  then show "total_microseconds r = total_microseconds dt + timedelta_total td" using pt by simp
qed


lemma timedelta_new_succeeds:
  assumes "- 999999999 * 86400000000 \<le> (d * 86400 + s) * 1000000 + us"
    and "(d * 86400 + s) * 1000000 + us < 1000000000 * 86400000000"
  shows "\<exists>t. timedelta_new d s us = Inr t"
proof -
  define qu where "qu = us div 1000000"
  define ru where "ru = us mod 1000000"
  define s1 where "s1 = s + qu"
  define qs where "qs = s1 div 86400"
  define rs where "rs = s1 mod 86400"
  have e1: "us = qu * 1000000 + ru" by (simp add: qu_def ru_def)
  have e2: "s + qu = qs * 86400 + rs" by (simp add: qs_def rs_def s1_def)
  have b: "0 \<le> ru" "ru < 1000000" "0 \<le> rs" "rs < 86400" by (simp_all add: ru_def rs_def)
  have "(d * 86400 + s) * 1000000 + us = (d * 86400 + (s + qu)) * 1000000 + ru"
    unfolding e1 by (simp add: algebra_simps)
  also have "\<dots> = (d + qs) * 86400000000 + (rs * 1000000 + ru)"
    unfolding e2 by (simp add: algebra_simps)
  finally have tot: "(d * 86400 + s) * 1000000 + us = (d + qs) * 86400000000 + (rs * 1000000 + ru)" .
  have "- 999999999 \<le> d + qs" using assms(1) b unfolding tot by (simp add: algebra_simps)
  moreover have "d + qs \<le> 999999999" using assms(2) b unfolding tot by (simp add: algebra_simps)
  ultimately have "\<not> \<bar>d + qs\<bar> > 999999999" by linarith
  then show ?thesis
    unfolding timedelta_new_def Let_def qu_def [symmetric] s1_def [symmetric] qs_def [symmetric]
    by simp
qed

lemma timedelta_days_bracket:
  assumes "0 \<le> td_seconds t" "td_seconds t < 86400" "0 \<le> td_microseconds t" "td_microseconds t < 1000000"
  shows "td_days t * 86400000000 \<le> timedelta_total t"
    and "timedelta_total t < (td_days t + 1) * 86400000000"
  using assms unfolding timedelta_total_def by (simp_all add: algebra_simps)


lemma dby_bounds:
  assumes "1 \<le> y" "y \<le> 9999"
  shows "0 \<le> days_before_year y" and "days_before_year y \<le> 3669266"
proof -
  define q4 where "q4 = (y - 1) div 4"
  define q100 where "q100 = (y - 1) div 100"
  define q400 where "q400 = (y - 1) div 400"
  have d: "days_before_year y = 365 * (y - 1) + q4 - q100 + q400"
    by (simp add: days_before_year_def Let_def q4_def q100_def q400_def)
  have 1: "0 \<le> q4" "0 \<le> q100" "0 \<le> q400"
    using assms by (simp_all add: q4_def q100_def q400_def pos_imp_zdiv_nonneg_iff)
  have "4 * q4 \<le> y - 1" unfolding q4_def
    using pos_mod_sign [of 4 "y - 1"] mult_div_mod_eq [of 4 "y - 1"] by linarith
  moreover have "100 * q100 \<le> y - 1" unfolding q100_def
    using pos_mod_sign [of 100 "y - 1"] mult_div_mod_eq [of 100 "y - 1"] by linarith
  moreover have "400 * q400 \<le> y - 1" unfolding q400_def
    using pos_mod_sign [of 400 "y - 1"] mult_div_mod_eq [of 400 "y - 1"] by linarith
  ultimately have 2: "q4 \<le> y - 1" "q100 \<le> y - 1" "q400 \<le> y - 1"
    using 1 by linarith+
  show "0 \<le> days_before_year y" unfolding d using 1 2 assms by simp
  show "days_before_year y \<le> 3669266" unfolding d using 1 2 assms by simp
qed

lemma dbm_upper: "1 \<le> m \<Longrightarrow> m \<le> 12 \<Longrightarrow> days_before_month y m \<le> 335"
proof -
  assume "1 \<le> m" "m \<le> 12"
  then have "m = 1 \<or> m = 2 \<or> m = 3 \<or> m = 4 \<or> m = 5 \<or> m = 6 \<or> m = 7 \<or> m = 8 \<or> m = 9 \<or> m = 10 \<or> m = 11 \<or> m = 12"
    by arith
  then show ?thesis
    unfolding days_before_month_def DAYS_BEFORE_MONTH_def by (elim disjE) simp_all
qed

lemma toordinal_bounds:
  assumes "valid_datetime dt"
  shows "1 \<le> toordinal dt" and "toordinal dt \<le> 3669632"
proof -
  have v: "1 \<le> year dt" "year dt \<le> 9999" "1 \<le> month dt" "month dt \<le> 12" "1 \<le> day dt"
    "day dt \<le> days_in_month (year dt) (month dt)"
    using assms unfolding valid_datetime_def by simp_all
  have d31: "day dt \<le> 31" using v dim_le_31 [of "month dt" "year dt"] by simp
  note a = dby_bounds [OF v(1,2)]
  note b = dbm_nonneg [OF v(3,4), of "year dt"] dbm_upper [OF v(3,4), of "year dt"]
  show "1 \<le> toordinal dt" unfolding toordinal_def ymd2ord_def using a b v(5) by simp
  show "toordinal dt \<le> 3669632" unfolding toordinal_def ymd2ord_def using a b d31 by simp
qed

lemma time_of_day_bounds:
  assumes "valid_datetime dt"
  shows "0 \<le> hour dt * 3600 + minute dt * 60 + second dt"
    and "hour dt * 3600 + minute dt * 60 + second dt < 86400"
    and "0 \<le> microsecond dt" and "microsecond dt < 1000000"
  using assms unfolding valid_datetime_def by simp_all

lemma total_microseconds_bracket:
  assumes "valid_datetime dt"
  shows "toordinal dt * 86400000000 \<le> total_microseconds dt"
    and "total_microseconds dt < (toordinal dt + 1) * 86400000000"
  using time_of_day_bounds [OF assms] unfolding total_microseconds_def
  by (simp_all add: algebra_simps)

lemma to_utc_props:
  assumes "to_utc dt off = Inr r"
  shows "total_microseconds r = total_microseconds dt - off * 60000000"
    and "valid_datetime r" and "tzinfo r = Some UTC"
    and "in_datetime_range (total_microseconds r)"
proof -
  from assms obtain offset where o: "timedelta_minutes off = Inr offset"
    unfolding to_utc_def by (auto split: sum.splits)
  from assms o obtain r0 where s: "datetime_sub dt offset = Inr r0" and r: "r = r0\<lparr>tzinfo := Some UTC\<rparr>"
    unfolding to_utc_def by (auto split: sum.splits)
  from s obtain n where n: "timedelta_neg offset = Inr n" and a: "datetime_add dt n = Inr r0"
    unfolding datetime_sub_def by (auto split: sum.splits)
  have to: "timedelta_total offset = off * 60000000"
    using timedelta_new_props(1) [OF o [unfolded timedelta_minutes_def]] by simp
  have tn: "timedelta_total n = - timedelta_total offset"
    using timedelta_new_props(1) [OF n [unfolded timedelta_neg_def]]
    by (simp add: timedelta_total_def algebra_simps)
  note p = datetime_add_props [OF a]
  have tm: "total_microseconds r = total_microseconds r0"
    by (simp add: r total_microseconds_def toordinal_def)
  have vv: "valid_datetime r = valid_datetime r0" by (simp add: r valid_datetime_def)
  show "total_microseconds r = total_microseconds dt - off * 60000000"
    using p(1) tm tn to by simp
  show v: "valid_datetime r" using p(2) vv by simp
  show "tzinfo r = Some UTC" by (simp add: r)
  have "toordinal r = toordinal r0" by (simp add: r toordinal_def)
  then have "1 \<le> toordinal r" "toordinal r \<le> MAXORDINAL" using p(4,5) by simp_all
  then show "in_datetime_range (total_microseconds r)"
    using total_microseconds_bracket [OF v] unfolding in_datetime_range_def MAXORDINAL_def
    by simp
qed


lemma to_utc_succeeds:
  assumes v: "valid_datetime dt"
    and rg: "in_datetime_range (total_microseconds dt - off * 60000000)"
  shows "\<exists>r. to_utc dt off = Inr r"
proof -
  note tb = total_microseconds_bracket [OF v] toordinal_bounds [OF v]
  have T: "86400000000 \<le> total_microseconds dt - off * 60000000"
    "total_microseconds dt - off * 60000000 < 3652060 * 86400000000"
    using rg unfolding in_datetime_range_def MAXORDINAL_def by simp_all
  have D: "86400000000 \<le> total_microseconds dt" "total_microseconds dt < 3669633 * 86400000000"
    using tb by simp_all
  have ob: "- 999999999 * 86400000000 \<le> off * 60000000" "off * 60000000 < 999999999 * 86400000000"
    using T D by simp_all
  obtain offset where o: "timedelta_minutes off = Inr offset"
    unfolding timedelta_minutes_def
    using timedelta_new_succeeds [of 0 "off * 60" 0] ob by auto
  have to: "timedelta_total offset = off * 60000000"
    using timedelta_new_props(1) [OF o [unfolded timedelta_minutes_def]] by simp
  have ntot: "(- td_days offset * 86400 + - td_seconds offset) * 1000000 + - td_microseconds offset
                = - (off * 60000000)"
    using to by (simp add: timedelta_total_def algebra_simps)
  obtain n where n: "timedelta_neg offset = Inr n"
    unfolding timedelta_neg_def
    using timedelta_new_succeeds [of "- td_days offset" "- td_seconds offset" "- td_microseconds offset"]
      ob unfolding ntot by auto
  have tn: "timedelta_total n = - (off * 60000000)"
    using timedelta_new_props(1) [OF n [unfolded timedelta_neg_def]] ntot by simp
  have d0tot: "(toordinal dt * 86400 + (hour dt * 3600 + minute dt * 60 + second dt)) * 1000000 + microsecond dt
                = total_microseconds dt"
    by (simp add: total_microseconds_def)
  obtain delta0 where d0: "timedelta_new (toordinal dt) (hour dt * 3600 + minute dt * 60 + second dt) (microsecond dt) = Inr delta0"
    using timedelta_new_succeeds [of "toordinal dt" "hour dt * 3600 + minute dt * 60 + second dt" "microsecond dt"]
      D unfolding d0tot by auto
  have t0: "timedelta_total delta0 = total_microseconds dt"
    using timedelta_new_props(1) [OF d0] d0tot by simp
  have stot: "((td_days delta0 + td_days n) * 86400 + (td_seconds delta0 + td_seconds n)) * 1000000
                + (td_microseconds delta0 + td_microseconds n)
              = total_microseconds dt - off * 60000000"
    using t0 tn by (simp add: timedelta_total_def algebra_simps)
  obtain delta where d: "timedelta_add delta0 n = Inr delta"
    unfolding timedelta_add_def
    using timedelta_new_succeeds [of "td_days delta0 + td_days n" "td_seconds delta0 + td_seconds n"
        "td_microseconds delta0 + td_microseconds n"] T unfolding stot by auto
  note pd = timedelta_new_props [OF d [unfolded timedelta_add_def]]
  have td: "timedelta_total delta = total_microseconds dt - off * 60000000"
    using pd(1) stot by simp
  note br = timedelta_days_bracket [OF pd(2-5)]
  have rng: "0 < td_days delta" "td_days delta \<le> MAXORDINAL"
    using br T unfolding td MAXORDINAL_def by simp_all
  have "\<exists>r0. datetime_add dt n = Inr r0"
    unfolding datetime_add_def Let_def using d0 d rng by (simp split: prod.splits)
  then show ?thesis
    unfolding to_utc_def datetime_sub_def using o n by auto
qed


lemma last_strftime_basic: "last (strftime ''%Y%m%dT%H%M%SZ'' dt) = CHR ''Z''"
  unfolding strftime_basic by simp

lemma dby_ge_1001: "1001 \<le> y \<Longrightarrow> 365241 \<le> days_before_year y"
proof -
  assume y: "1001 \<le> y"
  define q4 where "q4 = (y - 1) div 4"
  define q100 where "q100 = (y - 1) div 100"
  define q400 where "q400 = (y - 1) div 400"
  have 1: "y - 1 - 3 \<le> 4 * q4" unfolding q4_def
    using pos_mod_bound [of 4 "y - 1"] mult_div_mod_eq [of 4 "y - 1"] by linarith
  have 2: "100 * q100 \<le> y - 1" unfolding q100_def
    using pos_mod_sign [of 100 "y - 1"] mult_div_mod_eq [of 100 "y - 1"] by linarith
  have 3: "y - 1 - 399 \<le> 400 * q400" unfolding q400_def
    using pos_mod_bound [of 400 "y - 1"] mult_div_mod_eq [of 400 "y - 1"] by linarith
  have d: "days_before_year y = 365 * (y - 1) + q4 - q100 + q400"
    by (simp add: days_before_year_def Let_def q4_def q100_def q400_def)
  have a: "100 * (y - 1) - 300 \<le> 400 * q4" using 1 by simp
  have b: "- 4 * (y - 1) \<le> - 400 * q100" using 2 by simp
  have c: "146097 * (y - 1) - 699 \<le> 400 * days_before_year y"
    unfolding d using a b 3 by simp
  have "146096301 \<le> 146097 * (y - 1) - 699" using y by simp
  then have "146096301 \<le> 400 * days_before_year y" using c by simp
  then show ?thesis by simp
qed

lemma dby_le_999: "y \<le> 999 \<Longrightarrow> days_before_year y \<le> 364513"
proof -
  assume y: "y \<le> 999"
  define q4 where "q4 = (y - 1) div 4"
  define q100 where "q100 = (y - 1) div 100"
  define q400 where "q400 = (y - 1) div 400"
  have 1: "4 * q4 \<le> y - 1" unfolding q4_def
    using pos_mod_sign [of 4 "y - 1"] mult_div_mod_eq [of 4 "y - 1"] by linarith
  have 2: "y - 1 - 99 \<le> 100 * q100" unfolding q100_def
    using pos_mod_bound [of 100 "y - 1"] mult_div_mod_eq [of 100 "y - 1"] by linarith
  have 3: "400 * q400 \<le> y - 1" unfolding q400_def
    using pos_mod_sign [of 400 "y - 1"] mult_div_mod_eq [of 400 "y - 1"] by linarith
  have d: "days_before_year y = 365 * (y - 1) + q4 - q100 + q400"
    by (simp add: days_before_year_def Let_def q4_def q100_def q400_def)
  have a: "400 * q4 \<le> 100 * (y - 1)" using 1 by simp
  have b: "- 400 * q100 \<le> - 4 * (y - 1) + 396" using 2 by simp
  have c: "400 * days_before_year y \<le> 146097 * (y - 1) + 396"
    unfolding d using a b 3 by simp
  have "146097 * (y - 1) + 396 \<le> 145805202" using y by simp
  then have "400 * days_before_year y \<le> 145805202" using c by simp
  then show ?thesis by simp
qed

lemma to_utc_year:
  assumes v: "valid_datetime s" and u: "to_utc s DEFAULT_TZ_OFFSET_MINUTES = Inr su"
    and y: "1001 \<le> year s"
  shows "1000 \<le> year su"
proof (rule ccontr)
  assume "\<not> 1000 \<le> year su"
  then have ys: "year su \<le> 999" by simp
  note p = to_utc_props [OF u]
  have vs: "1 \<le> month su" "month su \<le> 12" "day su \<le> days_in_month (year su) (month su)"
    using p(2) unfolding valid_datetime_def by simp_all
  have d31: "day su \<le> 31" using vs dim_le_31 [of "month su" "year su"] by simp
  have o1: "toordinal su \<le> 364879"
    unfolding toordinal_def ymd2ord_def
    using dby_le_999 [OF ys] dbm_upper [OF vs(1,2), of "year su"] d31 by simp
  have vm: "1 \<le> month s" "month s \<le> 12" "1 \<le> day s"
    using v unfolding valid_datetime_def by simp_all
  have o2: "365242 \<le> toordinal s"
    unfolding toordinal_def ymd2ord_def
    using dby_ge_1001 [OF y] dbm_nonneg [OF vm(1,2), of "year s"] vm(3) by simp
  have "total_microseconds su < (toordinal su + 1) * 86400000000"
    using total_microseconds_bracket(2) [OF p(2)] .
  then have a: "total_microseconds su < 364880 * 86400000000" using o1 by simp
  have "toordinal s * 86400000000 \<le> total_microseconds s"
    using total_microseconds_bracket(1) [OF v] .
  then have b: "365242 * 86400000000 \<le> total_microseconds s" using o2 by simp
  show False using a b p(1) by (simp add: DEFAULT_TZ_OFFSET_MINUTES_def)
qed

text \<open>
  C1, amended. The serializer takes no offset: it converts with the default of
  \<open>to_utc\<close>, 330 minutes. For every well-formed local start and end whose instants less
  330 minutes lie in the range of a datetime, the serializer returns a document whose
  DTSTART and DTEND records carry the start and the end moved back by 330 minutes, each
  printed as year, month, day, T, hour, minute, second and Z. The month, day, hour, minute
  and second have two digits and the year is printed without padding, so the value has 16
  characters, the last a Z, exactly when its year is 1000 or later, which it is when the
  local year is 1001 or later, and fewer than 16 for an earlier year. \<open>to_utc\<close> itself
  moves a datetime back by whatever offset it is given, and returns whenever the result
  lies in the range of a datetime.
\<close>

theorem utc_timestamps:
  assumes "valid_datetime s" and "valid_datetime e"
    and "in_datetime_range (total_microseconds s - DEFAULT_TZ_OFFSET_MINUTES * 60000000)"
    and "in_datetime_range (total_microseconds e - DEFAULT_TZ_OFFSET_MINUTES * 60000000)"
  shows "(\<exists>su eu ics.
           ics_records env summary d loc org atts s e uid ml = Inr ics \<and>
           build_ics env summary d loc org atts s e uid ml = Inr (join CRLF ics) \<and>
           to_utc s DEFAULT_TZ_OFFSET_MINUTES = Inr su \<and> to_utc e DEFAULT_TZ_OFFSET_MINUTES = Inr eu \<and>
           valid_datetime su \<and> valid_datetime eu \<and>
           total_microseconds su = total_microseconds s - 330 * 60000000 \<and>
           total_microseconds eu = total_microseconds e - 330 * 60000000 \<and>
           ics ! 6 = ''DTSTART:'' @ strftime ''%Y%m%dT%H%M%SZ'' su \<and>
           ics ! 7 = ''DTEND:'' @ strftime ''%Y%m%dT%H%M%SZ'' eu \<and>
           strftime ''%Y%m%dT%H%M%SZ'' su =
             show_nat (nat (year su)) @ zero_pad 2 (month su) @ zero_pad 2 (day su) @ ''T'' @
             zero_pad 2 (hour su) @ zero_pad 2 (minute su) @ zero_pad 2 (second su) @ ''Z'' \<and>
           strftime ''%Y%m%dT%H%M%SZ'' eu =
             show_nat (nat (year eu)) @ zero_pad 2 (month eu) @ zero_pad 2 (day eu) @ ''T'' @
             zero_pad 2 (hour eu) @ zero_pad 2 (minute eu) @ zero_pad 2 (second eu) @ ''Z'' \<and>
           length (strftime ''%Y%m%dT%H%M%SZ'' su) = 12 + length (show_nat (nat (year su))) \<and>
           length (strftime ''%Y%m%dT%H%M%SZ'' eu) = 12 + length (show_nat (nat (year eu))) \<and>
           (1000 \<le> year su \<longrightarrow> length (strftime ''%Y%m%dT%H%M%SZ'' su) = 16) \<and>
           (1000 \<le> year eu \<longrightarrow> length (strftime ''%Y%m%dT%H%M%SZ'' eu) = 16) \<and>
           (year su < 1000 \<longrightarrow> length (strftime ''%Y%m%dT%H%M%SZ'' su) < 16) \<and>
           (year eu < 1000 \<longrightarrow> length (strftime ''%Y%m%dT%H%M%SZ'' eu) < 16) \<and>
           (1001 \<le> year s \<longrightarrow> length (strftime ''%Y%m%dT%H%M%SZ'' su) = 16) \<and>
           (1001 \<le> year e \<longrightarrow> length (strftime ''%Y%m%dT%H%M%SZ'' eu) = 16) \<and>
           last (strftime ''%Y%m%dT%H%M%SZ'' su) = CHR ''Z'' \<and>
           last (strftime ''%Y%m%dT%H%M%SZ'' eu) = CHR ''Z'') \<and>
         (\<forall>off r. to_utc s off = Inr r \<longrightarrow>
           valid_datetime r \<and> total_microseconds r = total_microseconds s - off * 60000000 \<and>
           (1000 \<le> year r \<longrightarrow> length (strftime ''%Y%m%dT%H%M%SZ'' r) = 16) \<and>
           last (strftime ''%Y%m%dT%H%M%SZ'' r) = CHR ''Z'') \<and>
         (\<forall>off. in_datetime_range (total_microseconds s - off * 60000000) \<longrightarrow> (\<exists>r. to_utc s off = Inr r))"
proof -
  obtain su where su: "to_utc s DEFAULT_TZ_OFFSET_MINUTES = Inr su"
    using to_utc_succeeds [OF assms(1,3)] by blast
  obtain eu where eu: "to_utc e DEFAULT_TZ_OFFSET_MINUTES = Inr eu"
    using to_utc_succeeds [OF assms(2,4)] by blast
  obtain ics where ics: "ics_records env summary d loc org atts s e uid ml = Inr ics"
    and i6: "ics ! 6 = ''DTSTART:'' @ strftime ''%Y%m%dT%H%M%SZ'' su"
    and i7: "ics ! 7 = ''DTEND:'' @ strftime ''%Y%m%dT%H%M%SZ'' eu"
    unfolding ics_records_Inr using su eu by simp
  note ps = to_utc_props [OF su] and pe = to_utc_props [OF eu]
  have ls: "1000 \<le> year su \<longrightarrow> length (strftime ''%Y%m%dT%H%M%SZ'' su) = 16"
    "year su < 1000 \<longrightarrow> length (strftime ''%Y%m%dT%H%M%SZ'' su) < 16"
    "1001 \<le> year s \<longrightarrow> length (strftime ''%Y%m%dT%H%M%SZ'' su) = 16"
    using length_strftime_basic [OF ps(2)] length_strftime_short [OF ps(2)]
      to_utc_year [OF assms(1) su] by blast+
  have le: "1000 \<le> year eu \<longrightarrow> length (strftime ''%Y%m%dT%H%M%SZ'' eu) = 16"
    "year eu < 1000 \<longrightarrow> length (strftime ''%Y%m%dT%H%M%SZ'' eu) < 16"
    "1001 \<le> year e \<longrightarrow> length (strftime ''%Y%m%dT%H%M%SZ'' eu) = 16"
    using length_strftime_basic [OF pe(2)] length_strftime_short [OF pe(2)]
      to_utc_year [OF assms(2) eu] by blast+
  have tot: "total_microseconds su = total_microseconds s - 330 * 60000000"
    "total_microseconds eu = total_microseconds e - 330 * 60000000"
    using ps(1) pe(1) by (simp_all add: DEFAULT_TZ_OFFSET_MINUTES_def)
  have A: "ics_records env summary d loc org atts s e uid ml = Inr ics \<and>
           build_ics env summary d loc org atts s e uid ml = Inr (join CRLF ics) \<and>
           to_utc s DEFAULT_TZ_OFFSET_MINUTES = Inr su \<and> to_utc e DEFAULT_TZ_OFFSET_MINUTES = Inr eu \<and>
           valid_datetime su \<and> valid_datetime eu \<and>
           total_microseconds su = total_microseconds s - 330 * 60000000 \<and>
           total_microseconds eu = total_microseconds e - 330 * 60000000 \<and>
           ics ! 6 = ''DTSTART:'' @ strftime ''%Y%m%dT%H%M%SZ'' su \<and>
           ics ! 7 = ''DTEND:'' @ strftime ''%Y%m%dT%H%M%SZ'' eu \<and>
           strftime ''%Y%m%dT%H%M%SZ'' su =
             show_nat (nat (year su)) @ zero_pad 2 (month su) @ zero_pad 2 (day su) @ ''T'' @
             zero_pad 2 (hour su) @ zero_pad 2 (minute su) @ zero_pad 2 (second su) @ ''Z'' \<and>
           strftime ''%Y%m%dT%H%M%SZ'' eu =
             show_nat (nat (year eu)) @ zero_pad 2 (month eu) @ zero_pad 2 (day eu) @ ''T'' @
             zero_pad 2 (hour eu) @ zero_pad 2 (minute eu) @ zero_pad 2 (second eu) @ ''Z'' \<and>
           length (strftime ''%Y%m%dT%H%M%SZ'' su) = 12 + length (show_nat (nat (year su))) \<and>
           length (strftime ''%Y%m%dT%H%M%SZ'' eu) = 12 + length (show_nat (nat (year eu))) \<and>
           (1000 \<le> year su \<longrightarrow> length (strftime ''%Y%m%dT%H%M%SZ'' su) = 16) \<and>
           (1000 \<le> year eu \<longrightarrow> length (strftime ''%Y%m%dT%H%M%SZ'' eu) = 16) \<and>
           (year su < 1000 \<longrightarrow> length (strftime ''%Y%m%dT%H%M%SZ'' su) < 16) \<and>
           (year eu < 1000 \<longrightarrow> length (strftime ''%Y%m%dT%H%M%SZ'' eu) < 16) \<and>
           (1001 \<le> year s \<longrightarrow> length (strftime ''%Y%m%dT%H%M%SZ'' su) = 16) \<and>
           (1001 \<le> year e \<longrightarrow> length (strftime ''%Y%m%dT%H%M%SZ'' eu) = 16) \<and>
           last (strftime ''%Y%m%dT%H%M%SZ'' su) = CHR ''Z'' \<and>
           last (strftime ''%Y%m%dT%H%M%SZ'' eu) = CHR ''Z''"
    using ics build_ics_Inr [OF ics] su eu ps(2) pe(2) tot i6 i7 ls le
      length_strftime_year [OF ps(2)] length_strftime_year [OF pe(2)]
      strftime_basic [of su] strftime_basic [of eu]
      last_strftime_basic [of su] last_strftime_basic [of eu]
    by (intro conjI) assumption+
  have B: "\<forall>off r. to_utc s off = Inr r \<longrightarrow>
           valid_datetime r \<and> total_microseconds r = total_microseconds s - off * 60000000 \<and>
           (1000 \<le> year r \<longrightarrow> length (strftime ''%Y%m%dT%H%M%SZ'' r) = 16) \<and>
           last (strftime ''%Y%m%dT%H%M%SZ'' r) = CHR ''Z''"
    using to_utc_props(1,2) length_strftime_basic last_strftime_basic by blast
  have C: "\<forall>off. in_datetime_range (total_microseconds s - off * 60000000) \<longrightarrow> (\<exists>r. to_utc s off = Inr r)"
    using to_utc_succeeds [OF assms(1)] by blast
  from A B C show ?thesis by blast
qed

lemma ex_valid: "valid_datetime ex_start" "valid_datetime ex_end"
  by (simp_all add: valid_datetime_def ex_start_def ex_end_def days_in_month_def DAYS_IN_MONTH_def)

lemma ex_in_range:
  "in_datetime_range (total_microseconds ex_start - DEFAULT_TZ_OFFSET_MINUTES * 60000000)"
  "in_datetime_range (total_microseconds ex_end - DEFAULT_TZ_OFFSET_MINUTES * 60000000)"
  by code_simp+

lemma ex_strftime_utc:
  "strftime ''%Y%m%dT%H%M%SZ'' \<lparr>year = 2024, month = 1, day = 10, hour = 3, minute = 30, second = 0,
          microsecond = 0, tzinfo = Some UTC\<rparr> = ''20240110T033000Z''"
  "strftime ''%Y%m%dT%H%M%SZ'' \<lparr>year = 2024, month = 1, day = 10, hour = 4, minute = 0, second = 0,
          microsecond = 0, tzinfo = Some UTC\<rparr> = ''20240110T040000Z''"
  by code_simp+

theorem utc_timestamps_witness:
  "(case ics_records ex_env ''Team Sync'' None (Some []) ''a@x.com'' [''b@x.com'', ''c@x.com'']
           ex_start ex_end (Some ''evt1'') None of
      Inl err \<Rightarrow> False
    | Inr ics \<Rightarrow>
        ics ! 6 = ''DTSTART:20240110T033000Z'' \<and> ics ! 7 = ''DTEND:20240110T040000Z'' \<and>
        length (drop 8 (ics ! 6)) = 16 \<and> length (drop 6 (ics ! 7)) = 16)"
proof -
  from utc_timestamps [OF ex_valid ex_in_range, of ex_env "''Team Sync''" None "Some []" "''a@x.com''"
      "[''b@x.com'', ''c@x.com'']" "Some ''evt1''" None]
  obtain su eu ics where
    h: "ics_records ex_env ''Team Sync'' None (Some []) ''a@x.com'' [''b@x.com'', ''c@x.com'']
           ex_start ex_end (Some ''evt1'') None = Inr ics"
    and su: "to_utc ex_start DEFAULT_TZ_OFFSET_MINUTES = Inr su"
    and eu: "to_utc ex_end DEFAULT_TZ_OFFSET_MINUTES = Inr eu"
    and i6: "ics ! 6 = ''DTSTART:'' @ strftime ''%Y%m%dT%H%M%SZ'' su"
    and i7: "ics ! 7 = ''DTEND:'' @ strftime ''%Y%m%dT%H%M%SZ'' eu"
    and l6: "1001 \<le> year ex_start \<longrightarrow> length (strftime ''%Y%m%dT%H%M%SZ'' su) = 16"
    and l7: "1001 \<le> year ex_end \<longrightarrow> length (strftime ''%Y%m%dT%H%M%SZ'' eu) = 16"
    by blast
  from su eu have f: "strftime ''%Y%m%dT%H%M%SZ'' su = ''20240110T033000Z''"
    "strftime ''%Y%m%dT%H%M%SZ'' eu = ''20240110T040000Z''"
    unfolding ex_start_utc ex_end_utc using ex_strftime_utc by auto
  have "length (strftime ''%Y%m%dT%H%M%SZ'' su) = 16" "length (strftime ''%Y%m%dT%H%M%SZ'' eu) = 16"
    using l6 l7 by (simp_all add: ex_start_def ex_end_def)
  then show ?thesis using i6 i7 f by (simp add: h)
qed

text \<open>
  C1 as stated fails in two ways. For an offset other than 330 minutes: with offset 0 the
  start less the offset is 09:00, printed 20240110T090000Z, and the DTSTART record of the
  document still carries 03:30. And for a year below 1000: the start 0999-06-15T09:00 gives
  the record DTSTART:9990615T033000Z, whose value has 15 characters.
\<close>

theorem utc_offset_counterexample:
  "\<not> isl (ics_records ex_env ''Team Sync'' None None ''a@x.com'' [] ex_start ex_end (Some ''evt1'') None) \<and>
   projr (ics_records ex_env ''Team Sync'' None None ''a@x.com'' [] ex_start ex_end (Some ''evt1'') None) ! 6
     = ''DTSTART:20240110T033000Z'' \<and>
   \<not> isl (to_utc ex_start 0) \<and>
   ''DTSTART:'' @ strftime ''%Y%m%dT%H%M%SZ'' (projr (to_utc ex_start 0)) = ''DTSTART:20240110T090000Z'' \<and>
   valid_datetime (ex_start\<lparr>year := 999, month := 6, day := 15\<rparr>) \<and>
   valid_datetime (ex_end\<lparr>year := 999, month := 6, day := 15\<rparr>) \<and>
   \<not> isl (ics_records ex_env ''Team Sync'' None None ''a@x.com'' []
            (ex_start\<lparr>year := 999, month := 6, day := 15\<rparr>)
            (ex_end\<lparr>year := 999, month := 6, day := 15\<rparr>) (Some ''evt1'') None) \<and>
   projr (ics_records ex_env ''Team Sync'' None None ''a@x.com'' []
            (ex_start\<lparr>year := 999, month := 6, day := 15\<rparr>)
            (ex_end\<lparr>year := 999, month := 6, day := 15\<rparr>) (Some ''evt1'') None) ! 6
     = ''DTSTART:9990615T033000Z'' \<and>
   length ''9990615T033000Z'' = 15"
proof -
  have 1: "to_utc ex_start 0 = Inr (ex_start\<lparr>tzinfo := Some UTC\<rparr>)" by code_simp
  have 2: "strftime ''%Y%m%dT%H%M%SZ'' (ex_start\<lparr>tzinfo := Some UTC\<rparr>) = ''20240110T090000Z''" by code_simp
  have 3: "to_utc (ex_start\<lparr>year := 999, month := 6, day := 15\<rparr>) DEFAULT_TZ_OFFSET_MINUTES =
      Inr \<lparr>year = 999, month = 6, day = 15, hour = 3, minute = 30, second = 0,
           microsecond = 0, tzinfo = Some UTC\<rparr>"
    "to_utc (ex_end\<lparr>year := 999, month := 6, day := 15\<rparr>) DEFAULT_TZ_OFFSET_MINUTES =
      Inr \<lparr>year = 999, month = 6, day = 15, hour = 4, minute = 0, second = 0,
           microsecond = 0, tzinfo = Some UTC\<rparr>"
    by code_simp+
  have 4: "strftime ''%Y%m%dT%H%M%SZ'' \<lparr>year = 999, month = 6, day = 15, hour = 3, minute = 30, second = 0,
           microsecond = 0, tzinfo = Some UTC\<rparr> = ''9990615T033000Z''"
    by code_simp
  have 5: "valid_datetime (ex_start\<lparr>year := 999, month := 6, day := 15\<rparr>)"
    "valid_datetime (ex_end\<lparr>year := 999, month := 6, day := 15\<rparr>)"
    by code_simp+
  show ?thesis
    using 5
    by (simp add: ics_records_def Let_def ex_start_utc ex_end_utc ex_strftime_utc 1 2 3 4
          del: strftime.simps)
qed

section \<open>Selection of the meeting link\<close>

lemma find_video_objs:
  "find_video (map JObj eps) =
     Inr (case filter is_video eps of [] \<Rightarrow> None | v # _ \<Rightarrow> Some (entry_uri v))"
  by (induction eps) (auto simp: py_get_def is_video_def entry_uri_def split: option.splits)

lemma find_video_Some_hd:
  "find_video eps = Inr (Some u) \<Longrightarrow> \<exists>kvs rest. eps = JObj kvs # rest"
  by (cases eps) (auto simp: py_get_def split: json.splits sum.splits if_splits)

lemma extract_body_failure:
  assumes "extract_body created = Inl (err, l)"
  shows "l = JStr []"
proof -
  show ?thesis
  proof (cases "py_get (JObj created) ''conferenceData'' (JObj [])")
    case (Inl a) then show ?thesis using assms by (simp add: extract_body_def)
  next
    case cd: (Inr cd)
    show ?thesis
    proof (cases "py_get cd ''entryPoints'' (JArr [])")
      case (Inl a) then show ?thesis using assms cd by (simp add: extract_body_def)
    next
      case ep: (Inr entry_points)
      show ?thesis
      proof (cases "py_iter entry_points")
        case (Inl a) then show ?thesis using assms cd ep by (simp add: extract_body_def)
      next
        case it: (Inr eps)
        show ?thesis
        proof (cases "find_video eps")
          case (Inl a) then show ?thesis using assms cd ep it by (simp add: extract_body_def)
        next
          case fv: (Inr found)
          show ?thesis
          proof (cases found)
            case None
            then show ?thesis using assms cd ep it fv
              by (auto simp: extract_body_def Let_def split: if_splits sum.splits)
          next
            case (Some u)
            then obtain kvs rest where e: "eps = JObj kvs # rest"
              using find_video_Some_hd fv by blast
            then have "entry_points = JArr (JObj kvs # rest)"
              using it by (auto simp: py_iter_def split: json.splits)
            then show ?thesis using assms cd ep it fv Some
              by (auto simp: extract_body_def Let_def py_index0_def py_get_def split: if_splits)
          qed
        qed
      qed
    qed
  qed
qed


lemma extract_body_wellformed:
  assumes "map_of created ''conferenceData'' = Some (JObj cd)"
    and "map_of cd ''entryPoints'' = Some (JArr (map JObj eps))"
    and "find_video (map JObj eps) = Inr found"
  shows "extract_body created =
           Inr (let l = (case found of None \<Rightarrow> JStr [] | Some u \<Rightarrow> u)
                in if \<not> truthy l \<and> eps \<noteq> [] then first_entry_uri eps else l)"
  using assms
  by (cases eps)
     (simp_all add: extract_body_def py_get_def py_iter_def Let_def py_index0_def
        first_entry_uri_def entry_uri_def truthy_def split: option.splits)

lemma extract_wellformed:
  assumes "map_of created ''conferenceData'' = Some (JObj cd)"
    and "map_of cd ''entryPoints'' = Some (JArr (map JObj eps))"
  shows "extract_meet_link created =
           (if truthy (select_entry_point_spec eps) then select_entry_point_spec eps
            else first_entry_uri eps)"
proof (cases "filter is_video eps")
  case Nil
  have fv: "find_video (map JObj eps) = Inr None" by (simp add: find_video_objs Nil)
  have sp: "select_entry_point_spec eps = first_entry_uri eps"
    by (simp add: select_entry_point_spec_def Nil)
  show ?thesis
    unfolding sp extract_meet_link_def extract_body_wellformed [OF assms fv]
    by (cases eps) (simp_all add: first_entry_uri_def truthy_def)
next
  case (Cons v vs)
  then have ne: "eps \<noteq> []" by auto
  have sp: "select_entry_point_spec eps = entry_uri v"
    by (simp add: select_entry_point_spec_def Cons)
  have fv: "find_video (map JObj eps) = Inr (Some (entry_uri v))"
    by (simp add: find_video_objs Cons)
  show ?thesis
    unfolding sp extract_meet_link_def extract_body_wellformed [OF assms fv]
    using ne by simp
qed


lemma schedule_meeting_returns:
  assumes "service_error w ''calendar'' = None"
    and "strptime w (date @ '' '' @ time_str) = Inr start_dt"
    and "timedelta_minutes dur = Inr td"
    and "datetime_add start_dt td = Inr end_dt"
    and "calendar_insert w (event_body (request_random w) atts summary d loc rr start_dt end_dt) = Inr created"
  shows "\<exists>event_id. schedule_meeting w date time_str dur atts summary d loc rr =
           Inr (extract_meet_link created, event_id, start_dt, end_dt)"
  using assms by (simp add: schedule_meeting_def Let_def py_get_def)

lemma find_video_skip:
  "filter is_video pre = [] \<Longrightarrow> find_video (map JObj pre @ rest) = find_video rest"
  by (induction pre) (auto simp: py_get_def is_video_def split: option.splits if_splits)

lemma find_video_hit: "is_video v \<Longrightarrow> find_video (JObj v # rest) = Inr (Some (entry_uri v))"
  by (simp add: py_get_def is_video_def entry_uri_def)

lemma find_video_bad: "\<forall>kvs. x \<noteq> JObj kvs \<Longrightarrow> find_video (x # rest) = Inl AttributeError"
  by (cases x) (simp_all add: py_get_def)

lemma extract_list:
  assumes "map_of created ''conferenceData'' = Some (JObj cd)"
    and "map_of cd ''entryPoints'' = Some (JArr xs)"
  shows "extract_body created =
    (case find_video xs of
       Inl e \<Rightarrow> Inl (e, JStr [])
     | Inr found \<Rightarrow>
        (let l = (case found of None \<Rightarrow> JStr [] | Some u \<Rightarrow> u)
         in if \<not> truthy l \<and> xs \<noteq> []
            then (case py_get (hd xs) ''uri'' (JStr []) of Inl e \<Rightarrow> Inl (e, l) | Inr u \<Rightarrow> Inr u)
            else Inr l))"
proof -
  have 1: "py_get (JObj created) ''conferenceData'' (JObj []) = Inr (JObj cd)"
    using assms(1) by (simp add: py_get_def)
  have 2: "py_get (JObj cd) ''entryPoints'' (JArr []) = Inr (JArr xs)"
    using assms(2) by (simp add: py_get_def)
  have 3: "py_iter (JArr xs) = Inr xs" by (simp add: py_iter_def)
  have 4: "truthy (JArr xs) \<longleftrightarrow> xs \<noteq> []" by (simp add: truthy_def)
  have 5: "py_index0 (JArr xs) = (if xs = [] then Inl IndexError else Inr (hd xs))"
    by (cases xs) (simp_all add: py_index0_def)
  show ?thesis
  proof (cases "find_video xs")
    case (Inl e) then show ?thesis by (simp add: extract_body_def 1 2 3)
  next
    case (Inr found)
    show ?thesis by (simp add: extract_body_def 1 2 3 4 5 Inr Let_def)
  qed
qed

lemma extract_video:
  assumes "map_of created ''conferenceData'' = Some (JObj cd)"
    and "map_of cd ''entryPoints'' = Some (JArr xs)"
    and "xs = map JObj pre @ JObj v # rest" and "filter is_video pre = []" and "is_video v"
  shows "extract_meet_link created =
           (if truthy (entry_uri v) then entry_uri v else first_entry_uri (pre @ [v]))"
proof -
  have fv: "find_video xs = Inr (Some (entry_uri v))"
    unfolding assms(3) by (simp only: find_video_skip [OF assms(4)] find_video_hit [OF assms(5)])
  have ne: "xs \<noteq> []" using assms(3) by simp
  have hd: "py_get (hd xs) ''uri'' (JStr []) = Inr (first_entry_uri (pre @ [v]))"
    unfolding assms(3) by (cases pre) (simp_all add: py_get_def first_entry_uri_def entry_uri_def)
  show ?thesis
    unfolding extract_meet_link_def extract_list [OF assms(1,2)] fv
    using ne by (simp add: hd)
qed

lemma extract_no_video:
  assumes "map_of created ''conferenceData'' = Some (JObj cd)"
    and "map_of cd ''entryPoints'' = Some (JArr xs)"
    and "xs = map JObj eps" and "filter is_video eps = []"
  shows "extract_meet_link created = first_entry_uri eps"
proof -
  have fv: "find_video xs = Inr None"
    unfolding assms(3) by (simp add: find_video_objs assms(4))
  have hd: "eps \<noteq> [] \<Longrightarrow> py_get (hd xs) ''uri'' (JStr []) = Inr (first_entry_uri eps)"
    unfolding assms(3) by (cases eps) (simp_all add: py_get_def first_entry_uri_def entry_uri_def)
  have e: "eps = [] \<Longrightarrow> first_entry_uri eps = JStr []" by (simp add: first_entry_uri_def)
  have t: "\<not> truthy (JStr [])" by (simp add: truthy_def)
  show ?thesis
    unfolding extract_meet_link_def extract_list [OF assms(1,2)] fv
    using hd e t assms(3) by (cases "eps = []") simp_all
qed

lemma extract_not_dict:
  assumes "map_of created ''conferenceData'' = Some (JObj cd)"
    and "map_of cd ''entryPoints'' = Some (JArr xs)"
    and "xs = map JObj pre @ x # rest" and "filter is_video pre = []" and "\<forall>kvs. x \<noteq> JObj kvs"
  shows "extract_meet_link created = JStr []"
proof -
  have fv: "find_video xs = Inl AttributeError"
    unfolding assms(3) by (simp only: find_video_skip [OF assms(4)] find_video_bad [OF assms(5)])
  show ?thesis
    unfolding extract_meet_link_def extract_list [OF assms(1,2)] fv by simp
qed

lemma extract_no_conference_data:
  "map_of created ''conferenceData'' = None \<Longrightarrow> extract_meet_link created = JStr []"
  by (simp add: extract_meet_link_def extract_body_def py_get_def py_iter_def Let_def truthy_def)

lemma extract_conference_data_not_dict:
  "map_of created ''conferenceData'' = Some c \<Longrightarrow> \<forall>kvs. c \<noteq> JObj kvs \<Longrightarrow>
   extract_meet_link created = JStr []"
  by (cases c) (simp_all add: extract_meet_link_def extract_body_def py_get_def)

lemma extract_no_entry_points:
  "map_of created ''conferenceData'' = Some (JObj cd) \<Longrightarrow> map_of cd ''entryPoints'' = None \<Longrightarrow>
   extract_meet_link created = JStr []"
  by (simp add: extract_meet_link_def extract_body_def py_get_def py_iter_def Let_def truthy_def)

lemma extract_entry_points_not_list:
  assumes "map_of created ''conferenceData'' = Some (JObj cd)"
    and "map_of cd ''entryPoints'' = Some x" and "\<forall>xs. x \<noteq> JArr xs"
  shows "extract_meet_link created = JStr []"
proof (cases x)
  case (JStr cs)
  show ?thesis using assms(1,2) JStr
    by (cases cs) (simp_all add: extract_meet_link_def extract_body_def py_iter_def py_get_def truthy_def Let_def)
next
  case (JObj kvs)
  show ?thesis using assms(1,2) JObj
    by (cases kvs) (simp_all add: extract_meet_link_def extract_body_def py_iter_def py_get_def truthy_def Let_def)
next
  case (JArr xs) then show ?thesis using assms(3) by simp
qed (use assms(1,2) in \<open>simp_all add: extract_meet_link_def extract_body_def py_get_def py_iter_def\<close>)

lemma entry_points_shape:
  "(\<exists>pre v rest. xs = map JObj pre @ JObj v # rest \<and> filter is_video pre = [] \<and> is_video v) \<or>
   (\<exists>eps. xs = map JObj eps \<and> filter is_video eps = []) \<or>
   (\<exists>pre x rest. xs = map JObj pre @ x # rest \<and> filter is_video pre = [] \<and> (\<forall>kvs. x \<noteq> JObj kvs))"
  (is "?V xs \<or> ?N xs \<or> ?B xs")
proof (induction xs)
  case Nil
  have "[] = map JObj [] \<and> filter is_video [] = []" by simp
  then have "?N []" by (rule exI)
  then show ?case by (intro disjI2 disjI1)
next
  case (Cons a xs)
  show ?case
  proof (cases "\<exists>kvs. a = JObj kvs")
    case False
    then have "a # xs = map JObj [] @ a # xs \<and> filter is_video [] = [] \<and> (\<forall>kvs. a \<noteq> JObj kvs)"
      by simp
    then have "?B (a # xs)" by (intro exI)
    then show ?thesis by (intro disjI2)
  next
    case True
    then obtain kvs where a: "a = JObj kvs" by (rule exE)
    show ?thesis
    proof (cases "is_video kvs")
      case True
      then have "a # xs = map JObj [] @ JObj kvs # xs \<and> filter is_video [] = [] \<and> is_video kvs"
        using a by simp
      then have "?V (a # xs)" by (intro exI)
      then show ?thesis by (intro disjI1)
    next
      case nv: False
      from Cons.IH show ?thesis
      proof (elim disjE exE conjE)
        fix pre v rest
        assume "xs = map JObj pre @ JObj v # rest" "filter is_video pre = []" "is_video v"
        then have "a # xs = map JObj (kvs # pre) @ JObj v # rest \<and> filter is_video (kvs # pre) = [] \<and> is_video v"
          using a nv by simp
        then have "?V (a # xs)" by (intro exI)
        then show ?thesis by (intro disjI1)
      next
        fix eps
        assume "xs = map JObj eps" "filter is_video eps = []"
        then have "a # xs = map JObj (kvs # eps) \<and> filter is_video (kvs # eps) = []"
          using a nv by simp
        then have "?N (a # xs)" by (intro exI)
        then show ?thesis by (intro disjI2 disjI1)
      next
        fix pre x rest
        assume "xs = map JObj pre @ x # rest" "filter is_video pre = []" "\<forall>kvs. x \<noteq> JObj kvs"
        then have "a # xs = map JObj (kvs # pre) @ x # rest \<and> filter is_video (kvs # pre) = [] \<and>
                   (\<forall>kvs. x \<noteq> JObj kvs)"
          using a nv by simp
        then have "?B (a # xs)" by (intro exI)
        then show ?thesis by (intro disjI2)
      qed
    qed
  qed
qed

lemma extract_dicts:
  assumes "map_of created ''conferenceData'' = Some (JObj cd)"
    and "map_of cd ''entryPoints'' = Some (JArr xs)" and "xs = map JObj eps"
  shows "extract_meet_link created =
        (if truthy (select_entry_point_spec eps) then select_entry_point_spec eps
         else first_entry_uri eps) \<and>
      (filter is_video eps = [] \<or> truthy (select_entry_point_spec eps) \<longrightarrow>
         extract_meet_link created = select_entry_point_spec eps) \<and>
      (eps = [] \<longrightarrow> extract_meet_link created = JStr [])"
proof -
  note e = extract_wellformed [OF assms(1) assms(2) [unfolded assms(3)]]
  have "filter is_video eps = [] \<Longrightarrow> select_entry_point_spec eps = first_entry_uri eps"
    by (simp add: select_entry_point_spec_def)
  then show ?thesis
    using e by (auto simp: select_entry_point_spec_def first_entry_uri_def)
qed

text \<open>
  C6, amended. The extraction never raises, and the link is fixed for every answer of the
  calendar. It is the empty string when the conference data is missing or is not a dict,
  and when the entry points are missing or are not a list. For a list of entry points,
  read from the front: if an element that is not a dict comes before any dict of type
  "video", the extraction raises and the link is the empty string; if the first dict of
  type "video" comes before any such element, the link is its uri when that uri is true
  (not missing, not empty), and the uri of the first entry point otherwise; if all
  elements are dicts and none is of type "video", the link is the uri of the first entry
  point, and the empty string for the empty list. Every list has one of these three
  shapes. So on a list of dicts the link is the selection of the specification whenever
  that selection is not empty or no entry point is of type "video". Whenever a step of the
  extraction raises, the link is the empty string, and \<open>schedule_meeting\<close> returns its
  result with that link.
\<close>

theorem meet_link_selection:
  "(map_of created ''conferenceData'' = None \<longrightarrow> extract_meet_link created = JStr []) \<and>
   (\<forall>c. map_of created ''conferenceData'' = Some c \<and> (\<forall>kvs. c \<noteq> JObj kvs) \<longrightarrow>
      extract_meet_link created = JStr []) \<and>
   (\<forall>cd. map_of created ''conferenceData'' = Some (JObj cd) \<longrightarrow>
      (map_of cd ''entryPoints'' = None \<longrightarrow> extract_meet_link created = JStr []) \<and>
      (\<forall>x. map_of cd ''entryPoints'' = Some x \<and> (\<forall>xs. x \<noteq> JArr xs) \<longrightarrow>
         extract_meet_link created = JStr []) \<and>
      (\<forall>xs. map_of cd ''entryPoints'' = Some (JArr xs) \<longrightarrow>
         (\<forall>pre v rest. xs = map JObj pre @ JObj v # rest \<and> filter is_video pre = [] \<and> is_video v \<longrightarrow>
            extract_meet_link created =
              (if truthy (entry_uri v) then entry_uri v else first_entry_uri (pre @ [v]))) \<and>
         (\<forall>eps. xs = map JObj eps \<and> filter is_video eps = [] \<longrightarrow>
            extract_meet_link created = first_entry_uri eps) \<and>
         (\<forall>pre x rest. xs = map JObj pre @ x # rest \<and> filter is_video pre = [] \<and>
                        (\<forall>kvs. x \<noteq> JObj kvs) \<longrightarrow>
            extract_meet_link created = JStr []) \<and>
         (\<forall>eps. xs = map JObj eps \<longrightarrow>
            extract_meet_link created =
              (if truthy (select_entry_point_spec eps) then select_entry_point_spec eps
               else first_entry_uri eps) \<and>
            (filter is_video eps = [] \<or> truthy (select_entry_point_spec eps) \<longrightarrow>
               extract_meet_link created = select_entry_point_spec eps) \<and>
            (eps = [] \<longrightarrow> extract_meet_link created = JStr [])))) \<and>
   (\<forall>xs. (\<exists>pre v rest. xs = map JObj pre @ JObj v # rest \<and> filter is_video pre = [] \<and> is_video v) \<or>
         (\<exists>eps. xs = map JObj eps \<and> filter is_video eps = []) \<or>
         (\<exists>pre x rest. xs = map JObj pre @ x # rest \<and> filter is_video pre = [] \<and>
                        (\<forall>kvs. x \<noteq> JObj kvs))) \<and>
   (\<forall>err l. extract_body created = Inl (err, l) \<longrightarrow> l = JStr [] \<and> extract_meet_link created = JStr []) \<and>
   (service_error w ''calendar'' = None \<and>
    strptime w (date @ '' '' @ time_str) = Inr start_dt \<and>
    timedelta_minutes dur = Inr td \<and>
    datetime_add start_dt td = Inr end_dt \<and>
    calendar_insert w (event_body (request_random w) atts summary d loc rr start_dt end_dt) = Inr created \<longrightarrow>
      (\<exists>event_id. schedule_meeting w date time_str dur atts summary d loc rr =
         Inr (extract_meet_link created, event_id, start_dt, end_dt)))"
proof -
  have A: "map_of created ''conferenceData'' = None \<longrightarrow> extract_meet_link created = JStr []"
    using extract_no_conference_data by blast
  have B: "\<forall>c. map_of created ''conferenceData'' = Some c \<and> (\<forall>kvs. c \<noteq> JObj kvs) \<longrightarrow>
      extract_meet_link created = JStr []"
    using extract_conference_data_not_dict by blast
  have C: "\<forall>cd. map_of created ''conferenceData'' = Some (JObj cd) \<longrightarrow>
      (map_of cd ''entryPoints'' = None \<longrightarrow> extract_meet_link created = JStr []) \<and>
      (\<forall>x. map_of cd ''entryPoints'' = Some x \<and> (\<forall>xs. x \<noteq> JArr xs) \<longrightarrow>
         extract_meet_link created = JStr []) \<and>
      (\<forall>xs. map_of cd ''entryPoints'' = Some (JArr xs) \<longrightarrow>
         (\<forall>pre v rest. xs = map JObj pre @ JObj v # rest \<and> filter is_video pre = [] \<and> is_video v \<longrightarrow>
            extract_meet_link created =
              (if truthy (entry_uri v) then entry_uri v else first_entry_uri (pre @ [v]))) \<and>
         (\<forall>eps. xs = map JObj eps \<and> filter is_video eps = [] \<longrightarrow>
            extract_meet_link created = first_entry_uri eps) \<and>
         (\<forall>pre x rest. xs = map JObj pre @ x # rest \<and> filter is_video pre = [] \<and>
                        (\<forall>kvs. x \<noteq> JObj kvs) \<longrightarrow>
            extract_meet_link created = JStr []) \<and>
         (\<forall>eps. xs = map JObj eps \<longrightarrow>
            extract_meet_link created =
              (if truthy (select_entry_point_spec eps) then select_entry_point_spec eps
               else first_entry_uri eps) \<and>
            (filter is_video eps = [] \<or> truthy (select_entry_point_spec eps) \<longrightarrow>
               extract_meet_link created = select_entry_point_spec eps) \<and>
            (eps = [] \<longrightarrow> extract_meet_link created = JStr [])))"
  proof (intro allI impI)
    fix cd assume cd: "map_of created ''conferenceData'' = Some (JObj cd)"
    have c1: "map_of cd ''entryPoints'' = None \<longrightarrow> extract_meet_link created = JStr []"
      using extract_no_entry_points [OF cd] by blast
    have c2: "\<forall>x. map_of cd ''entryPoints'' = Some x \<and> (\<forall>xs. x \<noteq> JArr xs) \<longrightarrow>
         extract_meet_link created = JStr []"
      using extract_entry_points_not_list [OF cd] by blast
    have c3: "\<forall>xs. map_of cd ''entryPoints'' = Some (JArr xs) \<longrightarrow>
         (\<forall>pre v rest. xs = map JObj pre @ JObj v # rest \<and> filter is_video pre = [] \<and> is_video v \<longrightarrow>
            extract_meet_link created =
              (if truthy (entry_uri v) then entry_uri v else first_entry_uri (pre @ [v]))) \<and>
         (\<forall>eps. xs = map JObj eps \<and> filter is_video eps = [] \<longrightarrow>
            extract_meet_link created = first_entry_uri eps) \<and>
         (\<forall>pre x rest. xs = map JObj pre @ x # rest \<and> filter is_video pre = [] \<and>
                        (\<forall>kvs. x \<noteq> JObj kvs) \<longrightarrow>
            extract_meet_link created = JStr []) \<and>
         (\<forall>eps. xs = map JObj eps \<longrightarrow>
            extract_meet_link created =
              (if truthy (select_entry_point_spec eps) then select_entry_point_spec eps
               else first_entry_uri eps) \<and>
            (filter is_video eps = [] \<or> truthy (select_entry_point_spec eps) \<longrightarrow>
               extract_meet_link created = select_entry_point_spec eps) \<and>
            (eps = [] \<longrightarrow> extract_meet_link created = JStr []))"
    proof (intro allI impI)
      fix xs assume xs: "map_of cd ''entryPoints'' = Some (JArr xs)"
      have d1: "\<forall>pre v rest. xs = map JObj pre @ JObj v # rest \<and> filter is_video pre = [] \<and> is_video v \<longrightarrow>
            extract_meet_link created =
              (if truthy (entry_uri v) then entry_uri v else first_entry_uri (pre @ [v]))"
        using extract_video [OF cd xs] by blast
      have d2: "\<forall>eps. xs = map JObj eps \<and> filter is_video eps = [] \<longrightarrow>
            extract_meet_link created = first_entry_uri eps"
        using extract_no_video [OF cd xs] by blast
      have d3: "\<forall>pre x rest. xs = map JObj pre @ x # rest \<and> filter is_video pre = [] \<and>
                        (\<forall>kvs. x \<noteq> JObj kvs) \<longrightarrow>
            extract_meet_link created = JStr []"
        using extract_not_dict [OF cd xs] by blast
      have d4: "\<forall>eps. xs = map JObj eps \<longrightarrow>
            extract_meet_link created =
              (if truthy (select_entry_point_spec eps) then select_entry_point_spec eps
               else first_entry_uri eps) \<and>
            (filter is_video eps = [] \<or> truthy (select_entry_point_spec eps) \<longrightarrow>
               extract_meet_link created = select_entry_point_spec eps) \<and>
            (eps = [] \<longrightarrow> extract_meet_link created = JStr [])"
        using extract_dicts [OF cd xs] by blast
      from d1 d2 d3 d4 show "(\<forall>pre v rest. xs = map JObj pre @ JObj v # rest \<and> filter is_video pre = [] \<and> is_video v \<longrightarrow>
            extract_meet_link created =
              (if truthy (entry_uri v) then entry_uri v else first_entry_uri (pre @ [v]))) \<and>
         (\<forall>eps. xs = map JObj eps \<and> filter is_video eps = [] \<longrightarrow>
            extract_meet_link created = first_entry_uri eps) \<and>
         (\<forall>pre x rest. xs = map JObj pre @ x # rest \<and> filter is_video pre = [] \<and>
                        (\<forall>kvs. x \<noteq> JObj kvs) \<longrightarrow>
            extract_meet_link created = JStr []) \<and>
         (\<forall>eps. xs = map JObj eps \<longrightarrow>
            extract_meet_link created =
              (if truthy (select_entry_point_spec eps) then select_entry_point_spec eps
               else first_entry_uri eps) \<and>
            (filter is_video eps = [] \<or> truthy (select_entry_point_spec eps) \<longrightarrow>
               extract_meet_link created = select_entry_point_spec eps) \<and>
            (eps = [] \<longrightarrow> extract_meet_link created = JStr []))"
        by (intro conjI)
    qed
    from c1 c2 c3 show "(map_of cd ''entryPoints'' = None \<longrightarrow> extract_meet_link created = JStr []) \<and>
      (\<forall>x. map_of cd ''entryPoints'' = Some x \<and> (\<forall>xs. x \<noteq> JArr xs) \<longrightarrow>
         extract_meet_link created = JStr []) \<and>
      (\<forall>xs. map_of cd ''entryPoints'' = Some (JArr xs) \<longrightarrow>
         (\<forall>pre v rest. xs = map JObj pre @ JObj v # rest \<and> filter is_video pre = [] \<and> is_video v \<longrightarrow>
            extract_meet_link created =
              (if truthy (entry_uri v) then entry_uri v else first_entry_uri (pre @ [v]))) \<and>
         (\<forall>eps. xs = map JObj eps \<and> filter is_video eps = [] \<longrightarrow>
            extract_meet_link created = first_entry_uri eps) \<and>
         (\<forall>pre x rest. xs = map JObj pre @ x # rest \<and> filter is_video pre = [] \<and>
                        (\<forall>kvs. x \<noteq> JObj kvs) \<longrightarrow>
            extract_meet_link created = JStr []) \<and>
         (\<forall>eps. xs = map JObj eps \<longrightarrow>
            extract_meet_link created =
              (if truthy (select_entry_point_spec eps) then select_entry_point_spec eps
               else first_entry_uri eps) \<and>
            (filter is_video eps = [] \<or> truthy (select_entry_point_spec eps) \<longrightarrow>
               extract_meet_link created = select_entry_point_spec eps) \<and>
            (eps = [] \<longrightarrow> extract_meet_link created = JStr [])))"
      by (intro conjI)
  qed
  have S: "\<forall>xs. (\<exists>pre v rest. xs = map JObj pre @ JObj v # rest \<and> filter is_video pre = [] \<and> is_video v) \<or>
         (\<exists>eps. xs = map JObj eps \<and> filter is_video eps = []) \<or>
         (\<exists>pre x rest. xs = map JObj pre @ x # rest \<and> filter is_video pre = [] \<and>
                        (\<forall>kvs. x \<noteq> JObj kvs))"
    using entry_points_shape by (intro allI)
  have F: "\<forall>err l. extract_body created = Inl (err, l) \<longrightarrow> l = JStr [] \<and> extract_meet_link created = JStr []"
    using extract_body_failure by (auto simp: extract_meet_link_def)
  have D: "service_error w ''calendar'' = None \<and>
    strptime w (date @ '' '' @ time_str) = Inr start_dt \<and>
    timedelta_minutes dur = Inr td \<and>
    datetime_add start_dt td = Inr end_dt \<and>
    calendar_insert w (event_body (request_random w) atts summary d loc rr start_dt end_dt) = Inr created \<longrightarrow>
      (\<exists>event_id. schedule_meeting w date time_str dur atts summary d loc rr =
         Inr (extract_meet_link created, event_id, start_dt, end_dt))"
    using schedule_meeting_returns by blast
  from A B C S F D show ?thesis by (intro conjI)
qed

text \<open>
  C6 as stated fails when the first video entry point has an empty uri and is not the
  first entry point: the code takes the uri of the first entry point, here a telephone
  number, where the selection of the specification is the (empty) uri of the video entry.
\<close>

theorem meet_link_counterexample:
  "extract_meet_link ex_created = JStr ''tel:+1-555-0100'' \<and>
   select_entry_point_spec
     [[(''entryPointType'', JStr ''phone''), (''uri'', JStr ''tel:+1-555-0100'')],
      [(''entryPointType'', JStr ''video''), (''uri'', JStr [])]] = JStr []"
  by (simp add: ex_created_def extract_meet_link_def extract_body_def py_get_def py_iter_def
        Let_def truthy_def py_index0_def select_entry_point_spec_def is_video_def entry_uri_def)


lemma ex_add_duration: "timedelta_minutes 30 = Inr \<lparr>td_days = 0, td_seconds = 1800, td_microseconds = 0\<rparr>"
  "datetime_add ex_start \<lparr>td_days = 0, td_seconds = 1800, td_microseconds = 0\<rparr> = Inr ex_end"
  by code_simp+

theorem meet_link_selection_witness:
  "extract_meet_link ex_created_ok = JStr ''https://meet.example/a-b-c'' \<and>
   extract_meet_link [(''id'', JStr ''evt1'')] = JStr [] \<and>
   extract_body [(''conferenceData'', JNull)] = Inl (AttributeError, JStr []) \<and>
   extract_meet_link [(''conferenceData'', JNull)] = JStr [] \<and>
   extract_meet_link [(''conferenceData'', JObj [])] = JStr [] \<and>
   extract_meet_link [(''conferenceData'', JObj [(''entryPoints'', JNum 5)])] = JStr [] \<and>
   extract_meet_link
     [(''conferenceData'', JObj [(''entryPoints'',
        JArr [JObj [(''entryPointType'', JStr ''video''), (''uri'', JStr ''https://meet.example/a-b-c'')],
              JNum 5])])] = JStr ''https://meet.example/a-b-c'' \<and>
   extract_meet_link
     [(''conferenceData'', JObj [(''entryPoints'',
        JArr [JNum 5,
              JObj [(''entryPointType'', JStr ''video''), (''uri'', JStr ''https://meet.example/a-b-c'')]])])] =
     JStr [] \<and>
   extract_meet_link
     [(''conferenceData'', JObj [(''entryPoints'',
        JArr [JObj [(''entryPointType'', JStr ''phone''), (''uri'', JStr ''tel:+1-555-0100'')]])])] =
     JStr ''tel:+1-555-0100'' \<and>
   (\<exists>event_id. schedule_meeting ex_world ''2024-01-10'' ''09:00'' 30 [''b@x.com''] ''Team Sync'' None None None =
      Inr (JStr ''https://meet.example/a-b-c'', event_id, ex_start, ex_end))"
proof -
  let ?ep = "[(''entryPointType'', JStr ''video''), (''uri'', JStr ''https://meet.example/a-b-c'')]"
  let ?ph = "[(''entryPointType'', JStr ''phone''), (''uri'', JStr ''tel:+1-555-0100'')]"
  have v: "is_video ?ep" "\<not> is_video ?ph" by (simp_all add: is_video_def)
  have u: "entry_uri ?ep = JStr ''https://meet.example/a-b-c''" "truthy (entry_uri ?ep)"
    "first_entry_uri [?ph] = JStr ''tel:+1-555-0100''"
    by (simp_all add: entry_uri_def first_entry_uri_def truthy_def)
  have n5: "\<forall>kvs. JNum 5 \<noteq> JObj kvs" "\<forall>xs. JNum 5 \<noteq> JArr xs" "\<forall>kvs. JNull \<noteq> JObj kvs" by simp_all
  have 1: "extract_meet_link ex_created_ok = JStr ''https://meet.example/a-b-c''"
  proof -
    have m: "map_of ex_created_ok ''conferenceData'' = Some (JObj [(''entryPoints'', JArr [JObj ?ep])])"
      "map_of [(''entryPoints'', JArr [JObj ?ep])] ''entryPoints'' = Some (JArr [JObj ?ep])"
      "[JObj ?ep] = map JObj [] @ JObj ?ep # []" "filter is_video [] = []"
      by (simp_all add: ex_created_ok_def)
    note L = meet_link_selection [where created = ex_created_ok, THEN conjunct2, THEN conjunct2,
        THEN conjunct1, THEN spec, THEN mp, OF m(1), THEN conjunct2, THEN conjunct2, THEN spec,
        THEN mp, OF m(2)]
    from L [THEN conjunct1, THEN spec, THEN spec, THEN spec, THEN mp,
        OF conjI [OF m(3) conjI [OF m(4) v(1)]]]
    show ?thesis using u by simp
  qed
  have 2: "extract_meet_link [(''id'', JStr ''evt1'')] = JStr []"
    using meet_link_selection [where created = "[(''id'', JStr ''evt1'')]", THEN conjunct1] by simp
  have f: "extract_body [(''conferenceData'', JNull)] = Inl (AttributeError, JStr [])"
    by (simp add: extract_body_def py_get_def)
  have 3: "extract_meet_link [(''conferenceData'', JNull)] = JStr []"
  proof -
    have m: "map_of [(''conferenceData'', JNull)] ''conferenceData'' = Some JNull" by simp
    from meet_link_selection [where created = "[(''conferenceData'', JNull)]", THEN conjunct2,
        THEN conjunct1, THEN spec, THEN mp, OF conjI [OF m n5(3)]]
    show ?thesis .
  qed
  have 4: "extract_meet_link [(''conferenceData'', JObj [])] = JStr []"
  proof -
    have m: "map_of [(''conferenceData'', JObj [])] ''conferenceData'' = Some (JObj [])"
      "map_of ([] :: (string \<times> json) list) ''entryPoints'' = None" by simp_all
    from meet_link_selection [where created = "[(''conferenceData'', JObj [])]", THEN conjunct2,
        THEN conjunct2, THEN conjunct1, THEN spec, THEN mp, OF m(1), THEN conjunct1, THEN mp, OF m(2)]
    show ?thesis .
  qed
  have 5: "extract_meet_link [(''conferenceData'', JObj [(''entryPoints'', JNum 5)])] = JStr []"
  proof -
    have m: "map_of [(''conferenceData'', JObj [(''entryPoints'', JNum 5)])] ''conferenceData'' =
        Some (JObj [(''entryPoints'', JNum 5)])"
      "map_of [(''entryPoints'', JNum 5)] ''entryPoints'' = Some (JNum 5)" by simp_all
    from meet_link_selection [where created = "[(''conferenceData'', JObj [(''entryPoints'', JNum 5)])]",
        THEN conjunct2, THEN conjunct2, THEN conjunct1, THEN spec, THEN mp, OF m(1),
        THEN conjunct2, THEN conjunct1, THEN spec, THEN mp, OF conjI [OF m(2) n5(2)]]
    show ?thesis .
  qed
  have 6: "extract_meet_link
     [(''conferenceData'', JObj [(''entryPoints'', JArr [JObj ?ep, JNum 5])])] =
     JStr ''https://meet.example/a-b-c''"
  proof -
    have m: "map_of [(''conferenceData'', JObj [(''entryPoints'', JArr [JObj ?ep, JNum 5])])] ''conferenceData'' =
        Some (JObj [(''entryPoints'', JArr [JObj ?ep, JNum 5])])"
      "map_of [(''entryPoints'', JArr [JObj ?ep, JNum 5])] ''entryPoints'' = Some (JArr [JObj ?ep, JNum 5])"
      "[JObj ?ep, JNum 5] = map JObj [] @ JObj ?ep # [JNum 5]" "filter is_video [] = []"
      by simp_all
    note L = meet_link_selection
      [where created = "[(''conferenceData'', JObj [(''entryPoints'', JArr [JObj ?ep, JNum 5])])]",
        THEN conjunct2, THEN conjunct2, THEN conjunct1, THEN spec, THEN mp, OF m(1),
        THEN conjunct2, THEN conjunct2, THEN spec, THEN mp, OF m(2)]
    from L [THEN conjunct1, THEN spec, THEN spec, THEN spec, THEN mp,
        OF conjI [OF m(3) conjI [OF m(4) v(1)]]]
    show ?thesis using u by simp
  qed
  have 7: "extract_meet_link
     [(''conferenceData'', JObj [(''entryPoints'', JArr [JNum 5, JObj ?ep])])] = JStr []"
  proof -
    have m: "map_of [(''conferenceData'', JObj [(''entryPoints'', JArr [JNum 5, JObj ?ep])])] ''conferenceData'' =
        Some (JObj [(''entryPoints'', JArr [JNum 5, JObj ?ep])])"
      "map_of [(''entryPoints'', JArr [JNum 5, JObj ?ep])] ''entryPoints'' = Some (JArr [JNum 5, JObj ?ep])"
      "[JNum 5, JObj ?ep] = map JObj [] @ JNum 5 # [JObj ?ep]" "filter is_video [] = []"
      by simp_all
    note L = meet_link_selection
      [where created = "[(''conferenceData'', JObj [(''entryPoints'', JArr [JNum 5, JObj ?ep])])]",
        THEN conjunct2, THEN conjunct2, THEN conjunct1, THEN spec, THEN mp, OF m(1),
        THEN conjunct2, THEN conjunct2, THEN spec, THEN mp, OF m(2)]
    from L [THEN conjunct2, THEN conjunct2, THEN conjunct1, THEN spec, THEN spec, THEN spec, THEN mp,
        OF conjI [OF m(3) conjI [OF m(4) n5(1)]]]
    show ?thesis .
  qed
  have 8: "extract_meet_link
     [(''conferenceData'', JObj [(''entryPoints'', JArr [JObj ?ph])])] = JStr ''tel:+1-555-0100''"
  proof -
    have m: "map_of [(''conferenceData'', JObj [(''entryPoints'', JArr [JObj ?ph])])] ''conferenceData'' =
        Some (JObj [(''entryPoints'', JArr [JObj ?ph])])"
      "map_of [(''entryPoints'', JArr [JObj ?ph])] ''entryPoints'' = Some (JArr [JObj ?ph])"
      "[JObj ?ph] = map JObj [?ph]" "filter is_video [?ph] = []"
      using v(2) by simp_all
    note L = meet_link_selection
      [where created = "[(''conferenceData'', JObj [(''entryPoints'', JArr [JObj ?ph])])]",
        THEN conjunct2, THEN conjunct2, THEN conjunct1, THEN spec, THEN mp, OF m(1),
        THEN conjunct2, THEN conjunct2, THEN spec, THEN mp, OF m(2)]
    from L [THEN conjunct2, THEN conjunct1, THEN spec, THEN mp, OF conjI [OF m(3) m(4)]]
    show ?thesis using u by simp
  qed
  have 9: "\<exists>event_id. schedule_meeting ex_world ''2024-01-10'' ''09:00'' 30 [''b@x.com''] ''Team Sync'' None None None =
      Inr (extract_meet_link ex_created_ok, event_id, ex_start, ex_end)"
  proof -
    have h: "service_error ex_world ''calendar'' = None \<and>
      strptime ex_world (''2024-01-10'' @ '' '' @ ''09:00'') = Inr ex_start \<and>
      timedelta_minutes 30 = Inr \<lparr>td_days = 0, td_seconds = 1800, td_microseconds = 0\<rparr> \<and>
      datetime_add ex_start \<lparr>td_days = 0, td_seconds = 1800, td_microseconds = 0\<rparr> = Inr ex_end \<and>
      calendar_insert ex_world (event_body (request_random ex_world) [''b@x.com''] ''Team Sync'' None None None
         ex_start ex_end) = Inr ex_created_ok"
      using ex_add_duration by (simp add: ex_world_def)
    from meet_link_selection [where created = ex_created_ok, THEN conjunct2, THEN conjunct2,
        THEN conjunct2, THEN conjunct2, THEN conjunct2, THEN mp, OF h]
    show ?thesis .
  qed
  show ?thesis using 1 2 f 3 4 5 6 7 8 9 by simp
qed

section \<open>The attendee loop\<close>

lemma email_loop_all_sent:
  "(\<forall>k < length atts. send_failure w st k = None) \<Longrightarrow>
   email_loop w atts subject html ics_text st =
     Inr (st\<lparr>ui := ui st @ map CustomEmailSentTo atts,
             attempted := attempted st @ invite_messages atts subject html ics_text,
             sent := sent st @ invite_messages atts subject html ics_text\<rparr>)"
proof (induction atts arbitrary: st)
  case Nil
  then show ?case by (simp add: invite_messages_def)
next
  case (Cons a atts)
  let ?m = "\<lparr>msg_to = a, msg_subject = subject, msg_html = html, msg_ics = ics_text\<rparr>"
  let ?st1 = "st\<lparr>attempted := attempted st @ [?m], sent := sent st @ [?m], ui := ui st @ [CustomEmailSentTo a]\<rparr>"
  from Cons.prems have 0: "send_failure w st 0 = None" by auto
  then have se: "service_error w ''gmail'' = None" "send_error w (length (attempted st)) = None"
    by (auto simp: send_failure_def split: option.splits)
  have "\<forall>k < length atts. send_failure w ?st1 k = None"
  proof (intro allI impI)
    fix k assume "k < length atts"
    then have "send_failure w st (Suc k) = None" using Cons.prems by auto
    then show "send_failure w ?st1 k = None" by (simp add: send_failure_def se)
  qed
  from Cons.IH [OF this] show ?case
    using se by (simp add: send_custom_email_with_ics_def Let_def invite_messages_def)
qed

lemma email_loop_stops:
  "k < length atts \<Longrightarrow> send_failure w st k = Some err \<Longrightarrow>
   (\<forall>j < k. send_failure w st j = None) \<Longrightarrow>
   \<exists>st'. email_loop w atts subject html ics_text st = Inl (err, st') \<and>
     sent st' = sent st @ take k (invite_messages atts subject html ics_text) \<and>
     ui st' = ui st @ map CustomEmailSentTo (take k atts) \<and>
     (attempted st' = attempted st @ take k (invite_messages atts subject html ics_text) \<or>
      attempted st' = attempted st @ take (Suc k) (invite_messages atts subject html ics_text))"
proof (induction atts arbitrary: st k)
  case Nil
  then show ?case by simp
next
  case (Cons a atts)
  let ?m = "\<lparr>msg_to = a, msg_subject = subject, msg_html = html, msg_ics = ics_text\<rparr>"
  show ?case
  proof (cases k)
    case 0
    then show ?thesis using Cons.prems(2)
      by (auto simp: send_failure_def send_custom_email_with_ics_def Let_def invite_messages_def
            split: option.splits)
  next
    case (Suc k')
    let ?st1 = "st\<lparr>attempted := attempted st @ [?m], sent := sent st @ [?m], ui := ui st @ [CustomEmailSentTo a]\<rparr>"
    from Cons.prems(3) Suc have 0: "send_failure w st 0 = None" by auto
    then have se: "service_error w ''gmail'' = None" "send_error w (length (attempted st)) = None"
      by (auto simp: send_failure_def split: option.splits)
    have a: "k' < length atts" using Cons.prems(1) Suc by simp
    have b: "send_failure w ?st1 k' = Some err" using Cons.prems(2) Suc by (simp add: send_failure_def se)
    have c: "\<forall>j < k'. send_failure w ?st1 j = None"
    proof (intro allI impI)
      fix j assume "j < k'"
      then have "send_failure w st (Suc j) = None" using Cons.prems(3) Suc by auto
      then show "send_failure w ?st1 j = None" by (simp add: send_failure_def se)
    qed
    from Cons.IH [OF a b c] obtain st' where
      l: "email_loop w atts subject html ics_text ?st1 = Inl (err, st')"
      and s: "sent st' = sent ?st1 @ take k' (invite_messages atts subject html ics_text)"
      and u: "ui st' = ui ?st1 @ map CustomEmailSentTo (take k' atts)"
      and t: "attempted st' = attempted ?st1 @ take k' (invite_messages atts subject html ics_text) \<or>
              attempted st' = attempted ?st1 @ take (Suc k') (invite_messages atts subject html ics_text)"
      by blast
    have "email_loop w (a # atts) subject html ics_text st = Inl (err, st')"
      using l se by (simp add: send_custom_email_with_ics_def Let_def)
    then show ?thesis using s u t Suc
      by (intro exI [of _ st']) (auto simp: invite_messages_def)
  qed
qed


text \<open>
  C7. The loop builds one message per attendee, in the order of the list. When no send
  fails, all of them are sent, in that order. When the send for the attendee at position
  \<open>k\<close> is the first to fail, its exception leaves the loop, the messages of the attendees
  before \<open>k\<close> have been sent and stay sent, and nothing is attempted for an attendee after
  \<open>k\<close>.
\<close>

theorem email_loop_behaviour:
  "((\<forall>k < length atts. send_failure w st k = None) \<longrightarrow>
      (\<exists>st'. email_loop w atts subject html ics_text st = Inr st' \<and>
         sent st' = sent st @ invite_messages atts subject html ics_text \<and>
         attempted st' = attempted st @ invite_messages atts subject html ics_text \<and>
         ui st' = ui st @ map CustomEmailSentTo atts)) \<and>
   (\<forall>k err. k < length atts \<and> send_failure w st k = Some err \<and>
        (\<forall>j < k. send_failure w st j = None) \<longrightarrow>
      (\<exists>st'. email_loop w atts subject html ics_text st = Inl (err, st') \<and>
         sent st' = sent st @ take k (invite_messages atts subject html ics_text) \<and>
         ui st' = ui st @ map CustomEmailSentTo (take k atts) \<and>
         (attempted st' = attempted st @ take k (invite_messages atts subject html ics_text) \<or>
          attempted st' = attempted st @ take (Suc k) (invite_messages atts subject html ics_text)))) \<and>
   map msg_to (invite_messages atts subject html ics_text) = atts \<and>
   length (invite_messages atts subject html ics_text) = length atts"
proof -
  have A: "(\<forall>k < length atts. send_failure w st k = None) \<longrightarrow>
      (\<exists>st'. email_loop w atts subject html ics_text st = Inr st' \<and>
         sent st' = sent st @ invite_messages atts subject html ics_text \<and>
         attempted st' = attempted st @ invite_messages atts subject html ics_text \<and>
         ui st' = ui st @ map CustomEmailSentTo atts)"
    using email_loop_all_sent [of atts w st subject html ics_text] by simp
  have B: "\<forall>k err. k < length atts \<and> send_failure w st k = Some err \<and>
        (\<forall>j < k. send_failure w st j = None) \<longrightarrow>
      (\<exists>st'. email_loop w atts subject html ics_text st = Inl (err, st') \<and>
         sent st' = sent st @ take k (invite_messages atts subject html ics_text) \<and>
         ui st' = ui st @ map CustomEmailSentTo (take k atts) \<and>
         (attempted st' = attempted st @ take k (invite_messages atts subject html ics_text) \<or>
          attempted st' = attempted st @ take (Suc k) (invite_messages atts subject html ics_text)))"
    using email_loop_stops [of _ atts w st _ subject html ics_text] by blast
  have C: "map msg_to (invite_messages atts subject html ics_text) = atts"
    "length (invite_messages atts subject html ics_text) = length atts"
    by (simp_all add: invite_messages_def o_def)
  from A B C show ?thesis by blast
qed

theorem email_loop_behaviour_witness:
  "(case email_loop ex_world [''b@x.com'', ''c@x.com''] ''Meeting Invite: Team Sync'' ex_html ''ICS'' ex_state of
      Inl x \<Rightarrow> False
    | Inr st' \<Rightarrow> map msg_to (sent st') = [''b@x.com'', ''c@x.com'']) \<and>
   (case email_loop (ex_world\<lparr>send_error := (\<lambda>k. if k = 1 then Some (CollaboratorError ''send'') else None)\<rparr>)
           [''b@x.com'', ''c@x.com'', ''d@x.com''] ''Meeting Invite: Team Sync'' ex_html ''ICS'' ex_state of
      Inl (err, st') \<Rightarrow>
        err = CollaboratorError ''send'' \<and> map msg_to (sent st') = [''b@x.com''] \<and>
        ui st' = [CustomEmailSentTo ''b@x.com''] \<and> length (attempted st') \<le> 2
    | Inr st' \<Rightarrow> False)"
proof -
  let ?w = "ex_world\<lparr>send_error := (\<lambda>k. if k = 1 then Some (CollaboratorError ''send'') else None)\<rparr>"
  let ?s = "''Meeting Invite: Team Sync''"
  have ok: "\<forall>k < length [''b@x.com'', ''c@x.com'']. send_failure ex_world ex_state k = None"
    by (simp add: send_failure_def ex_world_def)
  from email_loop_behaviour [of "[''b@x.com'', ''c@x.com'']" ex_world ex_state ?s ex_html "''ICS''"] ok
  obtain st1 where 1: "email_loop ex_world [''b@x.com'', ''c@x.com''] ?s ex_html ''ICS'' ex_state = Inr st1"
    and s1: "sent st1 = sent ex_state @ invite_messages [''b@x.com'', ''c@x.com''] ?s ex_html ''ICS''"
    by blast
  have f: "(1::nat) < length [''b@x.com'', ''c@x.com'', ''d@x.com''] \<and>
           send_failure ?w ex_state 1 = Some (CollaboratorError ''send'') \<and>
           (\<forall>j < (1::nat). send_failure ?w ex_state j = None)"
    by (simp add: send_failure_def ex_world_def ex_state_def)
  from email_loop_behaviour [of "[''b@x.com'', ''c@x.com'', ''d@x.com'']" ?w ex_state ?s ex_html "''ICS''"] f
  obtain st2 where 2: "email_loop ?w [''b@x.com'', ''c@x.com'', ''d@x.com''] ?s ex_html ''ICS'' ex_state
        = Inl (CollaboratorError ''send'', st2)"
    and s2: "sent st2 = sent ex_state @ take 1 (invite_messages [''b@x.com'', ''c@x.com'', ''d@x.com''] ?s ex_html ''ICS'')"
    and u2: "ui st2 = ui ex_state @ map CustomEmailSentTo (take 1 [''b@x.com'', ''c@x.com'', ''d@x.com''])"
    and a2: "attempted st2 = attempted ex_state @ take 1 (invite_messages [''b@x.com'', ''c@x.com'', ''d@x.com''] ?s ex_html ''ICS'') \<or>
             attempted st2 = attempted ex_state @ take (Suc 1) (invite_messages [''b@x.com'', ''c@x.com'', ''d@x.com''] ?s ex_html ''ICS'')"
    by blast
  have l2: "length (attempted st2) \<le> 2" using a2 by (auto simp: ex_state_def invite_messages_def)
  have s1': "map msg_to (sent st1) = [''b@x.com'', ''c@x.com'']"
    using s1 by (simp add: invite_messages_def ex_state_def)
  have s2': "map msg_to (sent st2) = [''b@x.com'']" "ui st2 = [CustomEmailSentTo ''b@x.com'']"
    using s2 u2 by (simp_all add: invite_messages_def ex_state_def)
  show ?thesis unfolding 1 2 using l2 s1' s2' by simp
qed

section \<open>The form handler\<close>

lemma ex_extract_ok: "extract_meet_link ex_created_ok = JStr ''https://meet.example/a-b-c''"
  by (simp add: ex_created_ok_def extract_meet_link_def extract_body_def py_get_def py_iter_def
        Let_def truthy_def)

lemma ex_schedule:
  "schedule_meeting ex_world date time_str 30 atts summary d loc rr =
     Inr (JStr ''https://meet.example/a-b-c'', JStr ''evt1'', ex_start, ex_end)"
proof -
  have "py_get (JObj ex_created_ok) ''id'' dflt = Inr (JStr ''evt1'')" for dflt
    by (simp add: py_get_def ex_created_ok_def)
  then show ?thesis
    by (simp add: schedule_meeting_def ex_world_def ex_add_duration ex_extract_ok Let_def)
qed

lemma call_build_ics_five_positional:
  "call_build_ics env [a, b, c, d, e] [(''uid'', u), (''meet_link'', m)] = Inl TypeError"
  by (simp add: call_build_ics_def bind_arguments_def build_ics_params_def Let_def)

lemma ex_sender: "get_sender_email ex_world = Inr (JStr ''a@x.com'')"
  by (simp add: get_sender_email_def ex_world_def py_get_def)

text \<open>
  C2. The form handler passes the id of the created event as \<open>uid\<close>, but its call of
  \<open>build_ics\<close> gives five positional arguments where the function has seven parameters
  without default (the description and the location are left out), so binding the
  arguments raises TypeError. On a submission with two attendees for which every
  collaborator succeeds, the event is created, the handler stops with TypeError, no invite
  is built and no message is sent.
\<close>

theorem invite_call_raises:
  "on_submit ex_world ex_form ex_state =
     Inl (TypeError,
          \<lparr>ui = [MeetingScheduled (JStr ''https://meet.example/a-b-c'')], attempted = [], sent = []\<rparr>)"
  by (simp add: on_submit_def ex_form_def ex_schedule ex_sender call_build_ics_five_positional
        ex_state_def Let_def del: strftime.simps)

lemma on_submit_never_sends:
  "on_submit w f st = Inr st' \<Longrightarrow> sent st' = sent st \<and> attempted st' = attempted st"
  "on_submit w f st = Inl (err, st') \<Longrightarrow> sent st' = sent st \<and> attempted st' = attempted st"
  by (auto simp: on_submit_def Let_def call_build_ics_five_positional
        split: if_splits sum.splits prod.splits simp del: strftime.simps)

subsection \<open>Recurrence\<close>

lemma schedule_meeting_insert_fails:
  assumes "service_error w ''calendar'' = None"
    and "strptime w (date @ '' '' @ time_str) = Inr start_dt"
    and "timedelta_minutes dur = Inr td"
    and "datetime_add start_dt td = Inr end_dt"
    and "calendar_insert w (event_body (request_random w) atts summary d loc rr start_dt end_dt) = Inl err"
  shows "schedule_meeting w date time_str dur atts summary d loc rr = Inl err"
  using assms by (simp add: schedule_meeting_def)

lemma event_body_recurrence:
  "map_of (event_body rnd atts summ d l rr s e) ''recurrence'' =
     (case rr of None \<Rightarrow> None | Some r \<Rightarrow> if r = [] then None else Some (JArr [JStr r]))"
  by (simp add: event_body_def split: option.splits)

lemma event_body_keys:
  "map fst (event_body rnd atts summ d l rr s e) =
     [''summary'', ''description'', ''location'', ''start'', ''end'', ''attendees'',
      ''conferenceData'', ''reminders''] @
     (case rr of None \<Rightarrow> [] | Some r \<Rightarrow> if r = [] then [] else [''recurrence''])"
  by (simp add: event_body_def split: option.splits)

lemma on_submit_insert_fails:
  assumes "attendees f \<noteq> []"
    and "service_error w ''calendar'' = None"
    and "strptime w (strftime ''%Y-%m-%d'' (meeting_date f) @ '' '' @ strftime ''%H:%M'' (meeting_time f)) = Inr start_dt"
    and "timedelta_minutes (duration f) = Inr td"
    and "datetime_add start_dt td = Inr end_dt"
    and "calendar_insert w (event_body (request_random w) (attendees f) (topic f) None None
           (recur_rule_of (recurrence f)) start_dt end_dt) = Inl err"
  shows "on_submit w f st = Inl (err, st)"
proof -
  note sm = schedule_meeting_insert_fails [OF assms(2-6)]
  show ?thesis using assms(1) by (simp add: on_submit_def Let_def sm del: strftime.simps)
qed

lemma on_submit_inserted:
  assumes "attendees f \<noteq> []"
    and "service_error w ''calendar'' = None"
    and "strptime w (strftime ''%Y-%m-%d'' (meeting_date f) @ '' '' @ strftime ''%H:%M'' (meeting_time f)) = Inr start_dt"
    and "timedelta_minutes (duration f) = Inr td"
    and "datetime_add start_dt td = Inr end_dt"
    and "calendar_insert w (event_body (request_random w) (attendees f) (topic f) None None
           (recur_rule_of (recurrence f)) start_dt end_dt) = Inr created"
  shows "(\<not> send_custom f \<longrightarrow>
            on_submit w f st = Inr (st\<lparr>ui := ui st @ [MeetingScheduled (extract_meet_link created)]\<rparr>)) \<and>
         (send_custom f \<longrightarrow>
            (\<exists>err. on_submit w f st =
               Inl (err, st\<lparr>ui := ui st @ [MeetingScheduled (extract_meet_link created)]\<rparr>)))"
proof -
  from schedule_meeting_returns [OF assms(2-6)] obtain event_id where
    sm: "schedule_meeting w (strftime ''%Y-%m-%d'' (meeting_date f)) (strftime ''%H:%M'' (meeting_time f))
           (duration f) (attendees f) (topic f) None None (recur_rule_of (recurrence f)) =
         Inr (extract_meet_link created, event_id, start_dt, end_dt)"
    by (rule exE)
  have a: "\<not> send_custom f \<Longrightarrow>
            on_submit w f st = Inr (st\<lparr>ui := ui st @ [MeetingScheduled (extract_meet_link created)]\<rparr>)"
    using assms(1) by (simp add: on_submit_def Let_def sm del: strftime.simps)
  have b: "send_custom f \<Longrightarrow>
            \<exists>err. on_submit w f st =
               Inl (err, st\<lparr>ui := ui st @ [MeetingScheduled (extract_meet_link created)]\<rparr>)"
    using assms(1)
    by (cases "get_sender_email w")
       (simp_all add: on_submit_def Let_def sm call_build_ics_five_positional del: strftime.simps)
  from a b show ?thesis by (intro conjI impI)
qed

text \<open>
  C8. The recurrence selection maps "Daily", "Weekly" and "Monthly" to the rule strings
  with \<open>FREQ=DAILY\<close>, \<open>FREQ=WEEKLY\<close> and \<open>FREQ=MONTHLY\<close> and \<open>COUNT=5\<close>, and "None" (like
  every other text) to no rule. The event built for the calendar has the recurrence entry
  holding the list with that rule, and no key "recurrence" at all when there is no rule.
  The form handler submits this event and no other: on a submission with attendees, once
  the calendar service, the parsed start and the end are there, what the handler does is
  fixed by the calendar's answer to the event built with the rule of the selection: if
  the calendar raises, the handler stops with that exception; if it answers, the handler
  reports the meeting with the link extracted from that answer.
\<close>

theorem recurrence_mapping:
  "recur_rule_of ''Daily'' = Some ''RRULE:FREQ=DAILY;COUNT=5'' \<and>
   recur_rule_of ''Weekly'' = Some ''RRULE:FREQ=WEEKLY;COUNT=5'' \<and>
   recur_rule_of ''Monthly'' = Some ''RRULE:FREQ=MONTHLY;COUNT=5'' \<and>
   recur_rule_of ''None'' = None \<and>
   map_of (event_body rnd atts summ d l (recur_rule_of ''None'') s e) ''recurrence'' = None \<and>
   map_of (event_body rnd atts summ d l (recur_rule_of ''Daily'') s e) ''recurrence'' =
     Some (JArr [JStr ''RRULE:FREQ=DAILY;COUNT=5'']) \<and>
   map_of (event_body rnd atts summ d l (recur_rule_of ''Weekly'') s e) ''recurrence'' =
     Some (JArr [JStr ''RRULE:FREQ=WEEKLY;COUNT=5'']) \<and>
   map_of (event_body rnd atts summ d l (recur_rule_of ''Monthly'') s e) ''recurrence'' =
     Some (JArr [JStr ''RRULE:FREQ=MONTHLY;COUNT=5'']) \<and>
   (sel \<noteq> ''Daily'' \<and> sel \<noteq> ''Weekly'' \<and> sel \<noteq> ''Monthly'' \<longrightarrow> recur_rule_of sel = None) \<and>
   ''recurrence'' \<notin> set (map fst (event_body rnd atts summ d l (recur_rule_of ''None'') s e)) \<and>
   (attendees f \<noteq> [] \<and>
    service_error w ''calendar'' = None \<and>
    strptime w (strftime ''%Y-%m-%d'' (meeting_date f) @ '' '' @ strftime ''%H:%M'' (meeting_time f)) =
      Inr start_dt \<and>
    timedelta_minutes (duration f) = Inr td \<and>
    datetime_add start_dt td = Inr end_dt \<longrightarrow>
      map_of (event_body (request_random w) (attendees f) (topic f) None None
                (recur_rule_of (recurrence f)) start_dt end_dt) ''recurrence'' =
        (case recur_rule_of (recurrence f) of None \<Rightarrow> None | Some r \<Rightarrow> Some (JArr [JStr r])) \<and>
      (\<forall>err. calendar_insert w (event_body (request_random w) (attendees f) (topic f) None None
                 (recur_rule_of (recurrence f)) start_dt end_dt) = Inl err \<longrightarrow>
         schedule_meeting w (strftime ''%Y-%m-%d'' (meeting_date f)) (strftime ''%H:%M'' (meeting_time f))
           (duration f) (attendees f) (topic f) None None (recur_rule_of (recurrence f)) = Inl err \<and>
         on_submit w f st = Inl (err, st)) \<and>
      (\<forall>created. calendar_insert w (event_body (request_random w) (attendees f) (topic f) None None
                 (recur_rule_of (recurrence f)) start_dt end_dt) = Inr created \<longrightarrow>
         (\<exists>event_id.
            schedule_meeting w (strftime ''%Y-%m-%d'' (meeting_date f)) (strftime ''%H:%M'' (meeting_time f))
              (duration f) (attendees f) (topic f) None None (recur_rule_of (recurrence f)) =
            Inr (extract_meet_link created, event_id, start_dt, end_dt)) \<and>
         (\<not> send_custom f \<longrightarrow>
            on_submit w f st = Inr (st\<lparr>ui := ui st @ [MeetingScheduled (extract_meet_link created)]\<rparr>)) \<and>
         (send_custom f \<longrightarrow>
            (\<exists>err. on_submit w f st =
               Inl (err, st\<lparr>ui := ui st @ [MeetingScheduled (extract_meet_link created)]\<rparr>)))))"
proof -
  have A: "recur_rule_of ''Daily'' = Some ''RRULE:FREQ=DAILY;COUNT=5'' \<and>
   recur_rule_of ''Weekly'' = Some ''RRULE:FREQ=WEEKLY;COUNT=5'' \<and>
   recur_rule_of ''Monthly'' = Some ''RRULE:FREQ=MONTHLY;COUNT=5'' \<and>
   recur_rule_of ''None'' = None \<and>
   map_of (event_body rnd atts summ d l (recur_rule_of ''None'') s e) ''recurrence'' = None \<and>
   map_of (event_body rnd atts summ d l (recur_rule_of ''Daily'') s e) ''recurrence'' =
     Some (JArr [JStr ''RRULE:FREQ=DAILY;COUNT=5'']) \<and>
   map_of (event_body rnd atts summ d l (recur_rule_of ''Weekly'') s e) ''recurrence'' =
     Some (JArr [JStr ''RRULE:FREQ=WEEKLY;COUNT=5'']) \<and>
   map_of (event_body rnd atts summ d l (recur_rule_of ''Monthly'') s e) ''recurrence'' =
     Some (JArr [JStr ''RRULE:FREQ=MONTHLY;COUNT=5''])"
    by (simp add: recur_rule_of_def event_body_def)
  have B: "sel \<noteq> ''Daily'' \<and> sel \<noteq> ''Weekly'' \<and> sel \<noteq> ''Monthly'' \<longrightarrow> recur_rule_of sel = None"
    by (simp add: recur_rule_of_def)
  have C: "''recurrence'' \<notin> set (map fst (event_body rnd atts summ d l (recur_rule_of ''None'') s e))"
    unfolding event_body_keys by (simp add: recur_rule_of_def)
  have D: "attendees f \<noteq> [] \<and>
    service_error w ''calendar'' = None \<and>
    strptime w (strftime ''%Y-%m-%d'' (meeting_date f) @ '' '' @ strftime ''%H:%M'' (meeting_time f)) =
      Inr start_dt \<and>
    timedelta_minutes (duration f) = Inr td \<and>
    datetime_add start_dt td = Inr end_dt \<longrightarrow>
      map_of (event_body (request_random w) (attendees f) (topic f) None None
                (recur_rule_of (recurrence f)) start_dt end_dt) ''recurrence'' =
        (case recur_rule_of (recurrence f) of None \<Rightarrow> None | Some r \<Rightarrow> Some (JArr [JStr r])) \<and>
      (\<forall>err. calendar_insert w (event_body (request_random w) (attendees f) (topic f) None None
                 (recur_rule_of (recurrence f)) start_dt end_dt) = Inl err \<longrightarrow>
         schedule_meeting w (strftime ''%Y-%m-%d'' (meeting_date f)) (strftime ''%H:%M'' (meeting_time f))
           (duration f) (attendees f) (topic f) None None (recur_rule_of (recurrence f)) = Inl err \<and>
         on_submit w f st = Inl (err, st)) \<and>
      (\<forall>created. calendar_insert w (event_body (request_random w) (attendees f) (topic f) None None
                 (recur_rule_of (recurrence f)) start_dt end_dt) = Inr created \<longrightarrow>
         (\<exists>event_id.
            schedule_meeting w (strftime ''%Y-%m-%d'' (meeting_date f)) (strftime ''%H:%M'' (meeting_time f))
              (duration f) (attendees f) (topic f) None None (recur_rule_of (recurrence f)) =
            Inr (extract_meet_link created, event_id, start_dt, end_dt)) \<and>
         (\<not> send_custom f \<longrightarrow>
            on_submit w f st = Inr (st\<lparr>ui := ui st @ [MeetingScheduled (extract_meet_link created)]\<rparr>)) \<and>
         (send_custom f \<longrightarrow>
            (\<exists>err. on_submit w f st =
               Inl (err, st\<lparr>ui := ui st @ [MeetingScheduled (extract_meet_link created)]\<rparr>))))"
  proof (intro impI, elim conjE)
    assume h: "attendees f \<noteq> []" "service_error w ''calendar'' = None"
      "strptime w (strftime ''%Y-%m-%d'' (meeting_date f) @ '' '' @ strftime ''%H:%M'' (meeting_time f)) =
         Inr start_dt"
      "timedelta_minutes (duration f) = Inr td" "datetime_add start_dt td = Inr end_dt"
    have d1: "map_of (event_body (request_random w) (attendees f) (topic f) None None
                (recur_rule_of (recurrence f)) start_dt end_dt) ''recurrence'' =
        (case recur_rule_of (recurrence f) of None \<Rightarrow> None | Some r \<Rightarrow> Some (JArr [JStr r]))"
      unfolding event_body_recurrence by (simp add: recur_rule_of_def)
    have d2: "\<forall>err. calendar_insert w (event_body (request_random w) (attendees f) (topic f) None None
                 (recur_rule_of (recurrence f)) start_dt end_dt) = Inl err \<longrightarrow>
         schedule_meeting w (strftime ''%Y-%m-%d'' (meeting_date f)) (strftime ''%H:%M'' (meeting_time f))
           (duration f) (attendees f) (topic f) None None (recur_rule_of (recurrence f)) = Inl err \<and>
         on_submit w f st = Inl (err, st)"
      using schedule_meeting_insert_fails [OF h(2-5)] on_submit_insert_fails [OF h]
      by (intro allI impI conjI)
    have d3: "\<forall>created. calendar_insert w (event_body (request_random w) (attendees f) (topic f) None None
                 (recur_rule_of (recurrence f)) start_dt end_dt) = Inr created \<longrightarrow>
         (\<exists>event_id.
            schedule_meeting w (strftime ''%Y-%m-%d'' (meeting_date f)) (strftime ''%H:%M'' (meeting_time f))
              (duration f) (attendees f) (topic f) None None (recur_rule_of (recurrence f)) =
            Inr (extract_meet_link created, event_id, start_dt, end_dt)) \<and>
         (\<not> send_custom f \<longrightarrow>
            on_submit w f st = Inr (st\<lparr>ui := ui st @ [MeetingScheduled (extract_meet_link created)]\<rparr>)) \<and>
         (send_custom f \<longrightarrow>
            (\<exists>err. on_submit w f st =
               Inl (err, st\<lparr>ui := ui st @ [MeetingScheduled (extract_meet_link created)]\<rparr>)))"
    proof (intro allI impI)
      fix created
      assume c: "calendar_insert w (event_body (request_random w) (attendees f) (topic f) None None
                 (recur_rule_of (recurrence f)) start_dt end_dt) = Inr created"
      from schedule_meeting_returns [OF h(2-5) c] on_submit_inserted [OF h c, of st]
      show "(\<exists>event_id.
            schedule_meeting w (strftime ''%Y-%m-%d'' (meeting_date f)) (strftime ''%H:%M'' (meeting_time f))
              (duration f) (attendees f) (topic f) None None (recur_rule_of (recurrence f)) =
            Inr (extract_meet_link created, event_id, start_dt, end_dt)) \<and>
         (\<not> send_custom f \<longrightarrow>
            on_submit w f st = Inr (st\<lparr>ui := ui st @ [MeetingScheduled (extract_meet_link created)]\<rparr>)) \<and>
         (send_custom f \<longrightarrow>
            (\<exists>err. on_submit w f st =
               Inl (err, st\<lparr>ui := ui st @ [MeetingScheduled (extract_meet_link created)]\<rparr>)))"
        by (rule conjI)
    qed
    from d1 d2 d3 show "map_of (event_body (request_random w) (attendees f) (topic f) None None
                (recur_rule_of (recurrence f)) start_dt end_dt) ''recurrence'' =
        (case recur_rule_of (recurrence f) of None \<Rightarrow> None | Some r \<Rightarrow> Some (JArr [JStr r])) \<and>
      (\<forall>err. calendar_insert w (event_body (request_random w) (attendees f) (topic f) None None
                 (recur_rule_of (recurrence f)) start_dt end_dt) = Inl err \<longrightarrow>
         schedule_meeting w (strftime ''%Y-%m-%d'' (meeting_date f)) (strftime ''%H:%M'' (meeting_time f))
           (duration f) (attendees f) (topic f) None None (recur_rule_of (recurrence f)) = Inl err \<and>
         on_submit w f st = Inl (err, st)) \<and>
      (\<forall>created. calendar_insert w (event_body (request_random w) (attendees f) (topic f) None None
                 (recur_rule_of (recurrence f)) start_dt end_dt) = Inr created \<longrightarrow>
         (\<exists>event_id.
            schedule_meeting w (strftime ''%Y-%m-%d'' (meeting_date f)) (strftime ''%H:%M'' (meeting_time f))
              (duration f) (attendees f) (topic f) None None (recur_rule_of (recurrence f)) =
            Inr (extract_meet_link created, event_id, start_dt, end_dt)) \<and>
         (\<not> send_custom f \<longrightarrow>
            on_submit w f st = Inr (st\<lparr>ui := ui st @ [MeetingScheduled (extract_meet_link created)]\<rparr>)) \<and>
         (send_custom f \<longrightarrow>
            (\<exists>err. on_submit w f st =
               Inl (err, st\<lparr>ui := ui st @ [MeetingScheduled (extract_meet_link created)]\<rparr>))))"
      by (intro conjI)
  qed
  from A B C D show ?thesis by (intro conjI) (elim conjE, assumption)+
qed

theorem recurrence_mapping_witness:
  "on_submit (ex_world_expecting (Some (JArr [JStr ''RRULE:FREQ=DAILY;COUNT=5''])))
     (ex_form\<lparr>recurrence := ''Daily'', send_custom := False\<rparr>) ex_state =
     Inr \<lparr>ui = [MeetingScheduled (JStr ''https://meet.example/a-b-c'')], attempted = [], sent = []\<rparr> \<and>
   on_submit (ex_world_expecting None) (ex_form\<lparr>send_custom := False\<rparr>) ex_state =
     Inr \<lparr>ui = [MeetingScheduled (JStr ''https://meet.example/a-b-c'')], attempted = [], sent = []\<rparr> \<and>
   on_submit (ex_world_expecting None) (ex_form\<lparr>recurrence := ''Weekly'', send_custom := False\<rparr>) ex_state =
     Inl (CollaboratorError ''unexpected recurrence'', ex_state)"
proof -
  let ?td = "\<lparr>td_days = 0, td_seconds = 1800, td_microseconds = 0\<rparr>"
  let ?daily = "Some (JArr [JStr ''RRULE:FREQ=DAILY;COUNT=5''])"
  let ?fd = "ex_form\<lparr>recurrence := ''Daily'', send_custom := False\<rparr>"
  let ?fn = "ex_form\<lparr>send_custom := False\<rparr>"
  let ?fw = "ex_form\<lparr>recurrence := ''Weekly'', send_custom := False\<rparr>"
  have h: "attendees f \<noteq> [] \<and>
      service_error (ex_world_expecting r) ''calendar'' = None \<and>
      strptime (ex_world_expecting r)
        (strftime ''%Y-%m-%d'' (meeting_date f) @ '' '' @ strftime ''%H:%M'' (meeting_time f)) = Inr ex_start \<and>
      timedelta_minutes (duration f) = Inr ?td \<and>
      datetime_add ex_start ?td = Inr ex_end"
    if "attendees f \<noteq> []" "duration f = 30" for f r
    using that ex_add_duration by (simp add: ex_world_expecting_def ex_world_def del: strftime.simps)
  have fa: "attendees ?fd \<noteq> []" "duration ?fd = 30" "attendees ?fn \<noteq> []" "duration ?fn = 30"
    "attendees ?fw \<noteq> []" "duration ?fw = 30" "\<not> send_custom ?fd" "\<not> send_custom ?fn"
    by (simp_all add: ex_form_def)
  have cd: "calendar_insert (ex_world_expecting ?daily)
      (event_body (request_random (ex_world_expecting ?daily)) (attendees ?fd) (topic ?fd) None None
         (recur_rule_of (recurrence ?fd)) ex_start ex_end) = Inr ex_created_ok"
    by (simp add: ex_world_expecting_def ex_world_def event_body_recurrence recur_rule_of_def)
  have cn: "calendar_insert (ex_world_expecting None)
      (event_body (request_random (ex_world_expecting None)) (attendees ?fn) (topic ?fn) None None
         (recur_rule_of (recurrence ?fn)) ex_start ex_end) = Inr ex_created_ok"
    by (simp add: ex_world_expecting_def ex_world_def event_body_recurrence recur_rule_of_def ex_form_def)
  have cw: "calendar_insert (ex_world_expecting None)
      (event_body (request_random (ex_world_expecting None)) (attendees ?fw) (topic ?fw) None None
         (recur_rule_of (recurrence ?fw)) ex_start ex_end) = Inl (CollaboratorError ''unexpected recurrence'')"
    by (simp add: ex_world_expecting_def ex_world_def event_body_recurrence recur_rule_of_def)
  note Td = recurrence_mapping [where f = ?fd and w = "ex_world_expecting ?daily" and st = ex_state
      and start_dt = ex_start and td = ?td and end_dt = ex_end,
      THEN conjunct2, THEN conjunct2, THEN conjunct2, THEN conjunct2, THEN conjunct2,
      THEN conjunct2, THEN conjunct2, THEN conjunct2, THEN conjunct2, THEN conjunct2,
      THEN mp, OF h [OF fa(1,2)]]
  note Tn = recurrence_mapping [where f = ?fn and w = "ex_world_expecting None" and st = ex_state
      and start_dt = ex_start and td = ?td and end_dt = ex_end,
      THEN conjunct2, THEN conjunct2, THEN conjunct2, THEN conjunct2, THEN conjunct2,
      THEN conjunct2, THEN conjunct2, THEN conjunct2, THEN conjunct2, THEN conjunct2,
      THEN mp, OF h [OF fa(3,4)]]
  note Tw = recurrence_mapping [where f = ?fw and w = "ex_world_expecting None" and st = ex_state
      and start_dt = ex_start and td = ?td and end_dt = ex_end,
      THEN conjunct2, THEN conjunct2, THEN conjunct2, THEN conjunct2, THEN conjunct2,
      THEN conjunct2, THEN conjunct2, THEN conjunct2, THEN conjunct2, THEN conjunct2,
      THEN mp, OF h [OF fa(5,6)]]
  have 1: "on_submit (ex_world_expecting ?daily) ?fd ex_state =
      Inr (ex_state\<lparr>ui := ui ex_state @ [MeetingScheduled (extract_meet_link ex_created_ok)]\<rparr>)"
    using Td [THEN conjunct2, THEN conjunct2, THEN spec, THEN mp, OF cd, THEN conjunct2, THEN conjunct1,
        THEN mp, OF fa(7)] .
  have 2: "on_submit (ex_world_expecting None) ?fn ex_state =
      Inr (ex_state\<lparr>ui := ui ex_state @ [MeetingScheduled (extract_meet_link ex_created_ok)]\<rparr>)"
    using Tn [THEN conjunct2, THEN conjunct2, THEN spec, THEN mp, OF cn, THEN conjunct2, THEN conjunct1,
        THEN mp, OF fa(8)] .
  have 3: "on_submit (ex_world_expecting None) ?fw ex_state =
      Inl (CollaboratorError ''unexpected recurrence'', ex_state)"
    using Tw [THEN conjunct2, THEN conjunct1, THEN spec, THEN mp, OF cw, THEN conjunct2] .
  show ?thesis unfolding 1 2 3 by (simp add: ex_extract_ok ex_state_def)
qed

end
